(* ===== verification/PSM_Prelude.thy ===== *)
theory PSM_Prelude imports Main "HOL-Library.Word" begin

text \<open>
  Shared vocabulary of the development: the byte and integer types of the C++ code, the
  little-endian \<open>short\<close> fields of a packet header, decimal numerals as
  \<open>boost::lexical_cast\<close> and \<open>std::to_string\<close> print them, and the list facts that the
  components use. The collections \<open>frame_simps\<close> and \<open>step_simps\<close> are filled by the
  components.
\<close>

named_theorems frame_simps "facts about the packet framing of the TCP stream"
named_theorems step_simps "equations of the operations of a component"

type_synonym byte = "8 word"
type_synonym int16 = "16 word"
type_synonym int32 = "32 word"

text \<open>Socket objects and pool blocks are identified by numbers, in place of their pointers.\<close>

type_synonym sid = nat

subsection \<open>Lists\<close>

lemma take_eq_take_append:
  "take n xs = ys \<Longrightarrow> length ys = n \<Longrightarrow> xs = ys @ drop n xs"
  by (metis append_take_drop_id)

lemma filter_neq_id [simp]: "x \<notin> set xs \<Longrightarrow> filter (\<lambda>y. y \<noteq> x) xs = xs"
  by (induction xs) auto

lemma concat_replicate_end: "concat (replicate (Suc n) xs) = concat (replicate n xs) @ xs"
  by (induction n) auto

lemma remove1_append_in: "x \<in> set xs \<Longrightarrow> remove1 x (xs @ ys) = remove1 x xs @ ys"
  by (simp add: remove1_append)

subsection \<open>Little-endian \<open>short\<close> fields\<close>

text \<open>
  A \<open>short\<close> of a packet header is two bytes, the low one first (the code copies them with
  \<open>memcpy\<close> on a little-endian machine).
\<close>

definition le16 :: "int16 \<Rightarrow> byte list" where
  "le16 w = [word_of_nat (unat w mod 256), word_of_nat (unat w div 256)]"

definition un_le16 :: "byte \<Rightarrow> byte \<Rightarrow> int16" where
  "un_le16 lo hi = word_of_nat (unat lo + 256 * unat hi)"

lemma length_le16 [simp]: "length (le16 w) = 2"
  by (simp add: le16_def)

lemma unat_un_le16: "unat (un_le16 lo hi) = unat lo + 256 * unat hi"
proof -
  have "unat lo < 256" and "unat hi < 256"
    using unsigned_less [of lo, where 'a = nat] unsigned_less [of hi, where 'a = nat] by simp_all
  then have "unat lo + 256 * unat hi < 65536" by linarith
  then show ?thesis unfolding un_le16_def unat_of_nat by simp
qed

lemma un_le16_le16 [simp]: "un_le16 (le16 w ! 0) (le16 w ! Suc 0) = w"
proof -
  have "unat w < 65536" using unsigned_less [of w, where 'a = nat] by simp
  then have hi: "unat w div 256 < 256" by (simp add: less_mult_imp_div_less)
  have "unat (un_le16 (le16 w ! 0) (le16 w ! Suc 0)) = unat w"
    using hi by (simp add: unat_un_le16) (simp add: le16_def unat_of_nat)
  then show ?thesis by (simp only: word_unat_eq_iff)
qed

text \<open>The value of a \<open>short\<close>, from its unsigned reading.\<close>

lemma sint16_unat:
  "sint (w :: int16) = (if unat w < 32768 then int (unat w) else int (unat w) - 65536)"
proof -
  have u: "uint w < 65536" "0 \<le> uint w"
    using unsigned_less [of w, where 'a = int] by simp_all
  have "sint w = signed_take_bit 15 (uint w)" by (simp add: sint_uint)
  also have "\<dots> = (uint w + 32768) mod 65536 - 32768"
    by (simp add: signed_take_bit_eq_take_bit_shift take_bit_eq_mod)
  finally have s: "sint w = (uint w + 32768) mod 65536 - 32768" .
  have n: "int (unat w) = uint w" by simp
  show ?thesis
  proof (cases "unat w < 32768")
    case True
    with n u have "uint w + 32768 < 65536" "0 \<le> uint w + 32768" by linarith+
    then have "(uint w + 32768) mod 65536 = uint w + 32768" by (rule mod_pos_pos_trivial [rotated])
    with s n True show ?thesis by (simp only: if_True)
  next
    case False
    with n u have "uint w - 32768 < 65536" "0 \<le> uint w - 32768" by linarith+
    then have "(uint w - 32768) mod 65536 = uint w - 32768" by (rule mod_pos_pos_trivial [rotated])
    moreover have "(uint w + 32768) mod 65536 = (uint w - 32768 + 65536) mod 65536"
      by (rule arg_cong [where f = "\<lambda>x. x mod 65536"]) linarith
    ultimately have "(uint w + 32768) mod 65536 = uint w - 32768" by (simp only: mod_add_self2)
    with s n False show ?thesis by (simp only: if_False)
  qed
qed

end
