(* ===== verification/CPacket.thy ===== *)
theory CPacket imports PSM_Prelude begin

text \<open>
  The packet of \<open>CPacket.h\<close> (server and client) and its bytes on the wire: a 4-byte header of
  two little-endian \<open>short\<close>s, the payload length and the packet type, and then the payload.
  \<open>SendPacket\<close> is the tail that every \<open>Send...\<close> method of the three socket classes shares;
  \<open>deframe\<close> is the specification of what a receiver has to make of a stream of bytes.
\<close>

subsection \<open>The packet\<close>

abbreviation BUFSIZE :: nat where "BUFSIZE \<equiv> 8192"

definition HEADER_SIZE :: nat where "HEADER_SIZE = 4"

definition LENGTH_SIZE :: nat where "LENGTH_SIZE = 2"

datatype ownerType = AGENT | WEBCOMMAND

text \<open>The server's packet; \<open>owner\<close> is the socket object the packet came from.\<close>

record CPacket =
  plength :: int16
  ptype :: int16
  pmsg :: "byte list"
  powner :: sid
  pownert :: ownerType

text \<open>The part of the packet a handler reads: its type and the first \<open>length\<close> payload bytes.\<close>

definition payload :: "CPacket \<Rightarrow> byte list" where
  "payload p = take (nat (sint (plength p))) (pmsg p)"

subsection \<open>The header fields in a receive buffer\<close>

definition hdr_word :: "byte list \<Rightarrow> int16" where
  "hdr_word buf = un_le16 (buf ! 0) (buf ! 1)"

definition hdr_type :: "byte list \<Rightarrow> int16" where
  "hdr_type buf = un_le16 (buf ! 2) (buf ! 3)"

text \<open>The length field read as an unsigned number.\<close>

definition hdr_len :: "byte list \<Rightarrow> nat" where
  "hdr_len buf = unat (hdr_word buf)"

lemma hdr_len_bound: "hdr_len buf < 65536"
  using unsigned_less [of "hdr_word buf", where 'a = nat] by (simp add: hdr_len_def)

lemma hdr_append [frame_simps]:
  assumes "4 \<le> length bs"
  shows "hdr_word (bs @ cs) = hdr_word bs" and "hdr_type (bs @ cs) = hdr_type bs"
    and "hdr_len (bs @ cs) = hdr_len bs"
proof -
  from assms have "0 < length bs" "1 < length bs" "2 < length bs" "3 < length bs" by linarith+
  then show "hdr_word (bs @ cs) = hdr_word bs" and "hdr_type (bs @ cs) = hdr_type bs"
    by (simp_all only: hdr_word_def hdr_type_def nth_append if_True)
  then show "hdr_len (bs @ cs) = hdr_len bs" by (simp add: hdr_len_def)
qed

lemma hdr_take [frame_simps]:
  assumes "4 \<le> n"
  shows "hdr_word (take n bs) = hdr_word bs" and "hdr_type (take n bs) = hdr_type bs"
    and "hdr_len (take n bs) = hdr_len bs"
  using assms by (simp_all add: hdr_word_def hdr_type_def hdr_len_def)

text \<open>
  \<open>memcpy(msg, buf, HEADER_SIZE + length)\<close> overwrites the length, the type and the first
  \<open>length\<close> bytes of \<open>msg->msg\<close>; what the block held behind them stays.
\<close>

definition memcpy_packet :: "byte list \<Rightarrow> nat \<Rightarrow> CPacket \<Rightarrow> CPacket" where
  "memcpy_packet buf len p =
     p\<lparr>plength := hdr_word buf, ptype := hdr_type buf,
       pmsg := take len (drop HEADER_SIZE buf) @ drop len (pmsg p)\<rparr>"

subsection \<open>Sending\<close>

text \<open>
  Each \<open>Send...\<close> method sets \<open>packet.length = (short)msg.ByteSize()\<close> and the type, serialises the
  message into \<open>packet.msg\<close> and sends the first \<open>length + HEADER_SIZE\<close> bytes of the packet.
  \<open>ser\<close> is the serialised message. A message larger than \<open>packet.msg\<close> has no defined outcome:
  no method compares \<open>ByteSize\<close> with \<open>BUFSIZE\<close>.
\<close>

datatype send_result = Sent "byte list" | BufferOverrun

definition SendPacket :: "int16 \<Rightarrow> byte list \<Rightarrow> send_result" where
  "SendPacket t ser =
     (if length ser \<le> BUFSIZE
      then Sent (le16 (word_of_nat (length ser)) @ le16 t @ ser)
      else BufferOverrun)"

definition wire :: "int16 \<times> byte list \<Rightarrow> byte list" where
  "wire p = le16 (word_of_nat (length (snd p))) @ le16 (fst p) @ snd p"

lemma unat16_of_nat: "n < 65536 \<Longrightarrow> unat (word_of_nat n :: int16) = n"
  unfolding unat_of_nat by simp

lemma wire_hdr [frame_simps]:
  assumes "length ser < 65536"
  shows "hdr_len (wire (t, ser) @ rest) = length ser"
    and "hdr_type (wire (t, ser) @ rest) = t"
    and "length (wire (t, ser)) = 4 + length ser"
    and "drop 4 (wire (t, ser) @ rest) = ser @ rest"
proof -
  have e: "wire (t, ser) @ rest =
      [le16 (word_of_nat (length ser)) ! 0, le16 (word_of_nat (length ser)) ! Suc 0,
       le16 t ! 0, le16 t ! Suc 0] @ ser @ rest"
    by (simp add: wire_def le16_def)
  show "hdr_len (wire (t, ser) @ rest) = length ser"
    unfolding e using assms by (simp add: hdr_len_def hdr_word_def unat16_of_nat)
  show "hdr_type (wire (t, ser) @ rest) = t"
    unfolding e by (simp add: hdr_type_def numeral_2_eq_2 numeral_3_eq_3)
  show "drop 4 (wire (t, ser) @ rest) = ser @ rest" unfolding e by simp
qed (simp add: wire_def)

subsection \<open>What a stream of packets means\<close>

text \<open>
  \<open>deframe bs\<close> splits the bytes of a stream into the complete packets at its front, each as its
  type and payload, and the incomplete rest.
\<close>

function deframe :: "byte list \<Rightarrow> (int16 \<times> byte list) list \<times> byte list" where
  "deframe bs =
     (if length bs < 4 \<or> length bs < 4 + hdr_len bs then ([], bs)
      else (let (ps, r) = deframe (drop (4 + hdr_len bs) bs)
            in ((hdr_type bs, take (hdr_len bs) (drop 4 bs)) # ps, r)))"
  by pat_completeness auto
termination by (relation "measure length") auto

declare deframe.simps [simp del]

lemma deframe_incomplete [frame_simps]:
  "length bs < 4 \<or> length bs < 4 + hdr_len bs \<Longrightarrow> deframe bs = ([], bs)"
  by (simp add: deframe.simps)

lemma deframe_one:
  assumes "4 \<le> length bs" and "4 + hdr_len bs \<le> length bs"
  shows "deframe bs =
    ((hdr_type bs, take (hdr_len bs) (drop 4 bs)) # fst (deframe (drop (4 + hdr_len bs) bs)),
     snd (deframe (drop (4 + hdr_len bs) bs)))"
  using assms by (simp add: deframe.simps [of bs] split_beta)

text \<open>Splitting a longer stream continues from the rest of the shorter one.\<close>

lemma deframe_append:
  "deframe (as @ bs) =
     (fst (deframe as) @ fst (deframe (snd (deframe as) @ bs)),
      snd (deframe (snd (deframe as) @ bs)))"
proof (induction as rule: deframe.induct)
  case (1 as)
  show ?case
  proof (cases "length as < 4 \<or> length as < 4 + hdr_len as")
    case True
    then show ?thesis by (simp add: deframe_incomplete)
  next
    case False
    then have len: "4 \<le> length as" "4 + hdr_len as \<le> length as" by auto
    have h: "hdr_len (as @ bs) = hdr_len as" "hdr_type (as @ bs) = hdr_type as"
      using len by (simp_all add: hdr_append)
    have long: "4 \<le> length (as @ bs)" "4 + hdr_len (as @ bs) \<le> length (as @ bs)"
      using len h by simp_all
    show ?thesis
      using 1 False len
      by (simp add: deframe_one [OF long] deframe_one [OF len] h)
  qed
qed

lemma deframe_rest_incomplete: "deframe (snd (deframe as)) = ([], snd (deframe as))"
proof (induction as rule: deframe.induct)
  case (1 as)
  then show ?case
    by (cases "length as < 4 \<or> length as < 4 + hdr_len as")
       (auto simp: deframe_incomplete deframe_one)
qed

lemma deframe_wire:
  assumes "\<forall>p \<in> set ps. length (snd p) < 65536"
  shows "deframe (concat (map wire ps)) = (ps, [])"
  using assms
proof (induction ps)
  case Nil
  then show ?case by (simp add: deframe_incomplete)
next
  case (Cons p ps)
  obtain t ser where p: "p = (t, ser)" by (cases p)
  have len: "length ser < 65536" using Cons.prems p by simp
  let ?bs = "wire (t, ser) @ concat (map wire ps)"
  note hdr = wire_hdr(1,2,4) [OF len, where t = t and rest = "concat (map wire ps)"]
  have l: "4 \<le> length ?bs" "4 + hdr_len ?bs \<le> length ?bs"
    using len by (simp_all add: wire_hdr)
  have d: "drop (4 + hdr_len ?bs) ?bs = concat (map wire ps)"
    using len by (simp add: wire_hdr)
  have t: "take (hdr_len ?bs) (drop 4 ?bs) = ser" "hdr_type ?bs = t"
    unfolding hdr by simp_all
  have "deframe ?bs = ((t, ser) # fst (deframe (concat (map wire ps))),
      snd (deframe (concat (map wire ps))))"
    using deframe_one [OF l] unfolding d t by simp
  then show ?case using Cons p by simp
qed

end
