(* ===== verification/TcpSocket.thy ===== *)
theory TcpSocket imports CPacket begin

text \<open>
  The socket object and the completion dispatch of \<open>src/iocpLib\<close>. A call of the operating system
  is a value of \<open>os_call\<close>: an operation returns the new socket state and the calls it made, in
  order. What the system answers is a parameter (\<open>io_result\<close>).
\<close>

subsection \<open>Sockets\<close>

datatype ACT_TYPE = ACT_SEND | ACT_RECV | ACT_ACCEPT | ACT_DISCONNECT | ACT_CONNECT

datatype Actor = Acceptor | Receiver | Sender | Disconnector | Connector

text \<open>
  The system calls the sockets make. \<open>WSARecv off len\<close> asks for at most \<open>len\<close> bytes at offset
  \<open>off\<close> of the socket's \<open>recvBuf\<close>; \<open>TransmitFile\<close> is called with
  \<open>TF_DISCONNECT | TF_REUSE_SOCKET\<close>, which disconnects the socket.
\<close>

datatype os_call =
    WSARecv int nat int
  | WSASend int "byte list"
  | AcceptEx int
  | TransmitFile int

datatype io_result = IoDone | IoPending | IoFailed int

text \<open>
  \<open>wsaRecvBuf\<close> holds the offset into \<open>recvBuf\<close> and the length of the last receive window;
  \<open>wsaSendBuf\<close> the bytes last handed to the system. The pointers set by \<open>InitAct\<close> become the
  table from the act types to the actors (a \<open>NULL\<close> actor is \<open>None\<close>). The trailing underscore of
  the source's field names (\<open>socket_\<close>, \<open>recvBuf_\<close>) is dropped.
\<close>

record TcpSocket =
  socket :: int
  disconnectCall :: bool
  acceptBuf :: "byte list"
  recvBuf :: "byte list"
  sendBuf :: "byte list"
  wsaRecvBuf :: "nat \<times> int"
  wsaSendBuf :: "byte list"
  act :: "ACT_TYPE \<Rightarrow> Actor option"

definition INVALID_SOCKET :: int where "INVALID_SOCKET = -1"

definition InitBuf :: "'a TcpSocket_scheme \<Rightarrow> 'a TcpSocket_scheme" where
  "InitBuf s = s\<lparr>wsaRecvBuf := (0, int BUFSIZE), wsaSendBuf := replicate BUFSIZE 0,
     recvBuf := replicate BUFSIZE 0, sendBuf := replicate BUFSIZE 0,
     acceptBuf := replicate BUFSIZE 0\<rparr>"

text \<open>\<open>Init\<close> stores the handle that \<open>WSASocket\<close> returned, also when it is \<open>INVALID_SOCKET\<close>.\<close>

definition Init :: "int \<Rightarrow> 'a TcpSocket_scheme \<Rightarrow> 'a TcpSocket_scheme" where
  "Init handle s = InitBuf (s\<lparr>socket := handle, disconnectCall := False\<rparr>)"

definition InitAct ::
  "Actor option \<Rightarrow> Actor option \<Rightarrow> Actor option \<Rightarrow> Actor option \<Rightarrow> Actor option \<Rightarrow>
   'a TcpSocket_scheme \<Rightarrow> 'a TcpSocket_scheme" where
  "InitAct acceptor disconnector connector sender receiver s =
     s\<lparr>act := (\<lambda>t. case t of
         ACT_ACCEPT \<Rightarrow> acceptor | ACT_RECV \<Rightarrow> receiver | ACT_SEND \<Rightarrow> sender
       | ACT_DISCONNECT \<Rightarrow> disconnector | ACT_CONNECT \<Rightarrow> connector)\<rparr>"

text \<open>Whether \<open>WSARecv\<close> or \<open>WSASend\<close> counts as started: done, or pending.\<close>

definition io_started :: "io_result \<Rightarrow> bool" where
  "io_started r \<longleftrightarrow> r = IoDone \<or> r = IoPending"

text \<open>
  \<open>Recv\<close> and \<open>Send\<close> return the new state, the calls and the answer as a function of the
  system's result.
\<close>

definition Recv ::
  "nat \<Rightarrow> int \<Rightarrow> 'a TcpSocket_scheme \<Rightarrow> 'a TcpSocket_scheme \<times> os_call list \<times> (io_result \<Rightarrow> bool)" where
  "Recv buf buflen s =
     (s\<lparr>wsaRecvBuf := (buf, buflen)\<rparr>, [WSARecv (socket s) buf buflen], io_started)"

definition Send ::
  "byte list \<Rightarrow> 'a TcpSocket_scheme \<Rightarrow> 'a TcpSocket_scheme \<times> os_call list \<times> (io_result \<Rightarrow> bool)" where
  "Send buf s =
     (if buf = [] then (s, [], \<lambda>_. True)
      else (s\<lparr>wsaSendBuf := buf\<rparr>, [WSASend (socket s) buf], io_started))"

text \<open>\<open>Register\<close> of the acceptor posts one \<open>AcceptEx\<close>; \<open>Reuse\<close> would post it again.\<close>

definition Acceptor_Register :: "'a TcpSocket_scheme \<Rightarrow> os_call list" where
  "Acceptor_Register s = [AcceptEx (socket s)]"

definition Reuse :: "'a TcpSocket_scheme \<Rightarrow> 'a TcpSocket_scheme \<times> os_call list" where
  "Reuse s = (s\<lparr>disconnectCall := False\<rparr>, Acceptor_Register s)"

definition Disconnect :: "'a TcpSocket_scheme \<Rightarrow> 'a TcpSocket_scheme \<times> os_call list" where
  "Disconnect s =
     (if disconnectCall s then (s, [])
      else (s\<lparr>disconnectCall := True\<rparr>, [TransmitFile (socket s)]))"

subsection \<open>Completions\<close>

text \<open>
  What an actor does with a completion: the acceptor and the connector first register the handle
  with the completion port, the disconnector clears the latch when the disconnect failed, and each
  then calls one virtual \<open>...Process\<close> method of the socket with the error flag and the number
  (the bytes transferred, or the error code).
\<close>

datatype process = RecvProcess | SendProcess | AcceptProcess | DisconnProcess | ConnProcess

datatype actor_effect =
    RegisterHandle
  | ClearDisconnectCall
  | CallProcess process bool nat

definition Acceptor_ProcEvent :: "nat \<Rightarrow> actor_effect list" where
  "Acceptor_ProcEvent n = [RegisterHandle, CallProcess AcceptProcess False n]"

definition Acceptor_ProcError :: "nat \<Rightarrow> actor_effect list" where
  "Acceptor_ProcError e = [CallProcess AcceptProcess True e]"

definition Connector_ProcEvent :: "nat \<Rightarrow> actor_effect list" where
  "Connector_ProcEvent n = [RegisterHandle, CallProcess ConnProcess False n]"

definition Connector_ProcError :: "nat \<Rightarrow> actor_effect list" where
  "Connector_ProcError e = [CallProcess ConnProcess True e]"

definition Disconnector_ProcEvent :: "nat \<Rightarrow> actor_effect list" where
  "Disconnector_ProcEvent n = [CallProcess DisconnProcess False n]"

definition Disconnector_ProcError :: "nat \<Rightarrow> actor_effect list" where
  "Disconnector_ProcError e = [ClearDisconnectCall, CallProcess DisconnProcess True e]"

definition Receiver_ProcEvent :: "nat \<Rightarrow> actor_effect list" where
  "Receiver_ProcEvent n = [CallProcess RecvProcess False n]"

definition Receiver_ProcError :: "nat \<Rightarrow> actor_effect list" where
  "Receiver_ProcError e = [CallProcess RecvProcess True e]"

definition Sender_ProcEvent :: "nat \<Rightarrow> actor_effect list" where
  "Sender_ProcEvent n = [CallProcess SendProcess False n]"

definition Sender_ProcError :: "nat \<Rightarrow> actor_effect list" where
  "Sender_ProcError e = [CallProcess SendProcess True e]"

text \<open>\<open>Complete\<close> and \<open>Error\<close> of a \<open>TcpAct\<close> are the virtual calls of its actor.\<close>

fun TcpAct_Complete :: "Actor \<Rightarrow> nat \<Rightarrow> actor_effect list" where
  "TcpAct_Complete Acceptor n = Acceptor_ProcEvent n"
| "TcpAct_Complete Receiver n = Receiver_ProcEvent n"
| "TcpAct_Complete Sender n = Sender_ProcEvent n"
| "TcpAct_Complete Disconnector n = Disconnector_ProcEvent n"
| "TcpAct_Complete Connector n = Connector_ProcEvent n"

fun TcpAct_Error :: "Actor \<Rightarrow> nat \<Rightarrow> actor_effect list" where
  "TcpAct_Error Acceptor e = Acceptor_ProcError e"
| "TcpAct_Error Receiver e = Receiver_ProcError e"
| "TcpAct_Error Sender e = Sender_ProcError e"
| "TcpAct_Error Disconnector e = Disconnector_ProcError e"
| "TcpAct_Error Connector e = Connector_ProcError e"

text \<open>
  One turn of the loop of \<open>Proactor::ProcEvents\<close>: \<open>GetQueuedCompletionStatus\<close> returned the status,
  the overlapped structure (the act, or \<open>NULL\<close>), the byte count and the error code. The outer
  \<open>None\<close> is the crash on an act whose actor is \<open>NULL\<close>.
\<close>

definition ProcEvents_turn ::
  "bool \<Rightarrow> Actor option option \<Rightarrow> nat \<Rightarrow> nat \<Rightarrow> actor_effect list option" where
  "ProcEvents_turn status overlapped bytes_transferred error =
     (case overlapped of
        None \<Rightarrow> Some []
      | Some actor \<Rightarrow>
         map_option (\<lambda>a. if status then TcpAct_Complete a bytes_transferred else TcpAct_Error a error)
           actor)"

text \<open>The effect on the socket of what precedes the virtual call.\<close>

fun apply_effect :: "actor_effect \<Rightarrow> 'a TcpSocket_scheme \<Rightarrow> 'a TcpSocket_scheme" where
  "apply_effect ClearDisconnectCall s = s\<lparr>disconnectCall := False\<rparr>"
| "apply_effect RegisterHandle s = s"
| "apply_effect (CallProcess _ _ _) s = s"

subsection \<open>Facts\<close>

text \<open>The method that a completion of each kind of act has to reach.\<close>

fun process_of :: "ACT_TYPE \<Rightarrow> process" where
  "process_of ACT_SEND = SendProcess"
| "process_of ACT_RECV = RecvProcess"
| "process_of ACT_ACCEPT = AcceptProcess"
| "process_of ACT_DISCONNECT = DisconnProcess"
| "process_of ACT_CONNECT = ConnProcess"

lemmas actor_defs [step_simps] =
  Acceptor_ProcEvent_def Acceptor_ProcError_def Connector_ProcEvent_def Connector_ProcError_def
  Disconnector_ProcEvent_def Disconnector_ProcError_def Receiver_ProcEvent_def
  Receiver_ProcError_def Sender_ProcEvent_def Sender_ProcError_def

lemma disconnect_latched [step_simps]:
  "disconnectCall (fst (Disconnect s))"
  "snd (Disconnect s) = (if disconnectCall s then [] else [TransmitFile (socket s)])"
  "socket (fst (Disconnect s)) = socket s"
  by (simp_all add: Disconnect_def)

end
