(* ===== verification/MemPooler.thy ===== *)
theory MemPooler imports PSM_Prelude begin

text \<open>
  The fixed-size block pool of \<open>src/iocpLib/MemPooler.h\<close>: a list of free blocks and a count
  of the blocks handed out. Every operation runs under the pool's critical section, so each is
  one atomic function here. The locale \<open>block_pool\<close> states what a client of the pool relies
  on; the client's lemmas about the blocks it holds are proved in it.
\<close>

subsection \<open>The pool\<close>

text \<open>
  \<open>m_nListBlockSize\<close> is the size of the block type in bytes: it is set by the constructor and
  never read, so the record leaves it out.
\<close>

record 'a mem_pooler =
  m_nNumofBlock :: int
  m_nAllocCount :: int
  m_freeVector :: "'a list"

text \<open>
  The constructor asserts a positive size (\<open>None\<close> is the failed assertion) and \<open>Create\<close> pushes
  \<open>nNumOfBlock\<close> freshly allocated blocks; \<open>new i\<close> is the address of the \<open>i\<close>-th of them.
\<close>

definition Create :: "(nat \<Rightarrow> 'a) \<Rightarrow> 'a mem_pooler \<Rightarrow> 'a mem_pooler" where
  "Create new p = p\<lparr>m_freeVector := m_freeVector p @ map new [0..<nat (m_nNumofBlock p)]\<rparr>"

definition MemPooler :: "(nat \<Rightarrow> 'a) \<Rightarrow> int \<Rightarrow> 'a mem_pooler option" where
  "MemPooler new nNumOfBlock =
     (if 0 < nNumOfBlock
      then Some (Create new \<lparr>m_nNumofBlock = nNumOfBlock, m_nAllocCount = 0, m_freeVector = []\<rparr>)
      else None)"

text \<open>\<open>Alloc\<close> hands out the front free block, or \<open>NULL\<close> (\<open>None\<close>) when there is none.\<close>

definition Alloc :: "'a mem_pooler \<Rightarrow> 'a option \<times> 'a mem_pooler" where
  "Alloc p =
     (case m_freeVector p of
        [] \<Rightarrow> (None, p)
      | b # bs \<Rightarrow> (Some b, p\<lparr>m_nAllocCount := m_nAllocCount p + 1, m_freeVector := bs\<rparr>))"

text \<open>
  \<open>Free\<close> puts the block at the back if any block is out. It does not look whether this block
  is out, or whether it belongs to this pool.
\<close>

definition Free :: "'a \<Rightarrow> 'a mem_pooler \<Rightarrow> bool \<times> 'a mem_pooler" where
  "Free freeBlock p =
     (if 0 < m_nAllocCount p
      then (True, p\<lparr>m_freeVector := m_freeVector p @ [freeBlock],
                    m_nAllocCount := m_nAllocCount p - 1\<rparr>)
      else (False, p))"

definition GetCount :: "'a mem_pooler \<Rightarrow> int" where
  "GetCount p = m_nAllocCount p"

subsection \<open>The interface of a pool\<close>

text \<open>
  \<open>owns av n U held\<close>: of the blocks \<open>U\<close>, the client holds exactly \<open>held\<close>, the others are the
  free ones \<open>av\<close>, none is in two places, and the counter \<open>n\<close> counts the held ones.
\<close>

definition owns :: "'b list \<Rightarrow> int \<Rightarrow> 'b set \<Rightarrow> 'b list \<Rightarrow> bool" where
  "owns av n U held \<longleftrightarrow>
     distinct (av @ held) \<and> set (av @ held) = U \<and> n = int (length held)"

lemma owns_held_distinct: "owns av n U held \<Longrightarrow> distinct held"
  by (simp add: owns_def)

lemma owns_held_subset: "owns av n U held \<Longrightarrow> set held \<subseteq> U"
  by (auto simp: owns_def)

lemma owns_card: "owns av n U held \<Longrightarrow> card U = length av + length held"
  unfolding owns_def by (metis distinct_card length_append)

locale block_pool =
  fixes alloc :: "'p \<Rightarrow> 'b option \<times> 'p"
    and release :: "'b \<Rightarrow> 'p \<Rightarrow> bool \<times> 'p"
    and avail :: "'p \<Rightarrow> 'b list"
    and taken :: "'p \<Rightarrow> int"
  assumes alloc_empty: "avail p = [] \<Longrightarrow> alloc p = (None, p)"
    and alloc_front: "avail p = b # bs \<Longrightarrow>
          \<exists>p'. alloc p = (Some b, p') \<and> avail p' = bs \<and> taken p' = taken p + 1"
    and release_back: "0 < taken p \<Longrightarrow>
          \<exists>p'. release b p = (True, p') \<and> avail p' = avail p @ [b] \<and> taken p' = taken p - 1"
    and release_refused: "taken p \<le> 0 \<Longrightarrow> release b p = (False, p)"
begin

lemma alloc_owns:
  assumes "owns (avail p) (taken p) U held" and "alloc p = (Some b, p')"
  shows "owns (avail p') (taken p') U (held @ [b])" and "b \<notin> set held" and "b \<in> U"
proof -
  obtain bs where bs: "avail p = b # bs" and av: "avail p' = bs" and tk: "taken p' = taken p + 1"
    using assms(2) alloc_empty [of p] alloc_front [of p] by (cases "avail p") fastforce+
  show "owns (avail p') (taken p') U (held @ [b])"
    using assms(1) bs av tk by (auto simp: owns_def)
  show "b \<notin> set held" and "b \<in> U" using assms(1) bs by (auto simp: owns_def)
qed

lemma alloc_null_iff:
  assumes "owns (avail p) (taken p) U held"
  shows "fst (alloc p) = None \<longleftrightarrow> length held = card U"
proof (cases "avail p")
  case Nil
  then show ?thesis using owns_card [OF assms] alloc_empty [of p] by simp
next
  case (Cons b bs)
  then show ?thesis using owns_card [OF assms] alloc_front [of p b bs] by auto
qed

lemma alloc_null_same: "alloc p = (None, p') \<Longrightarrow> p' = p"
  using alloc_empty [of p] alloc_front [of p] by (cases "avail p") fastforce+

lemma release_owns:
  assumes "owns (avail p) (taken p) U held" and "b \<in> set held" and "release b p = (ok, p')"
  shows "ok" and "owns (avail p') (taken p') U (remove1 b held)"
proof -
  from assms(1,2) have pos: "0 < taken p" by (cases held) (auto simp: owns_def)
  then obtain p'' where p'': "release b p = (True, p'')" "avail p'' = avail p @ [b]"
      "taken p'' = taken p - 1"
    using release_back by blast
  with assms(3) show ok by simp
  from assms(2) have "int (length (remove1 b held)) = int (length held) - 1"
    by (cases "length held") (auto simp: length_remove1)
  with assms p'' show "owns (avail p') (taken p') U (remove1 b held)"
    by (auto simp: owns_def set_remove1_eq)
qed

end

interpretation mem_pool: block_pool Alloc Free m_freeVector m_nAllocCount
  by unfold_locales (auto simp: Alloc_def Free_def)

subsection \<open>The pool under a client that frees only what it holds\<close>

text \<open>
  The histories of one pool and the blocks its client holds: the client takes a block, is
  refused one, or gives back a block it holds.
\<close>

inductive pool_reach :: "(nat \<Rightarrow> 'a) \<Rightarrow> int \<Rightarrow> 'a mem_pooler \<Rightarrow> 'a list \<Rightarrow> bool"
  for new :: "nat \<Rightarrow> 'a" and n :: int where
  created: "MemPooler new n = Some p \<Longrightarrow> pool_reach new n p []"
| taken: "pool_reach new n p held \<Longrightarrow> Alloc p = (Some b, p') \<Longrightarrow> pool_reach new n p' (held @ [b])"
| refused: "pool_reach new n p held \<Longrightarrow> Alloc p = (None, p') \<Longrightarrow> pool_reach new n p' held"
| given_back: "pool_reach new n p held \<Longrightarrow> b \<in> set held \<Longrightarrow> Free b p = (ok, p') \<Longrightarrow>
    pool_reach new n p' (remove1 b held)"

lemma MemPooler_owns:
  assumes "inj new" and "MemPooler new n = Some p"
  shows "owns (m_freeVector p) (m_nAllocCount p) (new ` {..<nat n}) []"
  using assms
  by (auto simp: MemPooler_def Create_def owns_def distinct_map inj_on_def atLeast0LessThan
      split: if_splits)

lemma pool_reach_owns:
  assumes "inj new"
  shows "pool_reach new n p held \<Longrightarrow>
    owns (m_freeVector p) (m_nAllocCount p) (new ` {..<nat n}) held"
proof (induction rule: pool_reach.induct)
  case (created p)
  with assms show ?case by (rule MemPooler_owns)
next
  case (taken p held b p')
  then show ?case by (blast intro: mem_pool.alloc_owns)
next
  case (refused p held p')
  then show ?case using mem_pool.alloc_null_same [of p p'] by simp
next
  case (given_back p held b ok p')
  then show ?case by (blast intro: mem_pool.release_owns)
qed

end
