(* ===== verification/RecvFraming.thy ===== *)
theory RecvFraming imports TcpSocket MemPooler begin

text \<open>
  The reassembly of packets from the TCP stream: the \<open>RecvProcess\<close> methods of \<open>AgentSocket\<close>,
  \<open>WebCommandSocket\<close> and \<open>AgentClientSocket\<close>, which share one algorithm. A receive of the header
  is followed by a receive of the payload, each continued while it comes in pieces, and a complete
  packet is copied into a block of the socket's pool and handed to the logic queue.
\<close>

subsection \<open>The receiving state\<close>

text \<open>A pool block is named by the socket that owns the pool and its number in it.\<close>

type_synonym addr = "sid \<times> nat"

text \<open>The memory of the packet blocks.\<close>

type_synonym heap = "addr \<Rightarrow> CPacket"

record packet_socket = TcpSocket +
  position :: int
  remainBytes :: int
  packetPoolManager :: "addr mem_pooler"

text \<open>
  The undefined behaviour that \<open>RecvProcess\<close> can run into: a copy to the \<open>NULL\<close> that an exhausted
  pool returned, a copy of a negative size, a copy beyond the receive buffer.
\<close>

datatype fault = NullPacket | NegativeLength | CopyBeyondBuffer

datatype recv_result =
    RecvDone packet_socket heap "addr option" "os_call list"
  | RecvFault fault

text \<open>
  \<open>memcpy(&remainBytes, buf, LENGTH_SIZE)\<close> replaces the low two bytes of the \<open>int\<close>. The code does
  it only where \<open>remainBytes\<close> is 0, so the value is the length field read as unsigned.
\<close>

definition load_remain :: "byte list \<Rightarrow> int \<Rightarrow> int" where
  "load_remain buf remain = remain - remain mod 65536 + int (hdr_len buf)"

definition arm :: "heap \<Rightarrow> addr option \<Rightarrow> packet_socket \<Rightarrow> recv_result" where
  "arm h enq s =
     (let (s', calls, _) = Recv (nat (position s)) (remainBytes s) s in RecvDone s' h enq calls)"

definition recv_packet :: "(CPacket \<Rightarrow> CPacket) \<Rightarrow> heap \<Rightarrow> packet_socket \<Rightarrow> recv_result" where
  "recv_packet stamp h s =
     (let buf = recvBuf s; len = sint (hdr_word buf);
          s = s\<lparr>position := 0, remainBytes := int HEADER_SIZE\<rparr>
      in case Alloc (packetPoolManager s) of
           (None, _) \<Rightarrow> RecvFault NullPacket
         | (Some msg, pool) \<Rightarrow>
             if int HEADER_SIZE + len < 0 then RecvFault NegativeLength
             else if BUFSIZE < HEADER_SIZE + nat len then RecvFault CopyBeyondBuffer
             else arm (h(msg := stamp (memcpy_packet buf (nat len) (h msg)))) (Some msg)
                    (s\<lparr>packetPoolManager := pool\<rparr>))"

text \<open>
  The body that the three methods share; \<open>stamp\<close> writes the owner fields of the packet. The last
  component of the result is the packet given to \<open>EnqueueOper\<close>.
\<close>

definition recv_process ::
  "(CPacket \<Rightarrow> CPacket) \<Rightarrow> bool \<Rightarrow> nat \<Rightarrow> heap \<Rightarrow> packet_socket \<Rightarrow> recv_result" where
  "recv_process stamp isError bytes_transferred h s =
     (if isError \<or> bytes_transferred = 0
      then (let (s', calls) = Disconnect s in RecvDone s' h None calls)
      else
        let s = s\<lparr>position := position s + int bytes_transferred,
                  remainBytes := remainBytes s - int bytes_transferred\<rparr>
        in if socket s = 0 then RecvDone s h None []
           else if position s < int HEADER_SIZE
           then arm h None (if position s = 0 then s\<lparr>remainBytes := int HEADER_SIZE\<rparr> else s)
           else
             let s = (if position s = int HEADER_SIZE \<and> remainBytes s = 0
                      then s\<lparr>remainBytes := load_remain (recvBuf s) (remainBytes s)\<rparr> else s)
             in if remainBytes s = 0 then recv_packet stamp h s else arm h None s)"

definition AgentSocket_RecvProcess ::
  "sid \<Rightarrow> bool \<Rightarrow> nat \<Rightarrow> heap \<Rightarrow> packet_socket \<Rightarrow> recv_result" where
  "AgentSocket_RecvProcess this =
     recv_process (\<lambda>p. p\<lparr>pownert := AGENT, powner := this\<rparr>)"

definition WebCommandSocket_RecvProcess ::
  "sid \<Rightarrow> bool \<Rightarrow> nat \<Rightarrow> heap \<Rightarrow> packet_socket \<Rightarrow> recv_result" where
  "WebCommandSocket_RecvProcess this =
     recv_process (\<lambda>p. p\<lparr>pownert := WEBCOMMAND, powner := this\<rparr>)"

text \<open>The client's packet has no \<open>ownert\<close> field: its method leaves it alone.\<close>

definition AgentClientSocket_RecvProcess ::
  "sid \<Rightarrow> bool \<Rightarrow> nat \<Rightarrow> heap \<Rightarrow> packet_socket \<Rightarrow> recv_result" where
  "AgentClientSocket_RecvProcess this = recv_process (\<lambda>p. p\<lparr>powner := this\<rparr>)"

text \<open>Where a method starts from: the state that \<open>AcceptProcess\<close> and \<open>ConnProcess\<close> leave.\<close>

definition start_receive :: "packet_socket \<Rightarrow> packet_socket \<times> os_call list" where
  "start_receive s =
     (let s = s\<lparr>position := 0, remainBytes := int HEADER_SIZE\<rparr>;
          (s', calls, _) = Recv 0 (int HEADER_SIZE) s in (s', calls))"

subsection \<open>The system's side of a receive\<close>

text \<open>
  A completed \<open>WSARecv\<close> has put the bytes \<open>d\<close> at the offset of the window, at most as many as the
  window is long.
\<close>

definition os_write :: "byte list \<Rightarrow> packet_socket \<Rightarrow> packet_socket" where
  "os_write d s =
     s\<lparr>recvBuf := take (fst (wsaRecvBuf s)) (recvBuf s) @ d
                    @ drop (fst (wsaRecvBuf s) + length d) (recvBuf s)\<rparr>"

definition os_fills :: "byte list \<Rightarrow> packet_socket \<Rightarrow> bool" where
  "os_fills d s \<longleftrightarrow> d \<noteq> [] \<and> int (length d) \<le> snd (wsaRecvBuf s)"

text \<open>The receive window lies inside \<open>recvBuf\<close>.\<close>

definition window_ok :: "packet_socket \<Rightarrow> bool" where
  "window_ok s \<longleftrightarrow> 0 \<le> snd (wsaRecvBuf s) \<and> int (fst (wsaRecvBuf s)) + snd (wsaRecvBuf s) \<le> int BUFSIZE"

subsection \<open>The invariant\<close>

text \<open>The packets that fit: \<open>recvBuf\<close> holds the header and at most 8188 payload bytes.\<close>

definition MAX_PAYLOAD :: nat where "MAX_PAYLOAD = BUFSIZE - HEADER_SIZE"

definition fits :: "byte list \<Rightarrow> bool" where
  "fits bs \<longleftrightarrow> (4 \<le> length bs \<longrightarrow> hdr_len bs \<le> MAX_PAYLOAD)"

text \<open>How many bytes a partial packet still needs: of its header, or of its payload.\<close>

definition missing :: "byte list \<Rightarrow> nat" where
  "missing pend =
     (if length pend < 4 then 4 - length pend else 4 + hdr_len pend - length pend)"

text \<open>
  \<open>receiving pend s\<close>: the socket has the partial packet \<open>pend\<close> in its buffer and has asked the
  system for the bytes it is missing, at the offset behind it.
\<close>

definition receiving :: "byte list \<Rightarrow> packet_socket \<Rightarrow> bool" where
  "receiving pend s \<longleftrightarrow>
     length (recvBuf s) = BUFSIZE \<and> socket s \<noteq> 0 \<and>
     take (length pend) (recvBuf s) = pend \<and> length pend \<le> BUFSIZE \<and>
     deframe pend = ([], pend) \<and> fits pend \<and>
     position s = int (length pend) \<and> remainBytes s = int (missing pend) \<and>
     wsaRecvBuf s = (length pend, int (missing pend))"

lemma missing_pos: "deframe pend = ([], pend) \<Longrightarrow> 0 < missing pend"
  using deframe_one [of pend] by (fastforce simp: missing_def)

lemma receiving_window: "receiving pend s \<Longrightarrow> window_ok s"
  by (auto simp: receiving_def window_ok_def missing_def fits_def MAX_PAYLOAD_def HEADER_SIZE_def)

lemma start_receive_receiving:
  assumes "length (recvBuf s) = BUFSIZE" and "socket s \<noteq> 0"
  shows "receiving [] (fst (start_receive s))"
  using assms
  by (simp add: start_receive_def Recv_def receiving_def deframe_incomplete fits_def missing_def
      HEADER_SIZE_def)

subsection \<open>One completed receive\<close>

text \<open>
  Bytes that at most fill the window leave a partial packet, or complete exactly one packet.
\<close>

lemma fill_cases:
  assumes "deframe pend = ([], pend)" and "d \<noteq> []" and "length d \<le> missing pend"
  obtains (part) "deframe (pend @ d) = ([], pend @ d)"
      and "missing pend - length d = missing (pend @ d) \<or>
           (length (pend @ d) = 4 \<and> length d = missing pend)"
  | (packet) "4 \<le> length (pend @ d)" and "length (pend @ d) = 4 + hdr_len (pend @ d)"
      and "length d = missing pend"
      and "deframe (pend @ d) = ([(hdr_type (pend @ d), drop 4 (pend @ d))], [])"
proof -
  let ?bs = "pend @ d"
  have one: "deframe ?bs = ([(hdr_type ?bs, drop 4 ?bs)], [])"
    if "4 \<le> length ?bs" and "length ?bs = 4 + hdr_len ?bs"
    using deframe_one [of ?bs] that by (simp add: deframe_incomplete)
  consider "length ?bs < 4" | "length pend < 4" "length ?bs = 4" | "4 \<le> length pend"
    using assms(3) by (fastforce simp: missing_def)
  then show thesis
  proof cases
    case 1
    then show ?thesis by (intro part) (auto simp: deframe_incomplete missing_def)
  next
    case 2
    then have full: "length d = missing pend" by (simp add: missing_def)
    show ?thesis
    proof (cases "hdr_len ?bs = 0")
      case True
      with 2 full one show ?thesis by (intro packet) simp_all
    next
      case False
      with 2 full show ?thesis by (intro part) (auto simp: deframe_incomplete)
    qed
  next
    case 3
    then have h: "hdr_len ?bs = hdr_len pend" by (simp add: hdr_append)
    then have le: "length ?bs \<le> 4 + hdr_len ?bs"
      using assms(1,3) 3 deframe_one [of pend] by (fastforce simp: missing_def)
    show ?thesis
    proof (cases "length ?bs = 4 + hdr_len ?bs")
      case True
      have "length d = missing pend" using True 3 h by (simp add: missing_def)
      with True 3 one show ?thesis by (intro packet) simp_all
    next
      case False
      with le 3 h show ?thesis by (intro part) (auto simp: deframe_incomplete missing_def)
    qed
  qed
qed

text \<open>The receive buffer after the system has filled the window.\<close>

lemma os_write_buffer:
  assumes "receiving pend s" and "os_fills d s"
  shows "length (recvBuf (os_write d s)) = BUFSIZE"
    and "take (length (pend @ d)) (recvBuf (os_write d s)) = pend @ d"
    and "length (pend @ d) \<le> BUFSIZE"
proof -
  from assms have le: "length pend + length d \<le> BUFSIZE"
    using receiving_window [OF assms(1)]
    by (auto simp: receiving_def os_fills_def window_ok_def)
  from assms(1) have b: "length (recvBuf s) = BUFSIZE" "take (length pend) (recvBuf s) = pend"
    and w: "wsaRecvBuf s = (length pend, int (missing pend))"
    by (simp_all add: receiving_def)
  show "length (recvBuf (os_write d s)) = BUFSIZE"
    and "take (length (pend @ d)) (recvBuf (os_write d s)) = pend @ d"
    using b w le by (simp_all add: os_write_def)
  show "length (pend @ d) \<le> BUFSIZE" using le by simp
qed

lemma hdr_of_prefix:
  assumes "take n buf = bs" and "4 \<le> n" and "n \<le> length buf"
  shows "hdr_word buf = hdr_word bs" "hdr_type buf = hdr_type bs" "hdr_len buf = hdr_len bs"
  using assms hdr_take [of n buf] by auto

lemma arm_receiving:
  assumes "length (recvBuf s) = BUFSIZE" and "socket s \<noteq> 0"
    and "take (length bs) (recvBuf s) = bs" and "length bs \<le> BUFSIZE"
    and "deframe bs = ([], bs)" and "fits bs"
    and "position s = int (length bs)" and "remainBytes s = int (missing bs)"
  shows "\<exists>s' calls. arm h enq s = RecvDone s' h enq calls \<and> receiving bs s' \<and>
           packetPoolManager s' = packetPoolManager s"
  using assms by (simp add: arm_def Recv_def receiving_def)

lemma recv_packet_done:
  assumes "length (recvBuf s) = BUFSIZE" and "socket s \<noteq> 0"
    and "take (length bs) (recvBuf s) = bs" and "4 \<le> length bs"
    and "length bs = 4 + hdr_len bs" and "fits bs"
    and "Alloc (packetPoolManager s) = (Some b, pool)"
  shows "\<exists>s' calls. recv_packet stamp h s =
      RecvDone s' (h(b := stamp (memcpy_packet (recvBuf s) (hdr_len bs) (h b)))) (Some b) calls
      \<and> receiving [] s' \<and> packetPoolManager s' = pool"
proof -
  have le: "length bs \<le> BUFSIZE" using assms(4-6) by (simp add: fits_def MAX_PAYLOAD_def HEADER_SIZE_def)
  have w: "hdr_word (recvBuf s) = hdr_word bs"
    using hdr_of_prefix(1) [OF assms(3,4)] assms(1) le by simp
  have "hdr_len bs \<le> 8188"
    using assms(4,6) by (simp add: fits_def MAX_PAYLOAD_def HEADER_SIZE_def)
  then have n: "sint (hdr_word bs) = int (hdr_len bs)"
    by (simp add: sint16_unat hdr_len_def)
  have "recv_packet stamp h s =
      arm (h(b := stamp (memcpy_packet (recvBuf s) (hdr_len bs) (h b)))) (Some b)
        (s\<lparr>position := 0, remainBytes := int HEADER_SIZE, packetPoolManager := pool\<rparr>)"
    using assms(7) \<open>hdr_len bs \<le> 8188\<close>
    by (simp add: recv_packet_def Let_def w n HEADER_SIZE_def)
  then show ?thesis
    using assms(1,2)
    by (simp add: arm_def Recv_def receiving_def deframe_incomplete fits_def missing_def
        HEADER_SIZE_def)
qed

text \<open>The state in which \<open>RecvProcess\<close> decides, once the counters are updated.\<close>

lemma recv_process_cases:
  assumes "receiving pend s" and "os_fills d s"
  defines "s1 \<equiv> (os_write d s)\<lparr>position := int (length (pend @ d)),
                  remainBytes := int (missing pend - length d)\<rparr>"
  shows "recv_process stamp False (length d) h (os_write d s) =
     (if length (pend @ d) < 4 then arm h None s1
      else if length d = missing pend \<and> (length (pend @ d) = 4 \<longrightarrow> hdr_len (pend @ d) = 0)
      then recv_packet stamp h (s1\<lparr>remainBytes := 0\<rparr>)
      else if length d = missing pend
      then arm h None (s1\<lparr>remainBytes := int (hdr_len (pend @ d))\<rparr>)
      else arm h None s1)"
proof -
  note buf = os_write_buffer [OF assms(1,2)]
  have d: "d \<noteq> []" "length d \<le> missing pend"
    using assms(1,2) by (auto simp: os_fills_def receiving_def)
  have pos: "position (os_write d s) = int (length pend)"
    and rem: "remainBytes (os_write d s) = int (missing pend)"
    and sock: "socket (os_write d s) \<noteq> 0"
    using assms(1) by (auto simp: os_write_def receiving_def)
  have s1: "(os_write d s)\<lparr>position := position (os_write d s) + int (length d),
              remainBytes := remainBytes (os_write d s) - int (length d)\<rparr> = s1"
    using d(2) by (simp add: s1_def pos rem of_nat_diff)
  have hl: "hdr_len (recvBuf (os_write d s)) = hdr_len (pend @ d)" if "4 \<le> length (pend @ d)"
    using hdr_of_prefix(3) [OF buf(2) that] buf(1,3) by simp
  have r0: "remainBytes s1 = 0 \<longleftrightarrow> length d = missing pend"
    using d(2) by (auto simp: s1_def)
  have hdr4: "length d = missing pend" if "length (pend @ d) = 4" "\<not> 4 \<le> length pend"
    using that d by (auto simp: missing_def)
  have s1f: "socket s1 \<noteq> 0" "position s1 = int (length (pend @ d))"
      "recvBuf s1 = recvBuf (os_write d s)"
    using sock by (simp_all add: s1_def)
  have load: "load_remain (recvBuf s1) 0 = int (hdr_len (pend @ d))" if "4 \<le> length (pend @ d)"
    using hl [OF that] by (simp add: load_remain_def s1f)
  have "recv_process stamp False (length d) h (os_write d s) =
     (if length (pend @ d) < 4 then arm h None s1
      else let s2 = (if length (pend @ d) = 4 \<and> remainBytes s1 = 0
                     then s1\<lparr>remainBytes := load_remain (recvBuf s1) (remainBytes s1)\<rparr> else s1)
           in if remainBytes s2 = 0 then recv_packet stamp h s2 else arm h None s2)"
    unfolding recv_process_def Let_def s1 using d(1) s1f
    by (simp add: HEADER_SIZE_def del: length_append)
  also have "\<dots> = (if length (pend @ d) < 4 then arm h None s1
      else if length d = missing pend \<and> (length (pend @ d) = 4 \<longrightarrow> hdr_len (pend @ d) = 0)
      then recv_packet stamp h (s1\<lparr>remainBytes := 0\<rparr>)
      else if length d = missing pend
      then arm h None (s1\<lparr>remainBytes := int (hdr_len (pend @ d))\<rparr>)
      else arm h None s1)"
    using r0 load by (auto simp: Let_def s1_def simp del: length_append)
  finally show ?thesis .
qed

text \<open>The packet that a copied and stamped block holds.\<close>

lemma packet_copied:
  assumes "take (length bs) buf = bs" and "length bs = 4 + hdr_len bs"
    and "fits bs" and "length bs \<le> length buf"
  shows "ptype (memcpy_packet buf (hdr_len bs) p) = hdr_type bs"
    and "payload (memcpy_packet buf (hdr_len bs) p) = drop 4 bs"
proof -
  have l: "4 \<le> length bs" using assms(2) by simp
  note h = hdr_of_prefix [OF assms(1) l assms(4)]
  show "ptype (memcpy_packet buf (hdr_len bs) p) = hdr_type bs"
    by (simp add: memcpy_packet_def h)
  have "hdr_len bs \<le> 8188" using assms(3) l by (simp add: fits_def MAX_PAYLOAD_def HEADER_SIZE_def)
  then have n: "sint (hdr_word bs) = int (hdr_len bs)" by (simp add: sint16_unat hdr_len_def)
  have "take (hdr_len bs) (drop 4 buf) = drop 4 (take (length bs) buf)"
    using assms(2) by (simp add: drop_take)
  also have "\<dots> = drop 4 bs" using assms(1) by simp
  finally show "payload (memcpy_packet buf (hdr_len bs) p) = drop 4 bs"
    using assms(2,4) by (simp add: payload_def memcpy_packet_def h n HEADER_SIZE_def)
qed

text \<open>Bytes that complete no packet: the socket goes on receiving the longer partial packet.\<close>

lemma recv_part:
  assumes "receiving pend s" and "os_fills d s" and "fits (pend @ d)"
    and "fst (deframe (pend @ d)) = []"
  shows "\<exists>s' calls. recv_process stamp False (length d) h (os_write d s) = RecvDone s' h None calls \<and>
           receiving (pend @ d) s' \<and> packetPoolManager s' = packetPoolManager s"
proof -
  have d: "deframe pend = ([], pend)" "d \<noteq> []" "length d \<le> missing pend" "socket s \<noteq> 0"
    using assms(1,2) by (auto simp: os_fills_def receiving_def)
  note buf = os_write_buffer [OF assms(1,2)]
  let ?bs = "pend @ d"
  have df: "deframe ?bs = ([], ?bs)"
    using d(1-3) by (rule fill_cases) (use assms(4) in simp_all)
  have inc: "\<not> (4 \<le> length ?bs \<and> 4 + hdr_len ?bs \<le> length ?bs)"
    using df deframe_one [of ?bs] by auto
  have miss: "length d = missing pend \<and> length ?bs = 4 \<or> missing ?bs = missing pend - length d"
    using d(1-3) by (rule fill_cases) (use df in auto)
  have full4: "length ?bs = 4" if "length d = missing pend" "\<not> length ?bs < 4"
    using that inc by (auto simp: missing_def hdr_append split: if_splits)
  let ?s1 = "(os_write d s)\<lparr>position := int (length ?bs), remainBytes := int (missing ?bs)\<rparr>"
  have "recv_process stamp False (length d) h (os_write d s) = arm h None ?s1"
  proof -
    consider "length ?bs < 4" | "\<not> length ?bs < 4" "length d = missing pend"
      | "\<not> length ?bs < 4" "length d \<noteq> missing pend" by blast
    then show ?thesis
    proof cases
      case 1
      then have "missing pend - length d = missing ?bs" by (simp add: missing_def)
      with 1 show ?thesis unfolding recv_process_cases [OF assms(1,2)] by (simp only: if_True)
    next
      case 2
      then have "length ?bs = 4" by (rule full4 [rotated])
      with inc have "hdr_len ?bs \<noteq> 0" "hdr_len ?bs = missing ?bs" by (auto simp: missing_def)
      with 2 \<open>length ?bs = 4\<close> show ?thesis
        unfolding recv_process_cases [OF assms(1,2)]
        by (simp only: if_True if_False simp_thms) simp
    next
      case 3
      with miss have "missing pend - length d = missing ?bs" by simp
      with 3 show ?thesis
        unfolding recv_process_cases [OF assms(1,2)] by (simp only: if_False simp_thms)
    qed
  qed
  moreover have "\<exists>s' calls. arm h None ?s1 = RecvDone s' h None calls \<and> receiving ?bs s' \<and>
           packetPoolManager s' = packetPoolManager ?s1"
    using buf df assms(3) d(4) by (intro arm_receiving) (simp_all add: os_write_def)
  ultimately show ?thesis by (simp add: os_write_def)
qed

text \<open>Bytes that complete a packet: with a block, it is queued; without one, the copy faults.\<close>

lemma recv_complete_state:
  assumes "receiving pend s" and "os_fills d s" and "fst (deframe (pend @ d)) \<noteq> []"
  defines "bs \<equiv> pend @ d"
  shows "deframe bs = ([(hdr_type bs, drop 4 bs)], [])" and "length bs = 4 + hdr_len bs"
    and "recv_process stamp False (length d) h (os_write d s) =
      recv_packet stamp h ((os_write d s)\<lparr>position := int (length bs), remainBytes := 0\<rparr>)"
proof -
  have d: "deframe pend = ([], pend)" "d \<noteq> []" "length d \<le> missing pend"
    using assms(1,2) by (auto simp: os_fills_def receiving_def)
  have c: "length bs = 4 + hdr_len bs \<and> length d = missing pend \<and>
      deframe bs = ([(hdr_type bs, drop 4 bs)], [])"
    using d by (rule fill_cases) (use assms(3) in \<open>auto simp: bs_def\<close>)
  then show "deframe bs = ([(hdr_type bs, drop 4 bs)], [])" and "length bs = 4 + hdr_len bs"
    by simp_all
  show "recv_process stamp False (length d) h (os_write d s) =
      recv_packet stamp h ((os_write d s)\<lparr>position := int (length bs), remainBytes := 0\<rparr>)"
    unfolding recv_process_cases [OF assms(1,2)] bs_def [symmetric] using c by simp
qed

lemma recv_complete:
  assumes "receiving pend s" and "os_fills d s" and "fits (pend @ d)"
    and "fst (deframe (pend @ d)) \<noteq> []"
    and "Alloc (packetPoolManager s) = (Some b, pool)"
  shows "\<exists>s' calls p. recv_process stamp False (length d) h (os_write d s) =
           RecvDone s' (h(b := stamp p)) (Some b) calls \<and> receiving [] s' \<and>
           packetPoolManager s' = pool \<and> deframe (pend @ d) = ([(ptype p, payload p)], [])"
proof -
  note c = recv_complete_state [OF assms(1,2,4)]
  note buf = os_write_buffer [OF assms(1,2)]
  let ?bs = "pend @ d"
  let ?s1 = "(os_write d s)\<lparr>position := int (length ?bs), remainBytes := 0\<rparr>"
  let ?p = "memcpy_packet (recvBuf (os_write d s)) (hdr_len ?bs) (h b)"
  obtain s' calls where r: "recv_packet stamp h ?s1 =
      RecvDone s' (h(b := stamp (memcpy_packet (recvBuf ?s1) (hdr_len ?bs) (h b)))) (Some b) calls
      \<and> receiving [] s' \<and> packetPoolManager s' = pool"
    by (rule exE [OF recv_packet_done [of ?s1 ?bs b pool stamp h]])
       (use buf c(2) assms(1,3,5) in \<open>auto simp: os_write_def receiving_def\<close>)
  have p: "(ptype ?p, payload ?p) = (hdr_type ?bs, drop 4 ?bs)"
    using packet_copied [OF buf(2) c(2) assms(3)] buf(1,3) by simp
  show ?thesis
    by (rule exI [of _ s'], rule exI [of _ calls], rule exI [of _ ?p])
       (use r c(1,3) p in simp)
qed

lemma recv_exhausted:
  assumes "receiving pend s" and "os_fills d s" and "fst (deframe (pend @ d)) \<noteq> []"
    and "fst (Alloc (packetPoolManager s)) = None"
  shows "recv_process stamp False (length d) h (os_write d s) = RecvFault NullPacket"
proof -
  obtain pool where "Alloc (packetPoolManager s) = (None, pool)"
    using assms(4) by (cases "Alloc (packetPoolManager s)") simp
  then show ?thesis
    unfolding recv_complete_state(3) [OF assms(1-3)]
    by (simp add: recv_packet_def os_write_def Let_def)
qed

subsection \<open>A concrete socket\<close>

definition blank_socket :: "sid \<Rightarrow> packet_socket" where
  "blank_socket i =
     \<lparr>socket = 1, disconnectCall = False, acceptBuf = replicate BUFSIZE 0,
      recvBuf = replicate BUFSIZE 0, sendBuf = replicate BUFSIZE 0,
      wsaRecvBuf = (0, 0), wsaSendBuf = [], act = (\<lambda>_. None),
      position = 0, remainBytes = 0, packetPoolManager = the (MemPooler (Pair i) 10)\<rparr>"

lemma blank_receiving: "receiving [] (fst (start_receive (blank_socket i)))"
  by (rule start_receive_receiving) (simp_all add: blank_socket_def)

subsection \<open>Properties\<close>

text \<open>
  C36. The length field of a header is used as it comes: the receive window that \<open>RecvProcess\<close> asks
  the system to fill after a header lies inside \<open>recvBuf_\<close> exactly if the announced payload is at
  most \<open>BUFSIZE - HEADER_SIZE\<close> bytes. A peer that announces more makes the system write behind the
  buffer, at offset 4 with up to 65535 bytes.
\<close>

theorem recv_window_bound:
  assumes "receiving pend s" and "os_fills d s" and "length (pend @ d) = 4"
    and "hdr_len (pend @ d) \<noteq> 0"
  shows "\<exists>s' calls. AgentSocket_RecvProcess this False (length d) h (os_write d s) = RecvDone s' h None calls \<and>
           calls = [WSARecv (socket s) 4 (int (hdr_len (pend @ d)))] \<and>
           (window_ok s' \<longleftrightarrow> hdr_len (pend @ d) \<le> BUFSIZE - 4)"
proof -
  have "length pend < 4" using assms(2,3) by (cases d) (auto simp: os_fills_def)
  then have full: "length d = missing pend" using assms(3) by (simp add: missing_def)
  have sock: "socket (os_write d s) = socket s" by (simp add: os_write_def)
  show ?thesis
    unfolding AgentSocket_RecvProcess_def recv_process_cases [OF assms(1,2)]
    using assms(3,4) full by (auto simp: arm_def Recv_def window_ok_def sock simp del: length_append)
qed

theorem recv_window_bound_witness:
  "\<exists>s' calls. AgentSocket_RecvProcess 0 False 4 (\<lambda>_. undefined)
       (os_write [0, 128, 9, 0] (fst (start_receive (blank_socket 0)))) =
       RecvDone s' (\<lambda>_. undefined) None calls \<and> \<not> window_ok s'"
proof -
  let ?d = "[0, 128, 9, 0] :: byte list"
  have len: "hdr_len ?d = 32768" by (simp add: hdr_len_def hdr_word_def un_le16_def)
  have fill: "os_fills ?d (fst (start_receive (blank_socket 0)))"
    using blank_receiving [of 0] by (simp add: os_fills_def receiving_def missing_def)
  have four: "length ?d = 4" by simp
  from recv_window_bound [OF blank_receiving fill, of 0 "\<lambda>_. undefined", unfolded four] len
  show ?thesis by auto
qed

end
