(* ===== verification/LogicHandle.thy ===== *)
theory LogicHandle imports PSM_Prelude begin

text \<open>
  The logic thread of \<open>LogicHandle.cpp\<close> (the server's and the client's are the same but for the
  dispatch on the packet's owner): completion threads push packets into a queue under a lock and
  then set an auto-reset event; one thread waits for the event, takes one packet and handles it.
  The threads interleave, so the component is a step relation. \<open>EnqueueOper\<close> is two steps, since
  \<open>SetEvent\<close> is called after the lock is left.
\<close>

subsection \<open>The state\<close>

text \<open>Where the logic thread stands in the loop of \<open>Process\<close>.\<close>

datatype 'p pc =
    AtLoop
  | AtWait
  | Awake
  | Checked
  | Handling 'p
  | Stopped

text \<open>
  \<open>event\<close> is the auto-reset event; \<open>unset\<close> counts the completion threads that have pushed and not
  yet called \<open>SetEvent\<close>. The last three fields are the history: the packets pushed, the packets
  handled, and the number of \<open>SetEvent\<close> calls that found the event set.
\<close>

record 'p logic =
  operationQueue :: "'p list"
  event :: bool
  isEnd :: bool
  thread :: "'p pc"
  unset :: nat
  pushed :: "'p list"
  handled :: "'p list"
  coalesced :: nat

definition LogicHandle :: "'p logic" where
  "LogicHandle = \<lparr>operationQueue = [], event = False, isEnd = False, thread = AtLoop,
     unset = 0, pushed = [], handled = [], coalesced = 0\<rparr>"

subsection \<open>The operations\<close>

definition EnqueueOper_push :: "'p \<Rightarrow> 'p logic \<Rightarrow> 'p logic" where
  "EnqueueOper_push msg s =
     s\<lparr>operationQueue := operationQueue s @ [msg], unset := Suc (unset s),
       pushed := pushed s @ [msg]\<rparr>"

definition EnqueueOper_set :: "'p logic \<Rightarrow> 'p logic" where
  "EnqueueOper_set s =
     s\<lparr>event := True, unset := unset s - 1,
       coalesced := (if event s then Suc (coalesced s) else coalesced s)\<rparr>"

text \<open>
  The steps of the logic thread in \<open>Process\<close>: the test of \<open>isEnd\<close>, the return of
  \<open>WaitForSingleObject\<close> (which resets the event), the unlocked test of the size, the locked
  \<open>pop\<close>, and the end of \<open>PacketHandling\<close>.
\<close>

definition Process_loop :: "'p logic \<Rightarrow> 'p logic" where
  "Process_loop s = s\<lparr>thread := (if isEnd s then Stopped else AtWait)\<rparr>"

definition Process_woken :: "'p logic \<Rightarrow> 'p logic" where
  "Process_woken s = s\<lparr>event := False, thread := Awake\<rparr>"

definition Process_check :: "'p logic \<Rightarrow> 'p logic" where
  "Process_check s = s\<lparr>thread := (if operationQueue s = [] then AtLoop else Checked)\<rparr>"

definition Process_pop :: "'p logic \<Rightarrow> 'p logic" where
  "Process_pop s =
     (case operationQueue s of
        [] \<Rightarrow> s\<lparr>thread := AtLoop\<rparr>
      | p # q \<Rightarrow> s\<lparr>operationQueue := q, thread := Handling p\<rparr>)"

definition Process_handled :: "'p \<Rightarrow> 'p logic \<Rightarrow> 'p logic" where
  "Process_handled p s = s\<lparr>thread := AtLoop, handled := handled s @ [p]\<rparr>"

text \<open>\<open>AgentApp::End\<close> sets the flag and nothing else: it does not set the event.\<close>

definition End :: "'p logic \<Rightarrow> 'p logic" where
  "End s = s\<lparr>isEnd := True\<rparr>"

lemmas logic_ops [step_simps] =
  EnqueueOper_push_def EnqueueOper_set_def Process_loop_def Process_woken_def Process_check_def
  Process_pop_def Process_handled_def End_def

inductive logic_step :: "'p logic \<Rightarrow> 'p logic \<Rightarrow> bool" where
  push: "logic_step s (EnqueueOper_push p s)"
| set: "0 < unset s \<Longrightarrow> logic_step s (EnqueueOper_set s)"
| loop: "thread s = AtLoop \<Longrightarrow> logic_step s (Process_loop s)"
| wake: "thread s = AtWait \<Longrightarrow> event s \<Longrightarrow> logic_step s (Process_woken s)"
| check: "thread s = Awake \<Longrightarrow> logic_step s (Process_check s)"
| pop: "thread s = Checked \<Longrightarrow> logic_step s (Process_pop s)"
| handle: "thread s = Handling p \<Longrightarrow> logic_step s (Process_handled p s)"
| shutdown: "logic_step s (End s)"

inductive logic_reach :: "'p logic \<Rightarrow> 'p logic \<Rightarrow> bool" where
  refl: "logic_reach s s"
| step: "logic_reach s t \<Longrightarrow> logic_step t u \<Longrightarrow> logic_reach s u"

inductive_cases logic_step_elims: "logic_step s t"

subsection \<open>Invariants\<close>

text \<open>The packet in the hands of the thread, and whether it is between waking and popping.\<close>

fun in_hand :: "'p pc \<Rightarrow> 'p list" where
  "in_hand (Handling p) = [p]"
| "in_hand _ = []"

fun waking :: "'p pc \<Rightarrow> nat" where
  "waking Awake = 1"
| "waking Checked = 1"
| "waking _ = 0"

definition fifo_inv :: "'p logic \<Rightarrow> bool" where
  "fifo_inv s \<longleftrightarrow> handled s @ in_hand (thread s) @ operationQueue s = pushed s"

text \<open>
  Every packet of the queue is accounted for by a \<open>SetEvent\<close> that has not been used to pop it: one
  still to come, the event that is set, the wake-up under way, or one that was lost because the
  event was already set.
\<close>

definition wakeup_inv :: "'p logic \<Rightarrow> bool" where
  "wakeup_inv s \<longleftrightarrow>
     unset s + (if event s then 1 else 0) + waking (thread s) + coalesced s
       = length (operationQueue s)"

lemma fifo_step: "logic_step s t \<Longrightarrow> fifo_inv s \<Longrightarrow> fifo_inv t"
  by (induction rule: logic_step.induct)
     (auto simp: fifo_inv_def step_simps split: list.splits)

lemma fifo_reach: "logic_reach s t \<Longrightarrow> fifo_inv s \<Longrightarrow> fifo_inv t"
  by (induction rule: logic_reach.induct) (auto intro: fifo_step)

lemma wakeup_step: "logic_step s t \<Longrightarrow> wakeup_inv s \<Longrightarrow> wakeup_inv t"
  by (induction rule: logic_step.induct)
     (auto simp: wakeup_inv_def step_simps split: list.splits if_splits)

lemma wakeup_reach: "logic_reach s t \<Longrightarrow> wakeup_inv s \<Longrightarrow> wakeup_inv t"
  by (induction rule: logic_reach.induct) (auto intro: wakeup_step)

lemma logic_start_inv: "fifo_inv LogicHandle" "wakeup_inv LogicHandle"
  by (simp_all add: fifo_inv_def wakeup_inv_def LogicHandle_def)

lemma coalesced_step: "logic_step s t \<Longrightarrow> coalesced s \<le> coalesced t"
  by (induction rule: logic_step.induct) (auto simp: step_simps split: list.splits)

lemma coalesced_reach: "logic_reach s t \<Longrightarrow> coalesced s \<le> coalesced t"
  by (induction rule: logic_reach.induct) (auto dest: coalesced_step)

lemma logic_reach_trans: "logic_reach t u \<Longrightarrow> logic_reach s t \<Longrightarrow> logic_reach s u"
  by (induction rule: logic_reach.induct) (auto intro: logic_reach.step)

text \<open>A reachable state stays reachable under each operation, for concrete executions.\<close>

lemma reach_ops:
  assumes "logic_reach a s"
  shows "logic_reach a (EnqueueOper_push p s)"
    and "0 < unset s \<Longrightarrow> logic_reach a (EnqueueOper_set s)"
    and "thread s = AtLoop \<Longrightarrow> logic_reach a (Process_loop s)"
    and "thread s = AtWait \<Longrightarrow> event s \<Longrightarrow> logic_reach a (Process_woken s)"
    and "thread s = Awake \<Longrightarrow> logic_reach a (Process_check s)"
    and "thread s = Checked \<Longrightarrow> logic_reach a (Process_pop s)"
    and "thread s = Handling p \<Longrightarrow> logic_reach a (Process_handled p s)"
    and "logic_reach a (End s)"
  using assms by (blast intro: logic_reach.step logic_step.intros)+

lemma idle_step:
  assumes "logic_step s t" and "thread s = AtWait" and "\<not> event s" and "unset s = 0"
    and "pushed t = pushed s"
  shows "thread t = AtWait \<and> \<not> event t \<and> unset t = 0 \<and> operationQueue t = operationQueue s"
  using assms by (cases rule: logic_step.cases) (auto simp: step_simps)

lemma pushed_step: "logic_step s t \<Longrightarrow> \<exists>ps. pushed t = pushed s @ ps"
  by (cases rule: logic_step.cases) (auto simp: step_simps split: list.splits)

lemma pushed_reach: "logic_reach s t \<Longrightarrow> \<exists>ps. pushed t = pushed s @ ps"
  by (induction rule: logic_reach.induct) (auto dest!: pushed_step)

lemma idle_reach:
  assumes "logic_reach s t"
  shows "thread s = AtWait \<Longrightarrow> \<not> event s \<Longrightarrow> unset s = 0 \<Longrightarrow> pushed t = pushed s \<Longrightarrow>
    thread t = AtWait \<and> \<not> event t \<and> unset t = 0 \<and> operationQueue t = operationQueue s"
  using assms
proof (induction rule: logic_reach.induct)
  case (refl s)
  then show ?case by simp
next
  case (step s t u)
  obtain ps qs where "pushed t = pushed s @ ps" "pushed u = pushed t @ qs"
    using pushed_reach [OF step.hyps(1)] pushed_step [OF step.hyps(2)] by blast
  with step show ?case using idle_step [OF step.hyps(2)] by simp
qed

subsection \<open>Two concrete runs\<close>

text \<open>
  Two packets arrive before the logic thread wakes, so the second \<open>SetEvent\<close> finds the event set;
  the thread wakes once, handles the first packet and waits again.
\<close>

definition lost_wakeup :: "nat logic" where
  "lost_wakeup =
     \<lparr>operationQueue = [2], event = False, isEnd = False, thread = AtWait, unset = 0,
      pushed = [1, 2], handled = [1], coalesced = 1\<rparr>"

lemma lost_wakeup_reached: "logic_reach LogicHandle lost_wakeup"
proof -
  let ?s1 = "EnqueueOper_set (EnqueueOper_push 1 (Process_loop (LogicHandle :: nat logic)))"
  let ?s2 = "EnqueueOper_set (EnqueueOper_push 2 ?s1)"
  let ?s3 = "Process_pop (Process_check (Process_woken ?s2))"
  have "logic_reach LogicHandle (Process_loop (Process_handled 1 ?s3))"
    by (intro reach_ops logic_reach.refl) (simp_all add: step_simps LogicHandle_def)
  moreover have "Process_loop (Process_handled 1 ?s3) = lost_wakeup"
    by (simp add: step_simps LogicHandle_def lost_wakeup_def)
  ultimately show ?thesis by simp
qed

text \<open>The program is told to end while the logic thread waits.\<close>

lemma end_while_waiting_reached:
  "logic_reach LogicHandle (End (Process_loop (LogicHandle :: nat logic)))"
  by (intro reach_ops logic_reach.refl) (simp add: LogicHandle_def)

subsection \<open>Properties\<close>

text \<open>
  C33. The logic thread handles the packets in the order in which they were queued, and loses and
  repeats none: in every reachable state the handled packets, the one in hand and the queue are
  together the packets pushed so far.
\<close>

theorem logic_fifo:
  assumes "logic_reach LogicHandle s"
  shows "handled s @ in_hand (thread s) @ operationQueue s = pushed s"
  using fifo_reach [OF assms] logic_start_inv(1) by (simp add: fifo_inv_def)

theorem logic_fifo_witness:
  "handled lost_wakeup @ in_hand (thread lost_wakeup) @ operationQueue lost_wakeup = [1, 2]"
  using logic_fifo [OF lost_wakeup_reached] by (simp add: lost_wakeup_def)

text \<open>
  C34. A wake-up handles one packet, so a \<open>SetEvent\<close> that finds the event already set leaves a
  packet behind for good: from a reachable state on, the queue never again holds fewer packets than
  the number of signals lost so far.
\<close>

theorem logic_backlog:
  assumes "logic_reach LogicHandle s" and "logic_reach s t"
  shows "coalesced s \<le> length (operationQueue t)"
proof -
  have "wakeup_inv t"
    using assms logic_start_inv(2) by (blast intro: wakeup_reach)
  then have "coalesced t \<le> length (operationQueue t)" by (simp add: wakeup_inv_def)
  with coalesced_reach [OF assms(2)] show ?thesis by simp
qed

theorem logic_backlog_witness:
  "coalesced lost_wakeup = 1 \<and> 1 \<le> length (operationQueue (EnqueueOper_push 3 lost_wakeup))"
proof -
  have "logic_reach lost_wakeup (EnqueueOper_push 3 lost_wakeup)"
    by (intro reach_ops logic_reach.refl)
  from logic_backlog [OF lost_wakeup_reached this] show ?thesis
    by (simp add: lost_wakeup_def)
qed

text \<open>
  C35. When nothing is under way any more (the thread waits, the event is not set, every completion
  thread is through), the packets still in the queue are exactly as many as signals were lost, and
  without a further packet the thread stays where it is: these packets are not handled.
\<close>

theorem logic_lost_wakeup:
  assumes "logic_reach LogicHandle s" and "thread s = AtWait" and "\<not> event s" and "unset s = 0"
    and "logic_reach s t" and "pushed t = pushed s"
  shows "length (operationQueue s) = coalesced s \<and> thread t = AtWait \<and>
    operationQueue t = operationQueue s"
proof -
  have "wakeup_inv s" using assms(1) logic_start_inv(2) by (rule wakeup_reach)
  then have "length (operationQueue s) = coalesced s"
    using assms(2-4) by (simp add: wakeup_inv_def)
  with idle_reach [OF assms(5,2-4,6)] show ?thesis by simp
qed

theorem logic_lost_wakeup_witness:
  "length (operationQueue lost_wakeup) = 1 \<and> thread (End lost_wakeup) = AtWait \<and>
   operationQueue (End lost_wakeup) = [2]"
proof -
  have "logic_reach lost_wakeup (End lost_wakeup)"
    by (intro reach_ops logic_reach.refl)
  from logic_lost_wakeup [OF lost_wakeup_reached _ _ _ this] show ?thesis
    by (simp add: lost_wakeup_def End_def)
qed



end
