(* ===== verification/Pipeline.thy ===== *)
theory Pipeline imports RecvFraming LogicHandle "HOL-Library.Sublist" begin

text \<open>
  The receive path of the server as one system: any number of sockets (agents and web commands),
  each with its receive buffer and its pool of ten packet blocks, the memory of the blocks, and the
  one logic queue. The completion threads run \<open>RecvProcess\<close>; the logic thread takes the packet at
  the front, reads it from its block in \<open>PacketHandling\<close> and gives the block back to the pool of the
  socket the packet came from.
\<close>

record pipeline =
  socks :: "sid \<Rightarrow> packet_socket"
  mem :: heap
  oper_queue :: "addr list"
  stream :: "sid \<Rightarrow> byte list"
  delivered :: "(sid \<times> int16 \<times> byte list) list"

text \<open>
  \<open>stream i\<close> is the history of the bytes received on socket \<open>i\<close>, \<open>delivered\<close> the history of what the
  handlers were called with: the socket, the packet type and the payload. The type of the owner is
  fixed per socket.
\<close>

definition pipe_recv :: "(sid \<Rightarrow> ownerType) \<Rightarrow> sid \<Rightarrow> nat \<Rightarrow> heap \<Rightarrow> packet_socket \<Rightarrow> recv_result" where
  "pipe_recv kind i n =
     (case kind i of AGENT \<Rightarrow> AgentSocket_RecvProcess i False n
                   | WEBCOMMAND \<Rightarrow> WebCommandSocket_RecvProcess i False n)"

text \<open>
  What both \<open>PacketHandling\<close> methods do with the packet around the handling itself: read the type
  and the payload, and \<open>Free\<close> the block.
\<close>

definition pipe_handle :: "pipeline \<Rightarrow> pipeline" where
  "pipe_handle st =
     (case oper_queue st of
        [] \<Rightarrow> st
      | b # q \<Rightarrow>
         let p = mem st b; i = powner p; s = socks st i; (ok, pool) = Free b (packetPoolManager s)
         in st\<lparr>oper_queue := q,
               delivered := delivered st @ [(i, ptype p, payload p)],
               socks := (socks st)(i := s\<lparr>packetPoolManager := pool\<rparr>)\<rparr>)"

definition pipe_received ::
  "sid \<Rightarrow> byte list \<Rightarrow> packet_socket \<Rightarrow> heap \<Rightarrow> addr option \<Rightarrow> pipeline \<Rightarrow> pipeline" where
  "pipe_received i d s' h' enq st =
     st\<lparr>socks := (socks st)(i := s'), mem := h',
       oper_queue := oper_queue st @ (case enq of None \<Rightarrow> [] | Some b \<Rightarrow> [b]),
       stream := (stream st)(i := stream st i @ d)\<rparr>"

text \<open>
  The peers send packets of at most \<open>MAX_PAYLOAD\<close> bytes: a partial packet whose header is complete
  announces no more.
\<close>

definition well_framed :: "byte list \<Rightarrow> bool" where
  "well_framed bs \<longleftrightarrow>
     (\<forall>p \<in> set (fst (deframe bs)). length (snd p) \<le> MAX_PAYLOAD) \<and> fits (snd (deframe bs))"

inductive pipe_step :: "(sid \<Rightarrow> ownerType) \<Rightarrow> pipeline \<Rightarrow> pipeline \<Rightarrow> bool"
  for kind :: "sid \<Rightarrow> ownerType" where
  receive: "os_fills d (socks st i) \<Longrightarrow> well_framed (stream st i @ d) \<Longrightarrow>
    pipe_recv kind i (length d) (mem st) (os_write d (socks st i)) = RecvDone s' h' enq calls \<Longrightarrow>
    pipe_step kind st (pipe_received i d s' h' enq st)"
| handle: "oper_queue st \<noteq> [] \<Longrightarrow> pipe_step kind st (pipe_handle st)"

text \<open>
  The start: every socket has a fresh pool of ten blocks, a buffer of \<open>BUFSIZE\<close> bytes, and its
  first receive is under way.
\<close>

definition pipe_init :: "pipeline \<Rightarrow> bool" where
  "pipe_init st \<longleftrightarrow>
     oper_queue st = [] \<and> delivered st = [] \<and>
     (\<forall>i. stream st i = [] \<and> MemPooler (Pair i) 10 = Some (packetPoolManager (socks st i)) \<and>
          (\<exists>s. length (recvBuf s) = BUFSIZE \<and> socket s \<noteq> 0 \<and> socks st i = fst (start_receive s)))"

inductive pipe_reach :: "(sid \<Rightarrow> ownerType) \<Rightarrow> pipeline \<Rightarrow> bool"
  for kind :: "sid \<Rightarrow> ownerType" where
  start: "pipe_init st \<Longrightarrow> pipe_reach kind st"
| step: "pipe_reach kind st \<Longrightarrow> pipe_step kind st st' \<Longrightarrow> pipe_reach kind st'"

subsection \<open>The invariant\<close>

text \<open>The blocks of socket \<open>i\<close> in the queue, and what the packets of socket \<open>i\<close> will be read as.\<close>

definition in_flight :: "sid \<Rightarrow> pipeline \<Rightarrow> addr list" where
  "in_flight i st = filter (\<lambda>b. fst b = i) (oper_queue st)"

definition packets_of :: "sid \<Rightarrow> pipeline \<Rightarrow> (int16 \<times> byte list) list" where
  "packets_of i st =
     map snd (filter (\<lambda>e. fst e = i) (delivered st))
     @ map (\<lambda>b. (ptype (mem st b), payload (mem st b))) (in_flight i st)"

definition sock_inv :: "sid \<Rightarrow> pipeline \<Rightarrow> bool" where
  "sock_inv i st \<longleftrightarrow>
     (\<exists>pend. receiving pend (socks st i) \<and> deframe (stream st i) = (packets_of i st, pend)) \<and>
     owns (m_freeVector (packetPoolManager (socks st i)))
          (m_nAllocCount (packetPoolManager (socks st i))) (Pair i ` {..<10}) (in_flight i st)"

definition pipe_inv :: "pipeline \<Rightarrow> bool" where
  "pipe_inv st \<longleftrightarrow>
     (\<forall>i. sock_inv i st) \<and> (\<forall>b \<in> set (oper_queue st). powner (mem st b) = fst b)"

lemma pool_blocks_card: "card (Pair i ` {..<10::nat}) = 10"
  by (simp add: card_image inj_on_def)

text \<open>Both methods are the shared one with a stamp that leaves the content of the packet alone.\<close>

lemma pipe_recv_stamp:
  obtains stamp where "pipe_recv kind i = (\<lambda>n. recv_process stamp False n)"
    and "\<And>p. ptype (stamp p) = ptype p" "\<And>p. payload (stamp p) = payload p"
        "\<And>p. powner (stamp p) = i"
  by (cases "kind i")
     (rule that [of "\<lambda>p. p\<lparr>pownert := kind i, powner := i\<rparr>"],
      simp_all add: pipe_recv_def AgentSocket_RecvProcess_def WebCommandSocket_RecvProcess_def
        payload_def fun_eq_iff)+

text \<open>The result of a completed receive, from the invariant.\<close>

lemma pipe_recv_result:
  assumes inv: "sock_inv i st" and fill: "os_fills d (socks st i)"
    and peer: "well_framed (stream st i @ d)"
  obtains (part) s' calls where
      "pipe_recv kind i (length d) h (os_write d (socks st i)) = RecvDone s' h None calls"
      and "packetPoolManager s' = packetPoolManager (socks st i)"
      and "\<exists>pend. receiving pend s' \<and> deframe (stream st i @ d) = (packets_of i st, pend)"
  | (packet) s' calls b pool p where
      "pipe_recv kind i (length d) h (os_write d (socks st i)) =
         RecvDone s' (h(b := p)) (Some b) calls"
      and "Alloc (packetPoolManager (socks st i)) = (Some b, pool)" "packetPoolManager s' = pool"
      and "powner p = i" "receiving [] s'"
      and "deframe (stream st i @ d) = (packets_of i st @ [(ptype p, payload p)], [])"
  | (fault) "pipe_recv kind i (length d) h (os_write d (socks st i)) = RecvFault NullPacket"
      and "length (in_flight i st) = 10"
      and "length (fst (deframe (stream st i @ d))) = Suc (length (packets_of i st))"
proof -
  obtain stamp where st: "pipe_recv kind i = (\<lambda>n. recv_process stamp False n)"
    and stp: "\<And>p. ptype (stamp p) = ptype p" "\<And>p. payload (stamp p) = payload p"
        "\<And>p. powner (stamp p) = i"
    using pipe_recv_stamp [of kind i] by blast
  from inv obtain pend where pend: "receiving pend (socks st i)"
    and df: "deframe (stream st i) = (packets_of i st, pend)"
    by (auto simp: sock_inv_def)
  have sp: "deframe (stream st i @ d) =
      (packets_of i st @ fst (deframe (pend @ d)), snd (deframe (pend @ d)))"
    using deframe_append [of "stream st i" d] df by simp
  show thesis
  proof (cases "fst (deframe (pend @ d)) = []")
    case True
    have p0: "deframe pend = ([], pend)" "d \<noteq> []" "length d \<le> missing pend"
      using pend fill by (auto simp: receiving_def os_fills_def)
    then have b: "deframe (pend @ d) = ([], pend @ d)"
      by (rule fill_cases) (use True in simp_all)
    with peer sp have "fits (pend @ d)" by (simp add: well_framed_def)
    from recv_part [OF pend fill this True, of stamp h] show thesis
      using part sp b by (auto simp: st)
  next
    case False
    note c = recv_complete_state [OF pend fill False]
    have fit: "fits (pend @ d)"
      using peer sp c(1,2) by (auto simp: well_framed_def fits_def)
    show thesis
    proof (cases "Alloc (packetPoolManager (socks st i))")
      case (Pair bo pool)
      show thesis
      proof (cases bo)
        case None
        with Pair inv have "length (in_flight i st) = 10"
          using mem_pool.alloc_null_iff [of "packetPoolManager (socks st i)"]
          by (auto simp: sock_inv_def pool_blocks_card)
        then show thesis
          using fault recv_exhausted [OF pend fill False, of stamp h] Pair None sp c(1)
          by (simp add: st)
      next
        case (Some b)
        with recv_complete [OF pend fill fit False, of b pool stamp h] Pair obtain s' calls p
          where r: "recv_process stamp False (length d) h (os_write d (socks st i)) =
             RecvDone s' (h(b := stamp p)) (Some b) calls" "receiving [] s'"
             "packetPoolManager s' = pool" "deframe (pend @ d) = ([(ptype p, payload p)], [])"
          by auto
        show thesis
          by (rule packet [of s' b "stamp p" calls pool]) (use r Pair Some sp stp in \<open>simp_all add: st\<close>)
      qed
    qed
  qed
qed

subsection \<open>Every step keeps the invariant\<close>

lemma in_flight_received [simp]:
  "in_flight j (pipe_received i d s' h' enq st) =
     in_flight j st @ (case enq of None \<Rightarrow> [] | Some b \<Rightarrow> if fst b = j then [b] else [])"
  by (simp add: in_flight_def pipe_received_def split: option.splits)

lemma packets_of_cong:
  assumes "in_flight j st' = in_flight j st" and "delivered st' = delivered st"
    and "\<And>b. b \<in> set (in_flight j st) \<Longrightarrow> mem st' b = mem st b"
  shows "packets_of j st' = packets_of j st"
  using assms by (simp add: packets_of_def)

lemma pipe_received_part_inv:
  assumes inv: "pipe_inv st"
    and pool: "packetPoolManager s' = packetPoolManager (socks st i)"
    and rcv: "\<exists>pend. receiving pend s' \<and> deframe (stream st i @ d) = (packets_of i st, pend)"
  shows "pipe_inv (pipe_received i d s' (mem st) None st)"
proof -
  let ?st' = "pipe_received i d s' (mem st) None st"
  have pk: "packets_of j ?st' = packets_of j st" for j
    by (rule packets_of_cong) (simp_all, simp_all add: pipe_received_def)
  have "sock_inv j ?st'" for j
  proof (cases "j = i")
    case True
    with inv pool rcv pk [of i] show ?thesis
      by (auto simp: pipe_inv_def sock_inv_def) (auto simp: pipe_received_def)
  next
    case False
    with inv pk [of j] show ?thesis
      by (simp add: pipe_inv_def sock_inv_def) (simp add: pipe_received_def)
  qed
  with inv show ?thesis by (simp add: pipe_inv_def pipe_received_def)
qed

lemma pipe_received_packet_inv:
  assumes inv: "pipe_inv st"
    and al: "Alloc (packetPoolManager (socks st i)) = (Some b, pool)"
    and s': "packetPoolManager s' = pool" "receiving [] s'"
    and p: "powner p = i"
    and df: "deframe (stream st i @ d) = (packets_of i st @ [(ptype p, payload p)], [])"
  shows "pipe_inv (pipe_received i d s' ((mem st)(b := p)) (Some b) st)"
proof -
  let ?st' = "pipe_received i d s' ((mem st)(b := p)) (Some b) st"
  have own: "owns (m_freeVector (packetPoolManager (socks st i)))
      (m_nAllocCount (packetPoolManager (socks st i))) (Pair i ` {..<10}) (in_flight i st)"
    using inv by (simp add: pipe_inv_def sock_inv_def)
  note al' = mem_pool.alloc_owns [OF own al]
  have fb: "fst b = i" using al'(3) by auto
  have nb: "b \<notin> set (in_flight j st)" for j
    using al'(2) fb by (cases "j = i") (auto simp: in_flight_def)
  have nq: "b \<notin> set (oper_queue st)"
    using nb [of i] fb by (auto simp: in_flight_def)
  have pk: "packets_of j ?st' = packets_of j st @ (if j = i then [(ptype p, payload p)] else [])" for j
  proof -
    have "map (\<lambda>a. (ptype (mem ?st' a), payload (mem ?st' a))) (in_flight j st) =
        map (\<lambda>a. (ptype (mem st a), payload (mem st a))) (in_flight j st)"
      using nb [of j] by (auto simp: pipe_received_def)
    then show ?thesis using fb by (simp add: packets_of_def) (simp add: pipe_received_def)
  qed
  have "sock_inv j ?st'" for j
  proof (cases "j = i")
    case True
    with al'(1) s' df pk [of i] fb show ?thesis
      by (simp add: sock_inv_def) (auto simp: pipe_received_def)
  next
    case False
    with inv pk [of j] fb show ?thesis
      by (simp add: pipe_inv_def sock_inv_def) (simp add: pipe_received_def)
  qed
  moreover have "\<forall>a \<in> set (oper_queue ?st'). powner (mem ?st' a) = fst a"
    using inv nq p fb by (auto simp: pipe_inv_def pipe_received_def)
  ultimately show ?thesis by (simp add: pipe_inv_def)
qed

lemma pipe_handle_inv:
  assumes inv: "pipe_inv st" and q: "oper_queue st = b # q"
  shows "pipe_inv (pipe_handle st)"
proof -
  let ?i = "fst b"
  let ?s = "socks st ?i"
  obtain ok pool where fr: "Free b (packetPoolManager ?s) = (ok, pool)" by fastforce
  have ow: "powner (mem st b) = ?i" using inv q by (simp add: pipe_inv_def)
  let ?st' = "pipe_handle st"
  have st': "?st' = st\<lparr>oper_queue := q,
      delivered := delivered st @ [(?i, ptype (mem st b), payload (mem st b))],
      socks := (socks st)(?i := ?s\<lparr>packetPoolManager := pool\<rparr>)\<rparr>"
    by (simp add: pipe_handle_def q ow fr Let_def)
  have own: "owns (m_freeVector (packetPoolManager ?s)) (m_nAllocCount (packetPoolManager ?s))
      (Pair ?i ` {..<10}) (in_flight ?i st)"
    using inv by (simp add: pipe_inv_def sock_inv_def)
  have head: "in_flight ?i st = b # in_flight ?i ?st'"
    by (simp add: in_flight_def q st')
  have other: "in_flight j ?st' = in_flight j st" if "j \<noteq> ?i" for j
    using that by (simp add: in_flight_def q st')
  have pk: "packets_of j ?st' = packets_of j st" for j
    by (cases "j = ?i") (simp_all add: packets_of_def head other, simp_all add: st')
  have own': "owns (m_freeVector pool) (m_nAllocCount pool) (Pair ?i ` {..<10}) (in_flight ?i ?st')"
    using mem_pool.release_owns(2) [OF own _ fr] head by simp
  have "sock_inv j ?st'" for j
  proof (cases "j = ?i")
    case True
    obtain pend where "receiving pend ?s" "deframe (stream st ?i) = (packets_of ?i st, pend)"
      using inv by (auto simp: pipe_inv_def sock_inv_def)
    then have "receiving pend (socks ?st' ?i)" "deframe (stream ?st' ?i) = (packets_of ?i ?st', pend)"
      unfolding pk by (simp_all add: st' receiving_def)
    moreover have "packetPoolManager (socks ?st' ?i) = pool" by (simp add: st')
    ultimately show ?thesis using own' True by (auto simp: sock_inv_def)
  next
    case False
    then have "socks ?st' j = socks st j" "stream ?st' j = stream st j" by (simp_all add: st')
    with inv pk [of j] other [OF False] show ?thesis by (simp add: pipe_inv_def sock_inv_def)
  qed
  with inv q show ?thesis by (simp add: pipe_inv_def st')
qed

lemma pipe_init_inv:
  assumes "pipe_init st" shows "pipe_inv st"
proof -
  have "sock_inv i st" for i
  proof -
    obtain s where s: "length (recvBuf s) = BUFSIZE" "socket s \<noteq> 0"
      "socks st i = fst (start_receive s)"
      using assms by (auto simp: pipe_init_def)
    have "owns (m_freeVector (packetPoolManager (socks st i)))
        (m_nAllocCount (packetPoolManager (socks st i))) (Pair i ` {..<nat 10}) []"
      using assms by (intro MemPooler_owns) (auto simp: pipe_init_def inj_on_def)
    with s start_receive_receiving [OF s(1,2)] assms show ?thesis
      by (auto simp: sock_inv_def pipe_init_def in_flight_def packets_of_def deframe_incomplete)
  qed
  with assms show ?thesis by (simp add: pipe_inv_def pipe_init_def)
qed

lemma pipe_step_inv: "pipe_step kind st st' \<Longrightarrow> pipe_inv st \<Longrightarrow> pipe_inv st'"
proof (induction rule: pipe_step.induct)
  case (receive d st i s' h' enq calls)
  then have "sock_inv i st" by (simp add: pipe_inv_def)
  from this receive.hyps(1,2) show ?case
  proof (cases rule: pipe_recv_result [of i st d kind "mem st"])
    case (part s'' calls')
    with receive show ?thesis by (auto intro: pipe_received_part_inv)
  next
    case (packet s'' calls' b pool p)
    with receive show ?thesis by (auto intro: pipe_received_packet_inv)
  next
    case fault
    with receive show ?thesis by simp
  qed
next
  case (handle st)
  then obtain b q where "oper_queue st = b # q" by (cases "oper_queue st") auto
  with handle show ?case by (blast intro: pipe_handle_inv)
qed

lemma pipe_reach_inv: "pipe_reach kind st \<Longrightarrow> pipe_inv st"
  by (induction rule: pipe_reach.induct) (auto intro: pipe_init_inv pipe_step_inv)

lemma pipe_reach_packets:
  "pipe_reach kind st \<Longrightarrow> fst (deframe (stream st i)) = packets_of i st"
  using pipe_reach_inv [of kind st] unfolding pipe_inv_def sock_inv_def by (metis fst_conv)

subsection \<open>A concrete system\<close>

text \<open>One socket object of each number, connected, on the agents' port.\<close>

definition demo_socket :: "sid \<Rightarrow> packet_socket" where
  "demo_socket i = fst (start_receive (blank_socket i))"

definition demo_pipeline :: pipeline where
  "demo_pipeline =
     \<lparr>socks = demo_socket,
      mem = (\<lambda>_. \<lparr>plength = 0, ptype = 0, pmsg = replicate BUFSIZE 0, powner = 0, pownert = AGENT\<rparr>),
      oper_queue = [], stream = (\<lambda>_. []), delivered = []\<rparr>"

lemma demo_init: "pipe_init demo_pipeline"
proof -
  have "length (recvBuf (blank_socket i)) = BUFSIZE" "socket (blank_socket i) \<noteq> 0" for i
    by (simp_all add: blank_socket_def)
  moreover have "MemPooler (Pair i) 10 = Some (packetPoolManager (demo_socket i))" for i
    by (simp add: demo_socket_def start_receive_def Recv_def blank_socket_def MemPooler_def)
  ultimately show ?thesis
    by (auto simp: pipe_init_def demo_pipeline_def demo_socket_def)
qed

text \<open>
  An agent sends packets without payload (health acknowledgements, type 9) faster than the logic
  thread handles them.
\<close>

lemma empty_packet [frame_simps]:
  "deframe [0, 0, 9, 0] = ([(9, [])], [])"
  by (simp add: deframe.simps hdr_len_def hdr_word_def hdr_type_def un_le16_def)

lemma wire_empty_packet: "wire (9, []) = [0, 0, 9, 0]"
  by (simp add: wire_def le16_def)

lemma concat_replicate_two: "concat (replicate 2 xs) = xs @ xs"
  by (simp add: numeral_2_eq_2)

lemma deframe_empty_packets:
  "deframe (concat (replicate n [0, 0, 9, 0])) = (replicate n (9, []), [])"
proof (induction n)
  case 0
  then show ?case by (simp add: deframe_incomplete)
next
  case (Suc n)
  then show ?case
    using deframe_append [of "[0, 0, 9, 0]" "concat (replicate n [0, 0, 9, 0])"]
    by (simp add: empty_packet)
qed

lemma demo_fill:
  "n \<le> 10 \<Longrightarrow> \<exists>st. pipe_reach (\<lambda>_. AGENT) st \<and> length (in_flight 0 st) = n \<and>
     delivered st = [] \<and> stream st 0 = concat (replicate n [0, 0, 9, 0])"
proof (induction n)
  case 0
  show ?case
    by (rule exI [of _ demo_pipeline])
       (simp add: pipe_reach.start demo_init, simp add: demo_pipeline_def in_flight_def)
next
  case (Suc n)
  let ?d = "[0, 0, 9, 0] :: byte list"
  from Suc obtain st where st: "pipe_reach (\<lambda>_. AGENT) st" "length (in_flight 0 st) = n"
    "delivered st = []" "stream st 0 = concat (replicate n ?d)" by auto
  then have inv: "sock_inv 0 st" using pipe_reach_inv by (auto simp: pipe_inv_def)
  have str: "stream st 0 @ ?d = concat (replicate (Suc n) ?d)"
    using st(4) by (simp add: concat_replicate_end del: replicate_Suc)
  have "receiving [] (socks st 0)"
    using inv st(4) deframe_empty_packets [of n] by (auto simp: sock_inv_def)
  then have fill: "os_fills ?d (socks st 0)" by (simp add: os_fills_def receiving_def missing_def)
  have wf: "well_framed (stream st 0 @ ?d)"
    unfolding str well_framed_def deframe_empty_packets
    by (simp add: fits_def)
  from inv fill wf show ?case
  proof (cases rule: pipe_recv_result [of 0 st ?d "\<lambda>_. AGENT" "mem st"])
    case (part s' calls)
    then obtain pend where "deframe (stream st 0 @ ?d) = (packets_of 0 st, pend)" by blast
    moreover have "deframe (stream st 0) = (packets_of 0 st, [])"
      using inv st(4) deframe_empty_packets [of n] by (auto simp: sock_inv_def)
    ultimately show ?thesis
      using str st(4) deframe_empty_packets [of n] deframe_empty_packets [of "Suc n"] by simp
  next
    case (packet s' calls b pool p)
    let ?st = "pipe_received 0 ?d s' ((mem st)(b := p)) (Some b) st"
    have "pipe_step (\<lambda>_. AGENT) st ?st" by (rule pipe_step.receive [OF fill wf packet(1)])
    with st(1) have "pipe_reach (\<lambda>_. AGENT) ?st" by (rule pipe_reach.step)
    moreover have "fst b = 0"
      using mem_pool.alloc_owns(3) [OF _ packet(2)] inv by (fastforce simp: sock_inv_def)
    then have "length (in_flight 0 ?st) = Suc n" using st(2) by simp
    moreover have "delivered ?st = []" "stream ?st 0 = concat (replicate (Suc n) ?d)"
      using st(3) str by (simp_all add: pipe_received_def)
    ultimately show ?thesis by blast
  next
    case fault
    with st(2) Suc.prems show ?thesis by simp
  qed
qed

lemma fst_deframe_prefix: "prefix (fst (deframe as)) (fst (deframe (as @ bs)))"
  by (simp add: deframe_append [of as bs])

subsection \<open>Properties\<close>

text \<open>
  C1. Reassembly and delivery: however the network cuts the stream of a socket into pieces, and
  however receives and handling interleave, what the handlers have been called with for that socket
  followed by what they will read from the queued blocks is exactly the sequence of packets that the
  received bytes spell out. No packet is lost, repeated, reordered, or overwritten while it waits.
\<close>

theorem pipeline_reassembles:
  assumes "pipe_reach kind st"
  shows "fst (deframe (stream st i)) =
     map snd (filter (\<lambda>e. fst e = i) (delivered st))
     @ map (\<lambda>b. (ptype (mem st b), payload (mem st b))) (filter (\<lambda>b. fst b = i) (oper_queue st))"
  using pipe_reach_packets [OF assms] by (simp add: packets_of_def in_flight_def)

theorem pipeline_reassembles_witness:
  "\<exists>st. pipe_reach (\<lambda>_. AGENT) st \<and>
     replicate 3 (9, []) = map (\<lambda>b. (ptype (mem st b), payload (mem st b)))
       (filter (\<lambda>b. fst b = 0) (oper_queue st))"
proof -
  obtain st where st: "pipe_reach (\<lambda>_. AGENT) st" "delivered st = []"
    "stream st 0 = concat (replicate 3 [0, 0, 9, 0])"
    using demo_fill [of 3] by auto
  from pipeline_reassembles [OF st(1), of 0] st show ?thesis
    by (auto simp only: deframe_empty_packets fst_conv list.map append_Nil filter.simps)
qed

text \<open>
  C2. End to end: if the peer of a socket sends the packets \<open>ps\<close> (each of at most 65535 payload bytes),
  the handlers are called with a prefix of \<open>ps\<close>, at every moment of every run.
\<close>

theorem pipeline_delivers_sent:
  assumes "pipe_reach kind st" and "prefix (stream st i) (concat (map wire ps))"
    and "\<forall>p \<in> set ps. length (snd p) < 65536"
  shows "prefix (map snd (filter (\<lambda>e. fst e = i) (delivered st))) ps"
proof -
  obtain rest where "concat (map wire ps) = stream st i @ rest"
    using assms(2) by (auto elim: prefixE)
  then have "prefix (fst (deframe (stream st i))) ps"
    using fst_deframe_prefix [of "stream st i" rest] deframe_wire [OF assms(3)] by simp
  moreover have "prefix (map snd (filter (\<lambda>e. fst e = i) (delivered st)))
      (fst (deframe (stream st i)))"
    using pipe_reach_packets [OF assms(1), of i] by (simp add: packets_of_def)
  ultimately show ?thesis by (rule prefix_order.trans [rotated])
qed

theorem pipeline_delivers_sent_witness:
  "\<exists>st. pipe_reach (\<lambda>_. AGENT) st \<and> stream st 0 = concat (map wire [(9, []), (9, [])]) \<and>
     prefix (map snd (filter (\<lambda>e. fst e = 0) (delivered st))) [(9, []), (9, [])]"
proof -
  obtain st where st: "pipe_reach (\<lambda>_. AGENT) st"
    "stream st 0 = concat (replicate 2 [0, 0, 9, 0])"
    using demo_fill [of 2] by auto
  have w: "stream st 0 = concat (map wire [(9, []), (9, [])])"
    using st(2) by (simp add: wire_empty_packet concat_replicate_two)
  have "prefix (map snd (filter (\<lambda>e. fst e = 0) (delivered st))) [(9, []), (9, [])]"
    by (rule pipeline_delivers_sent [OF st(1)]) (simp_all add: w)
  with st(1) w show ?thesis by blast
qed



end
