(* ===== verification/Decimal.thy ===== *)
theory Decimal imports PSM_Prelude begin

text \<open>
  Decimal numerals: printing as \<open>std::to_string\<close> and \<open>boost::lexical_cast\<close> do, and reading as
  \<open>strtol(s, 0, 10)\<close> does, with the 32-bit \<open>long\<close> of the Windows targets.
\<close>

abbreviation CR :: char where "CR \<equiv> CHR 0x0D"
abbreviation LF :: char where "LF \<equiv> CHR 0x0A"
abbreviation crlf :: string where "crlf \<equiv> [CR, LF]"

definition is_digit :: "char \<Rightarrow> bool" where
  "is_digit c \<longleftrightarrow> (48 :: nat) \<le> of_char c \<and> of_char c \<le> (57 :: nat)"

definition digit_char :: "nat \<Rightarrow> char" where
  "digit_char d = char_of (48 + d)"

definition digit_val :: "char \<Rightarrow> nat" where
  "digit_val c = of_char c - 48"

fun nat_to_dec :: "nat \<Rightarrow> string" where
  "nat_to_dec n = (if n < 10 then [digit_char n] else nat_to_dec (n div 10) @ [digit_char (n mod 10)])"

declare nat_to_dec.simps [simp del]

definition int_to_dec :: "int \<Rightarrow> string" where
  "int_to_dec i = (if i < 0 then CHR ''-'' # nat_to_dec (nat (- i)) else nat_to_dec (nat i))"

definition dec_val :: "string \<Rightarrow> nat" where
  "dec_val s = foldl (\<lambda>a c. 10 * a + digit_val c) 0 s"

text \<open>The value saturates at the bounds of \<open>long\<close>, as the standard asks of \<open>strtol\<close>.\<close>

definition LONG_MAX :: int where "LONG_MAX = 2147483647"

definition clamp_long :: "int \<Rightarrow> int" where
  "clamp_long i = max (- LONG_MAX - 1) (min LONG_MAX i)"

text \<open>
  \<open>strtol\<close> on a text of digits and minus signs (the parser collects no other character): an optional
  sign, then the longest run of digits; without digits the value is 0.
\<close>

definition strtol :: "string \<Rightarrow> int" where
  "strtol s =
     (case s of
        [] \<Rightarrow> 0
      | c # r \<Rightarrow>
          if c = CHR ''-'' then clamp_long (- int (dec_val (takeWhile is_digit r)))
          else clamp_long (int (dec_val (takeWhile is_digit s))))"

subsection \<open>Facts\<close>

lemma of_char_digit: "d < 10 \<Longrightarrow> of_char (digit_char d) = 48 + d"
  by (simp add: digit_char_def)

lemma is_digit_digit_char [simp]: "d < 10 \<Longrightarrow> is_digit (digit_char d)"
  by (simp add: is_digit_def of_char_digit)

lemma digit_val_digit_char [simp]: "d < 10 \<Longrightarrow> digit_val (digit_char d) = d"
  by (simp add: digit_val_def of_char_digit)

lemma nat_to_dec_digits: "\<forall>c \<in> set (nat_to_dec n). is_digit c"
proof (induction n rule: nat_to_dec.induct)
  case (1 n)
  then show ?case by (cases "n < 10") (auto simp: nat_to_dec.simps [of n])
qed

lemma nat_to_dec_nonempty [simp]: "nat_to_dec n \<noteq> []"
  by (simp add: nat_to_dec.simps)

lemma dec_val_snoc: "dec_val (s @ [c]) = 10 * dec_val s + digit_val c"
  by (simp add: dec_val_def)

lemma dec_val_nat_to_dec [simp]: "dec_val (nat_to_dec n) = n"
proof (induction n rule: nat_to_dec.induct)
  case (1 n)
  show ?case
  proof (cases "n < 10")
    case True
    then show ?thesis by (simp add: nat_to_dec.simps dec_val_def)
  next
    case False
    then show ?thesis using 1 by (simp add: nat_to_dec.simps [of n] dec_val_snoc)
  qed
qed

lemma takeWhile_digits: "takeWhile is_digit (nat_to_dec n) = nat_to_dec n"
  using nat_to_dec_digits by (simp add: takeWhile_eq_all_conv)

lemma nat_to_dec_no_sign: "nat_to_dec n = c # r \<Longrightarrow> c \<noteq> CHR ''-''"
  using nat_to_dec_digits [of n] by (auto simp: is_digit_def)

lemma strtol_digits:
  assumes "s \<noteq> []" and "hd s \<noteq> CHR ''-''"
  shows "strtol s = clamp_long (int (dec_val (takeWhile is_digit s)))"
  using assms by (cases s) (simp_all add: strtol_def del: takeWhile.simps)

lemma strtol_nat_to_dec: "int n \<le> LONG_MAX \<Longrightarrow> strtol (nat_to_dec n) = int n"
proof -
  assume "int n \<le> LONG_MAX"
  have "hd (nat_to_dec n) \<noteq> CHR ''-''"
    using nat_to_dec_no_sign [of n] by (cases "nat_to_dec n") auto
  then have "strtol (nat_to_dec n) = clamp_long (int n)"
    by (simp add: strtol_digits takeWhile_digits)
  with \<open>int n \<le> LONG_MAX\<close> show ?thesis by (simp add: clamp_long_def LONG_MAX_def)
qed

lemma strtol_int_to_dec:
  assumes "- LONG_MAX - 1 \<le> i" and "i \<le> LONG_MAX"
  shows "strtol (int_to_dec i) = i"
proof (cases "i < 0")
  case True
  then show ?thesis
    using assms by (simp add: int_to_dec_def strtol_def takeWhile_digits clamp_long_def)
next
  case False
  then show ?thesis using assms by (simp add: int_to_dec_def strtol_nat_to_dec)
qed

text \<open>The characters of a printed number are the ones the parser accepts in a number.\<close>

definition num_char :: "char \<Rightarrow> bool" where
  "num_char c \<longleftrightarrow> is_digit c \<or> c = CHR ''-''"

lemma int_to_dec_chars: "\<forall>c \<in> set (int_to_dec i). num_char c"
  using nat_to_dec_digits by (auto simp: int_to_dec_def num_char_def)

lemma nat_to_dec_chars: "\<forall>c \<in> set (nat_to_dec n). num_char c"
  using nat_to_dec_digits by (auto simp: num_char_def)

lemma int_to_dec_nonempty [simp]: "int_to_dec i \<noteq> []"
  by (simp add: int_to_dec_def)

lemma int_to_dec_of_nat [simp]: "int_to_dec (int n) = nat_to_dec n"
  by (simp add: int_to_dec_def)

end
