(* ===== verification/RedisValue.thy ===== *)
theory RedisValue imports Decimal begin

text \<open>
  The reply values of the Redis client library, \<open>src/redisLib/lib/redisvalue.cpp\<close>: a variant of nil,
  integer, byte string and array, with an error flag.
\<close>

datatype RedisValue =
    NullV (rv_error: bool)
  | IntV int32 (rv_error: bool)
  | BytesV string (rv_error: bool)
  | ArrayV "RedisValue list" (rv_error: bool)

subsection \<open>Constructors\<close>

definition RedisValue_nil :: RedisValue where "RedisValue_nil = NullV False"

definition RedisValue_int :: "int32 \<Rightarrow> RedisValue" where "RedisValue_int i = IntV i False"

definition RedisValue_buf :: "string \<Rightarrow> RedisValue" where "RedisValue_buf s = BytesV s False"

definition RedisValue_error :: "string \<Rightarrow> RedisValue" where "RedisValue_error s = BytesV s True"

definition RedisValue_array :: "RedisValue list \<Rightarrow> RedisValue" where
  "RedisValue_array vs = ArrayV vs False"

subsection \<open>Observers\<close>

text \<open>\<open>castTo\<close> gives the default value of the asked type when the variant holds another.\<close>

definition toArray :: "RedisValue \<Rightarrow> RedisValue list" where
  "toArray v = (case v of ArrayV vs _ \<Rightarrow> vs | _ \<Rightarrow> [])"

definition toByteArray :: "RedisValue \<Rightarrow> string" where
  "toByteArray v = (case v of BytesV s _ \<Rightarrow> s | _ \<Rightarrow> [])"

definition toString :: "RedisValue \<Rightarrow> string" where
  "toString v = toByteArray v"

definition toInt :: "RedisValue \<Rightarrow> int32" where
  "toInt v = (case v of IntV i _ \<Rightarrow> i | _ \<Rightarrow> 0)"

definition isError :: "RedisValue \<Rightarrow> bool" where "isError v \<longleftrightarrow> rv_error v"

definition isOk :: "RedisValue \<Rightarrow> bool" where "isOk v \<longleftrightarrow> \<not> isError v"

definition isNull :: "RedisValue \<Rightarrow> bool" where
  "isNull v = (case v of NullV _ \<Rightarrow> True | _ \<Rightarrow> False)"

definition isInt :: "RedisValue \<Rightarrow> bool" where
  "isInt v = (case v of IntV _ _ \<Rightarrow> True | _ \<Rightarrow> False)"

definition isString :: "RedisValue \<Rightarrow> bool" where
  "isString v = (case v of BytesV _ _ \<Rightarrow> True | _ \<Rightarrow> False)"

definition isByteArray :: "RedisValue \<Rightarrow> bool" where
  "isByteArray v = (case v of BytesV _ _ \<Rightarrow> True | _ \<Rightarrow> False)"

definition isArray :: "RedisValue \<Rightarrow> bool" where
  "isArray v = (case v of ArrayV _ _ \<Rightarrow> True | _ \<Rightarrow> False)"

text \<open>\<open>operator ==\<close> compares the variants, so it ignores the error flags, also inside arrays.\<close>

fun rv_equal :: "RedisValue \<Rightarrow> RedisValue \<Rightarrow> bool" where
  "rv_equal (NullV _) (NullV _) = True"
| "rv_equal (IntV i _) (IntV j _) = (i = j)"
| "rv_equal (BytesV s _) (BytesV t _) = (s = t)"
| "rv_equal (ArrayV vs _) (ArrayV ws _) = list_all2 rv_equal vs ws"
| "rv_equal _ _ = False"

definition rv_not_equal :: "RedisValue \<Rightarrow> RedisValue \<Rightarrow> bool" where
  "rv_not_equal v w \<longleftrightarrow> \<not> rv_equal v w"

text \<open>
  \<open>inspect\<close> renders a value for diagnostics. In an array every element is followed by a comma and a
  blank; the last two characters are then cut and replaced by the bracket.
\<close>

fun inspect :: "RedisValue \<Rightarrow> string" where
  "inspect (NullV e) = (if e then ''error: '' else ''(null)'')"
| "inspect (IntV i e) = (if e then ''error: '' else int_to_dec (sint i))"
| "inspect (BytesV s e) = (if e then ''error: '' @ s else s)"
| "inspect (ArrayV vs e) =
     (if e then ''error: ''
      else if vs = [] then ''[]''
      else butlast (butlast (''['' @ concat (map (\<lambda>v. inspect v @ '', '') vs))) @ '']'')"

lemmas redis_observers [step_simps] =
  toArray_def toByteArray_def toString_def toInt_def isError_def isOk_def isNull_def isInt_def
  isString_def isByteArray_def isArray_def RedisValue_nil_def RedisValue_int_def
  RedisValue_buf_def RedisValue_error_def RedisValue_array_def

lemma rv_equal_refl: "rv_equal v v"
  by (induction v) (auto intro: list_all2_refl simp: list.rel_refl_strong)

end
