(* ===== verification/RedisParser.thy ===== *)
theory RedisParser imports RedisValue begin

text \<open>
  The incremental parser for Redis replies, \<open>src/redisLib/lib/redisparser.cpp\<close>. It is fed with
  whatever a read of the socket returned and keeps, between calls, the state of the token it is in
  and two stacks for the arrays it is in. \<open>parse\<close>, \<open>parseArray\<close> and \<open>parseChunk\<close> call each other; the fuel
  of \<open>parse\<close> bounds the depth of these calls; \<open>parse_runs\<close> shows that the length of the chunk is
  enough.
\<close>

subsection \<open>The parser object\<close>

datatype ParseResult = Completed | Incompleted | Error

datatype State =
    Start | String | StringLF | ErrorString | ErrorLF | Integer | IntegerLF
  | BulkSize | BulkSizeLF | Bulk | BulkCR | BulkLF | ArraySize | ArraySizeLF

text \<open>The tops of the two stacks are the heads of the lists.\<close>

record RedisParser =
  state :: State
  bulkSize :: int
  buf :: string
  arrayStack :: "int list"
  valueStack :: "RedisValue list"

definition RedisParser :: RedisParser where
  "RedisParser = \<lparr>state = Start, bulkSize = 0, buf = [], arrayStack = [], valueStack = []\<rparr>"

definition isChar :: "char \<Rightarrow> bool" where
  "isChar c \<longleftrightarrow> of_char c \<le> (127 :: nat)"

definition isControl :: "char \<Rightarrow> bool" where
  "isControl c \<longleftrightarrow> of_char c \<le> (31 :: nat) \<or> of_char c = (127 :: nat)"

text \<open>
  What one round of the loop of \<open>parseChunk\<close> does: go on to the next character after skipping some
  (\<open>i += k\<close> before \<open>++i\<close>), return after some more, or enter an array behind this character.
\<close>

datatype switch =
    Next nat RedisParser
  | Return nat ParseResult RedisParser
  | Enter RedisParser

definition fail :: "RedisParser \<Rightarrow> switch" where
  "fail p = Return 0 Error (p\<lparr>state := Start\<rparr>)"

definition complete :: "RedisValue \<Rightarrow> RedisParser \<Rightarrow> switch" where
  "complete v p = Return 0 Completed (p\<lparr>state := Start, valueStack := v # valueStack p\<rparr>)"

text \<open>The states that collect a line: printable characters up to the carriage return.\<close>

definition in_text :: "State \<Rightarrow> char \<Rightarrow> RedisParser \<Rightarrow> switch" where
  "in_text lf c p =
     (if c = CR then Next 0 (p\<lparr>state := lf\<rparr>)
      else if isChar c \<and> \<not> isControl c then Next 0 (p\<lparr>buf := buf p @ [c]\<rparr>)
      else fail p)"

text \<open>The states that collect a number: digits and minus signs, at least one.\<close>

definition in_number :: "State \<Rightarrow> char \<Rightarrow> RedisParser \<Rightarrow> switch" where
  "in_number lf c p =
     (if c = CR then (if buf p = [] then fail p else Next 0 (p\<lparr>state := lf\<rparr>))
      else if is_digit c \<or> c = CHR ''-'' then Next 0 (p\<lparr>buf := buf p @ [c]\<rparr>)
      else fail p)"

text \<open>
  The line feed after the size of a bulk string. What is already there of the string is copied at
  once; \<open>avail\<close> is the rest of the chunk behind the line feed.
\<close>

definition bulk_size_lf :: "string \<Rightarrow> RedisParser \<Rightarrow> switch" where
  "bulk_size_lf avail p =
     (let n = strtol (buf p); p = p\<lparr>bulkSize := n, buf := []\<rparr>
      in if n = -1 then complete RedisValue_nil p
         else if n = 0 then Next 0 (p\<lparr>state := BulkCR\<rparr>)
         else if n < 0 then fail p
         else
           let canRead = nat (min n (int (length avail)));
               p = (if 0 < canRead then p\<lparr>buf := take canRead avail\<rparr> else p)
           in if int (length avail) < n
              then Return canRead Incompleted (p\<lparr>bulkSize := n - int canRead, state := Bulk\<rparr>)
              else Next canRead (p\<lparr>state := BulkCR\<rparr>))"

text \<open>
  Inside a bulk string, with \<open>rest\<close> of the chunk from the current index \<open>i\<close> on. The inserted range
  is \<open>ptr + i\<close> to \<open>ptr + canRead\<close>, as the code has it, so it starts at \<open>i\<close> but does not end at
  \<open>i + canRead\<close>; the state is only ever entered with \<open>i = 0\<close>.
\<close>

definition in_bulk :: "nat \<Rightarrow> string \<Rightarrow> RedisParser \<Rightarrow> switch" where
  "in_bulk i rest p =
     (let canRead = nat (min (int (length rest)) (bulkSize p));
          p = p\<lparr>buf := buf p @ take (canRead - i) rest, bulkSize := bulkSize p - int canRead\<rparr>
      in if 0 < bulkSize p then Return (canRead - 1) Incompleted p
         else if length rest = canRead
         then Return (canRead - 1) Incompleted (p\<lparr>state := BulkCR\<rparr>)
         else Next (canRead - 1) (p\<lparr>state := BulkCR\<rparr>))"

definition array_size_lf :: "RedisParser \<Rightarrow> switch" where
  "array_size_lf p =
     (let n = strtol (buf p); p = p\<lparr>buf := []\<rparr>
      in if n = -1 \<or> n = 0 then complete (RedisValue_array []) p
         else if n < 0 then fail p
         else Enter (p\<lparr>state := Start, arrayStack := n # arrayStack p,
                       valueStack := RedisValue_array [] # valueStack p\<rparr>))"

definition start :: "char \<Rightarrow> RedisParser \<Rightarrow> switch" where
  "start c p =
     (let p = p\<lparr>buf := []\<rparr>
      in if c = CHR ''+'' then Next 0 (p\<lparr>state := String\<rparr>)
         else if c = CHR ''-'' then Next 0 (p\<lparr>state := ErrorString\<rparr>)
         else if c = CHR '':'' then Next 0 (p\<lparr>state := Integer\<rparr>)
         else if c = CHR ''$'' then Next 0 (p\<lparr>state := BulkSize, bulkSize := 0\<rparr>)
         else if c = CHR ''*'' then Next 0 (p\<lparr>state := ArraySize\<rparr>)
         else fail p)"

definition chunk_switch :: "nat \<Rightarrow> char \<Rightarrow> string \<Rightarrow> RedisParser \<Rightarrow> switch" where
  "chunk_switch i c cs p =
     (case state p of
        Start \<Rightarrow> start c p
      | String \<Rightarrow> in_text StringLF c p
      | ErrorString \<Rightarrow> in_text ErrorLF c p
      | BulkSize \<Rightarrow> in_number BulkSizeLF c p
      | StringLF \<Rightarrow> if c = LF then complete (RedisValue_buf (buf p)) p else fail p
      | ErrorLF \<Rightarrow> if c = LF then complete (RedisValue_error (buf p)) p else fail p
      | BulkSizeLF \<Rightarrow> if c = LF then bulk_size_lf cs p else fail p
      | Bulk \<Rightarrow> in_bulk i (c # cs) p
      | BulkCR \<Rightarrow> if c = CR then Next 0 (p\<lparr>state := BulkLF\<rparr>) else fail p
      | BulkLF \<Rightarrow> if c = LF then complete (RedisValue_buf (buf p)) p else fail p
      | ArraySize \<Rightarrow> in_number ArraySizeLF c p
      | ArraySizeLF \<Rightarrow> if c = LF then array_size_lf p else fail p
      | Integer \<Rightarrow> in_number IntegerLF c p
      | IntegerLF \<Rightarrow>
          if c = LF then complete (RedisValue_int (word_of_int (strtol (buf p)))) (p\<lparr>buf := []\<rparr>)
          else fail p)"

text \<open>The loop of \<open>parseChunk\<close> up to a return or the entry of an array, with the index reached.\<close>

datatype scanned =
    Scanned nat ParseResult RedisParser
  | ScannedArray nat RedisParser

function scan :: "nat \<Rightarrow> string \<Rightarrow> RedisParser \<Rightarrow> scanned" where
  "scan i [] p = Scanned i Incompleted p"
| "scan i (c # cs) p =
     (case chunk_switch i c cs p of
        Next k p' \<Rightarrow> scan (i + k + 1) (drop k cs) p'
      | Return k r p' \<Rightarrow> Scanned (i + k + 1) r p'
      | Enter p' \<Rightarrow> ScannedArray (i + 1) p')"
  by pat_completeness auto
termination by (relation "measure (\<lambda>(i, cs, p). length cs)") auto

subsection \<open>The three parse functions\<close>

text \<open>
  The result of a call: the number of characters used, the verdict and the parser afterwards; or a
  failed assertion (a read of an empty stack); or no fuel left.
\<close>

datatype parsed =
    Parsed nat ParseResult RedisParser
  | Assertion
  | OutOfFuel

definition push_array :: "RedisValue list \<Rightarrow> RedisParser \<Rightarrow> RedisParser" where
  "push_array arrayValue p = p\<lparr>valueStack := RedisValue_array arrayValue # valueStack p\<rparr>"

definition push_size :: "int \<Rightarrow> RedisParser \<Rightarrow> RedisParser" where
  "push_size n p = p\<lparr>arrayStack := n # arrayStack p\<rparr>"

text \<open>
  The functions call each other through \<open>parse\<close>, which they take as the argument \<open>P\<close>; the knot is
  tied below. \<open>array_loop\<close> is the \<open>for\<close> loop of \<open>parseArray\<close> with \<open>arraySize - x = todo\<close> elements to
  go, and \<open>array_rest\<close> what \<open>parseArray\<close> does behind the resumption of an inner array.
\<close>

fun array_loop ::
  "(string \<Rightarrow> RedisParser \<Rightarrow> parsed) \<Rightarrow> nat \<Rightarrow> RedisValue list \<Rightarrow> nat \<Rightarrow> string \<Rightarrow> RedisParser \<Rightarrow> parsed" where
  "array_loop P 0 arrayValue i bs p = Parsed i Completed (push_array arrayValue p)"
| "array_loop P (Suc todo) arrayValue i bs p =
     (case P (drop i bs) p of
        Parsed n r p' \<Rightarrow>
          (case r of
             Error \<Rightarrow> Parsed (i + n) Error p'
           | Incompleted \<Rightarrow>
               Parsed (i + n) Incompleted (push_size (int (Suc todo)) (push_array arrayValue p'))
           | Completed \<Rightarrow>
               (case valueStack p' of
                  [] \<Rightarrow> Assertion
                | w # ws \<Rightarrow>
                    array_loop P todo (arrayValue @ [w]) (i + n) bs (p'\<lparr>valueStack := ws\<rparr>)))
      | other \<Rightarrow> other)"

text \<open>A negative size would leave the loop with \<open>x \<noteq> arraySize\<close>, which the code asserts against.\<close>

definition array_rest ::
  "(string \<Rightarrow> RedisParser \<Rightarrow> parsed) \<Rightarrow> int \<Rightarrow> RedisValue list \<Rightarrow> nat \<Rightarrow> string \<Rightarrow> RedisParser \<Rightarrow> parsed" where
  "array_rest P arraySize arrayValue i bs p =
     (if i = length bs
      then (if arraySize = 0 then Parsed i Completed (push_array arrayValue p)
            else Parsed i Incompleted (push_size arraySize (push_array arrayValue p)))
      else if arraySize < 0 then Assertion
      else array_loop P (nat arraySize) arrayValue i bs p)"

function parseArray ::
  "(string \<Rightarrow> RedisParser \<Rightarrow> parsed) \<Rightarrow> string \<Rightarrow> RedisParser \<Rightarrow> parsed" where
  "parseArray P bs p =
     (case (arrayStack p, valueStack p) of
        (arraySize # as, v # vs) \<Rightarrow>
          let arrayValue = toArray v; p1 = p\<lparr>arrayStack := as, valueStack := vs\<rparr>
          in if as \<noteq> []
             then (case parseArray P bs p1 of
                     Parsed n r p' \<Rightarrow>
                       if r \<noteq> Completed
                       then Parsed n r (push_size arraySize (push_array arrayValue p'))
                       else (case valueStack p' of
                               [] \<Rightarrow> Assertion
                             | w # ws \<Rightarrow> array_rest P (arraySize - 1) (arrayValue @ [w]) n bs
                                          (p'\<lparr>valueStack := ws\<rparr>))
                   | other \<Rightarrow> other)
             else array_rest P arraySize arrayValue 0 bs p1
      | _ \<Rightarrow> Assertion)"
  by pat_completeness auto
termination
  by (relation "measure (\<lambda>(P, bs, p). length (arrayStack p))") (auto, metis length_Cons lessI)

declare parseArray.simps [simp del]

definition parseChunk ::
  "(string \<Rightarrow> RedisParser \<Rightarrow> parsed) \<Rightarrow> string \<Rightarrow> RedisParser \<Rightarrow> parsed" where
  "parseChunk P bs p =
     (case scan 0 bs p of
        Scanned n r p' \<Rightarrow> Parsed n r p'
      | ScannedArray n p' \<Rightarrow>
          if n \<noteq> length bs
          then (case parseArray P (drop n bs) p' of
                  Parsed m r p'' \<Rightarrow> Parsed (m + n) r p''
                | other \<Rightarrow> other)
          else Parsed n Incompleted p')"

text \<open>\<open>parse\<close> itself; each call through the loop of \<open>parseArray\<close> costs one unit of fuel.\<close>

primrec parse_f :: "nat \<Rightarrow> string \<Rightarrow> RedisParser \<Rightarrow> parsed" where
  "parse_f 0 bs p = OutOfFuel"
| "parse_f (Suc f) bs p =
     (if arrayStack p \<noteq> [] then parseArray (parse_f f) bs p else parseChunk (parse_f f) bs p)"

definition parse :: "string \<Rightarrow> RedisParser \<Rightarrow> parsed" where
  "parse bs p = parse_f (length bs + 2) bs p"

text \<open>\<open>result\<close> pops the value that a completed parse left; it asserts that there is one.\<close>

definition parser_result :: "RedisParser \<Rightarrow> (RedisValue \<times> RedisParser) option" where
  "parser_result p =
     (case valueStack p of [] \<Rightarrow> None | v # vs \<Rightarrow> Some (v, p\<lparr>valueStack := vs\<rparr>))"

end
