(* ===== verification/RespMachine.thy ===== *)
theory RespMachine imports RedisParser begin

text \<open>
  The specification of the reply parser: an automaton that reads one character at a time. Its state
  is the token it is in and, innermost first, the arrays it is in with the number of elements still
  to come. The parser of \<open>RedisParser\<close> computes it, chunk by chunk; so the way the network cuts a
  reply into chunks does not matter.
\<close>

subsection \<open>Tokens\<close>

datatype token =
    TStart
  | TText bool string
  | TTextLF bool string
  | TInt string
  | TIntLF string
  | TSize string
  | TSizeLF string
  | TBulk nat string
  | TBulkCR string
  | TBulkLF string
  | TCount string
  | TCountLF string

text \<open>The flag of a text token says whether it is an error reply.\<close>

datatype token_step =
    TMore token
  | TVal RedisValue
  | TArr nat
  | TFail

definition text_step :: "bool \<Rightarrow> string \<Rightarrow> char \<Rightarrow> token_step" where
  "text_step e s c =
     (if c = CR then TMore (TTextLF e s)
      else if isChar c \<and> \<not> isControl c then TMore (TText e (s @ [c])) else TFail)"

definition number_step :: "(string \<Rightarrow> token) \<Rightarrow> (string \<Rightarrow> token) \<Rightarrow> string \<Rightarrow> char \<Rightarrow> token_step" where
  "number_step tok lf s c =
     (if c = CR then (if s = [] then TFail else TMore (lf s))
      else if num_char c then TMore (tok (s @ [c])) else TFail)"

definition size_step :: "int \<Rightarrow> token_step" where
  "size_step n =
     (if n = -1 then TVal RedisValue_nil else if n = 0 then TMore (TBulkCR [])
      else if n < 0 then TFail else TMore (TBulk (nat n) []))"

definition count_step :: "int \<Rightarrow> token_step" where
  "count_step n =
     (if n = -1 \<or> n = 0 then TVal (RedisValue_array []) else if n < 0 then TFail else TArr (nat n))"

definition start_step :: "char \<Rightarrow> token_step" where
  "start_step c =
     (if c = CHR ''+'' then TMore (TText False [])
      else if c = CHR ''-'' then TMore (TText True [])
      else if c = CHR '':'' then TMore (TInt [])
      else if c = CHR ''$'' then TMore (TSize [])
      else if c = CHR ''*'' then TMore (TCount []) else TFail)"

fun tstep :: "token \<Rightarrow> char \<Rightarrow> token_step" where
  "tstep TStart c = start_step c"
| "tstep (TText e s) c = text_step e s c"
| "tstep (TTextLF e s) c = (if c = LF then TVal (BytesV s e) else TFail)"
| "tstep (TInt s) c = number_step TInt TIntLF s c"
| "tstep (TIntLF s) c =
     (if c = LF then TVal (RedisValue_int (word_of_int (strtol s))) else TFail)"
| "tstep (TSize s) c = number_step TSize TSizeLF s c"
| "tstep (TSizeLF s) c = (if c = LF then size_step (strtol s) else TFail)"
| "tstep (TBulk n s) c = TMore (if n \<le> 1 then TBulkCR (s @ [c]) else TBulk (n - 1) (s @ [c]))"
| "tstep (TBulkCR s) c = (if c = CR then TMore (TBulkLF s) else TFail)"
| "tstep (TBulkLF s) c = (if c = LF then TVal (RedisValue_buf s) else TFail)"
| "tstep (TCount s) c = number_step TCount TCountLF s c"
| "tstep (TCountLF s) c = (if c = LF then count_step (strtol s) else TFail)"

subsection \<open>The automaton\<close>

type_synonym frames = "(nat \<times> RedisValue list) list"

datatype outcome =
    More token frames
  | Done RedisValue
  | Fail

text \<open>A finished value completes the arrays whose last element it is.\<close>

fun push_value :: "RedisValue \<Rightarrow> frames \<Rightarrow> outcome" where
  "push_value v [] = Done v"
| "push_value v ((n, vs) # fs) =
     (if n \<le> 1 then push_value (RedisValue_array (vs @ [v])) fs
      else More TStart ((n - 1, vs @ [v]) # fs))"

definition mstep :: "token \<Rightarrow> frames \<Rightarrow> char \<Rightarrow> outcome" where
  "mstep t fs c =
     (case tstep t c of
        TMore t' \<Rightarrow> More t' fs
      | TVal v \<Rightarrow> push_value v fs
      | TArr n \<Rightarrow> More TStart ((n, []) # fs)
      | TFail \<Rightarrow> Fail)"

text \<open>A run stops behind the character that completes the reply, or makes it ill-formed.\<close>

fun run :: "outcome \<Rightarrow> string \<Rightarrow> nat \<times> outcome" where
  "run (More t fs) (c # cs) = (let (n, r) = run (mstep t fs c) cs in (Suc n, r))"
| "run r _ = (0, r)"

lemma run_final [simp]: "run (Done v) cs = (0, Done v)" "run Fail cs = (0, Fail)"
  by (cases cs; simp)+

lemma run_Nil [simp]: "run r [] = (0, r)"
  by (cases r) simp_all

lemma run_le: "fst (run r cs) \<le> length cs"
  by (induction r cs rule: run.induct) (auto simp: split_beta)

lemma run_more_all: "run r cs = (n, More t fs) \<Longrightarrow> n = length cs"
  by (induction r cs arbitrary: n rule: run.induct) (auto simp: split_beta prod_eq_iff)

text \<open>Reading in two pieces: the rest of the second piece is left unread once the reply is complete.\<close>

lemma run_append:
  "run r (as @ bs) =
     (case run r as of (n, More t fs) \<Rightarrow> let (m, r') = run (More t fs) bs in (n + m, r')
                     | (n, r') \<Rightarrow> (n, r'))"
proof (induction r as rule: run.induct)
  case (1 t fs c cs)
  then show ?case by (auto simp: split_beta split: outcome.splits)
qed (auto simp: split_beta split: outcome.splits)

text \<open>Arrays around the ones a run is in stay as they are until the inner value is complete.\<close>

fun under :: "frames \<Rightarrow> outcome \<Rightarrow> outcome" where
  "under gs (More t fs) = More t (fs @ gs)"
| "under gs (Done v) = push_value v gs"
| "under gs Fail = Fail"

lemma push_value_under: "push_value v (fs @ gs) = under gs (push_value v fs)"
  by (induction v fs rule: push_value.induct) auto

lemma mstep_under: "mstep t (fs @ gs) c = under gs (mstep t fs c)"
  by (simp add: mstep_def push_value_under split: token_step.splits)

lemma run_under:
  "run (under gs r) cs =
     (case run r cs of
        (n, Done v) \<Rightarrow> let (m, r') = run (push_value v gs) (drop n cs) in (n + m, r')
      | (n, r') \<Rightarrow> (n, under gs r'))"
proof (induction r cs rule: run.induct)
  case (1 t fs c cs)
  show ?case
    using 1 by (simp add: mstep_under split_beta split: outcome.splits)
qed (auto simp: split_beta split: outcome.splits)

subsection \<open>Reading what a server sends\<close>

text \<open>
  The reply protocol, as the encoding of a value: nil and byte strings as bulk strings, an error as
  a line, an integer as a line, an array as its size and its elements.
\<close>

fun encode :: "RedisValue \<Rightarrow> string" where
  "encode (NullV _) = ''$-1'' @ crlf"
| "encode (IntV i _) = '':'' @ int_to_dec (sint i) @ crlf"
| "encode (BytesV s e) =
     (if e then ''-'' @ s @ crlf else ''$'' @ nat_to_dec (length s) @ crlf @ s @ crlf)"
| "encode (ArrayV vs _) = ''*'' @ nat_to_dec (length vs) @ crlf @ concat (map encode vs)"

text \<open>
  The values the protocol can carry: error texts are printable lines, only they carry the error flag,
  and the sizes are in the range of \<open>long\<close>.
\<close>

definition printable :: "char \<Rightarrow> bool" where
  "printable c \<longleftrightarrow> isChar c \<and> \<not> isControl c"

fun sendable :: "RedisValue \<Rightarrow> bool" where
  "sendable (NullV e) = (\<not> e)"
| "sendable (IntV i e) = (\<not> e)"
| "sendable (BytesV s e) =
     (if e then list_all printable s else int (length s) \<le> LONG_MAX)"
| "sendable (ArrayV vs e) =
     (\<not> e \<and> int (length vs) \<le> LONG_MAX \<and> list_all sendable vs)"

definition ahead :: "nat \<Rightarrow> nat \<times> outcome \<Rightarrow> nat \<times> outcome" where
  "ahead k x = (k + fst x, snd x)"

lemma ahead_ahead [simp]: "ahead k (ahead l x) = ahead (k + l) x"
  by (simp add: ahead_def)

lemma run_step:
  "run (More t fs) (c # cs) = ahead 1 (run (mstep t fs c) cs)"
  by (simp add: ahead_def split_beta)

lemma run_chars:
  assumes "tstep t c = TMore t'"
  shows "run (More t fs) (c # cs) = ahead 1 (run (More t' fs) cs)"
  using assms by (simp add: run_step mstep_def del: run.simps)

lemma num_char_not_CR: "num_char c \<Longrightarrow> c \<noteq> CR"
  by (auto simp: num_char_def is_digit_def)

lemma printable_not_CR: "printable c \<Longrightarrow> c \<noteq> CR"
  by (auto simp: printable_def isControl_def)

lemma run_number:
  assumes "\<And>s c. tstep (tok s) c = number_step tok lf s c"
    and "\<forall>c \<in> set ds. num_char c" and "s @ ds \<noteq> []"
  shows "run (More (tok s) fs) (ds @ CR # rest) =
    ahead (Suc (length ds)) (run (More (lf (s @ ds)) fs) rest)"
  using assms(2,3)
proof (induction ds arbitrary: s)
  case Nil
  then show ?case by (simp add: run_chars assms(1) number_step_def del: run.simps)
next
  case (Cons d ds)
  then have "run (More (tok s) fs) ((d # ds) @ CR # rest) =
      ahead 1 (run (More (tok (s @ [d])) fs) (ds @ CR # rest))"
    by (simp add: run_chars assms(1) number_step_def num_char_not_CR del: run.simps)
  with Cons show ?case by simp
qed

lemma run_text:
  assumes "list_all printable ds"
  shows "run (More (TText e s) fs) (ds @ CR # rest) =
    ahead (Suc (length ds)) (run (More (TTextLF e (s @ ds)) fs) rest)"
  using assms
proof (induction ds arbitrary: s)
  case Nil
  then show ?case by (simp add: run_chars text_step_def del: run.simps)
next
  case (Cons d ds)
  then have "printable d" by simp
  then have "tstep (TText e s) d = TMore (TText e (s @ [d]))"
    using printable_not_CR by (auto simp: text_step_def printable_def)
  then have "run (More (TText e s) fs) ((d # ds) @ CR # rest) =
      ahead 1 (run (More (TText e (s @ [d])) fs) (ds @ CR # rest))"
    by (simp add: run_chars del: run.simps)
  with Cons show ?case by simp
qed

text \<open>A bulk string is read whole, or as far as the text goes.\<close>

lemma run_bulk:
  assumes "0 < n"
  shows "run (More (TBulk n s) fs) cs =
    (if length cs < n then (length cs, More (TBulk (n - length cs) (s @ cs)) fs)
     else ahead n (run (More (TBulkCR (s @ take n cs)) fs) (drop n cs)))"
  using assms
proof (induction cs arbitrary: n s)
  case Nil
  then show ?case by simp
next
  case (Cons c cs)
  show ?case
  proof (cases "n = 1")
    case True
    then show ?thesis by (simp add: run_chars del: run.simps)
  next
    case False
    with Cons.prems have n: "1 < n" by simp
    then have "run (More (TBulk n s) fs) (c # cs) =
        ahead 1 (run (More (TBulk (n - 1) (s @ [c])) fs) cs)"
      by (simp add: run_chars del: run.simps)
    also have "\<dots> = ahead 1
       (if length cs < n - 1
        then (length cs, More (TBulk (n - 1 - length cs) ((s @ [c]) @ cs)) fs)
        else ahead (n - 1) (run (More (TBulkCR ((s @ [c]) @ take (n - 1) cs)) fs) (drop (n - 1) cs)))"
      using n by (subst Cons.IH) simp_all
    finally show ?thesis using n by (auto simp: ahead_def take_Cons' drop_Cons')
  qed
qed

lemma run_LF:
  assumes "tstep t LF = TVal v"
  shows "run (More t fs) (LF # rest) = ahead 1 (run (push_value v fs) rest)"
  using assms by (simp add: run_step mstep_def del: run.simps)

lemma run_bulk_encoded:
  assumes "int (length s) \<le> LONG_MAX"
  shows "run (More TStart fs) (''$'' @ nat_to_dec (length s) @ crlf @ s @ crlf @ rest) =
    ahead (length (encode (BytesV s False))) (run (push_value (RedisValue_buf s) fs) rest)"
proof -
  let ?d = "nat_to_dec (length s)"
  have "run (More TStart fs) (''$'' @ ?d @ crlf @ s @ crlf @ rest) =
      ahead 1 (run (More (TSize []) fs) (?d @ CR # LF # s @ crlf @ rest))"
    by (simp add: run_chars start_step_def del: run.simps)
  also have "\<dots> = ahead (length ?d + 2) (run (More (TSizeLF ?d) fs) (LF # s @ crlf @ rest))"
    using nat_to_dec_chars by (subst run_number [where lf = TSizeLF]) simp_all
  also have "run (More (TSizeLF ?d) fs) (LF # s @ crlf @ rest) =
      ahead (Suc (length s)) (run (More (TBulkCR s) fs) (crlf @ rest))"
  proof (cases "s = []")
    case True
    then show ?thesis
      using assms by (simp add: run_chars size_step_def strtol_nat_to_dec del: run.simps)
  next
    case False
    then have "tstep (TSizeLF ?d) LF = TMore (TBulk (length s) [])"
      using assms by (simp add: size_step_def strtol_nat_to_dec)
    with False show ?thesis by (simp add: run_chars run_bulk del: run.simps)
  qed
  also have "run (More (TBulkCR s) fs) (crlf @ rest) =
      ahead 2 (run (push_value (RedisValue_buf s) fs) rest)"
    by (simp add: run_chars run_LF numeral_2_eq_2 del: run.simps)
  finally show ?thesis by (simp add: add.commute add.left_commute)
qed

lemma run_encode:
  "sendable v \<Longrightarrow> run (More TStart fs) (encode v @ rest) =
     ahead (length (encode v)) (run (push_value v fs) rest)"
proof (induction v arbitrary: fs rest)
  case (NullV e)
  have "strtol ''-1'' = -1" by code_simp
  then show ?case
    using NullV
    by (simp add: run_chars run_LF start_step_def number_step_def num_char_def is_digit_def
        size_step_def RedisValue_nil_def del: run.simps)
next
  case (IntV i e)
  have b: "- LONG_MAX - 1 \<le> sint i" "sint i \<le> LONG_MAX"
    using sint_ge [of i] sint_lt [of i] by (simp_all add: LONG_MAX_def)
  have "run (More (TInt []) fs) (int_to_dec (sint i) @ CR # LF # rest) =
      ahead (Suc (length (int_to_dec (sint i))))
        (run (More (TIntLF (int_to_dec (sint i))) fs) (LF # rest))"
    using int_to_dec_chars by (subst run_number [where lf = TIntLF]) simp_all
  then show ?case
    using IntV b
    by (simp add: run_chars run_LF start_step_def strtol_int_to_dec RedisValue_int_def del: run.simps)
next
  case (BytesV s e)
  show ?case
  proof (cases e)
    case True
    then show ?thesis
      using BytesV run_text [of s True "[]" fs "LF # rest"]
      by (simp add: run_chars run_LF start_step_def del: run.simps)
  next
    case False
    then show ?thesis
      using BytesV run_bulk_encoded [of s fs rest] by (simp add: RedisValue_buf_def)
  qed
next
  case (ArrayV vs e)
  let ?d = "nat_to_dec (length vs)"
  have items: "run (More TStart ((length ws, us) # fs)) (concat (map encode ws) @ rest) =
      ahead (length (concat (map encode ws))) (run (push_value (RedisValue_array (us @ ws)) fs) rest)"
    if "ws \<noteq> []" "set ws \<subseteq> set vs" "list_all sendable ws" for ws us
    using that
  proof (induction ws arbitrary: us)
    case (Cons w ws)
    then have "run (More TStart ((length (w # ws), us) # fs)) (encode w @ concat (map encode ws) @ rest) =
        ahead (length (encode w))
          (run (push_value w ((length (w # ws), us) # fs)) (concat (map encode ws) @ rest))"
      by (intro ArrayV.IH) auto
    with Cons show ?case by (cases "ws = []") (auto simp: ahead_def)
  qed simp
  have "run (More (TCount []) fs) (?d @ CR # LF # concat (map encode vs) @ rest) =
      ahead (Suc (length ?d)) (run (More (TCountLF ?d) fs) (LF # concat (map encode vs) @ rest))"
    using nat_to_dec_chars by (subst run_number [where lf = TCountLF]) simp_all
  moreover have "run (More (TCountLF ?d) fs) (LF # concat (map encode vs) @ rest) =
      ahead (Suc (length (concat (map encode vs)))) (run (push_value (RedisValue_array vs) fs) rest)"
  proof (cases "vs = []")
    case True
    then show ?thesis
      using ArrayV.prems by (simp add: run_LF count_step_def strtol_nat_to_dec del: run.simps)
  next
    case False
    then have "tstep (TCountLF ?d) LF = TArr (length vs)"
      using ArrayV.prems by (simp add: count_step_def strtol_nat_to_dec)
    with False ArrayV.prems show ?thesis
      using items [of vs "[]"] by (simp add: run_step mstep_def list_all_iff del: run.simps)
  qed
  ultimately show ?case
    using ArrayV.prems
    by (simp add: run_chars start_step_def RedisValue_array_def del: run.simps)
qed

declare run.simps [simp del]
declare run_Nil [simp] run_final [simp]

end
