(* ===== verification/ParserRefinement.thy ===== *)
theory ParserRefinement imports RespMachine begin

text \<open>
  The parser refines the automaton: what \<open>parse\<close> makes of a chunk is what the automaton makes of its
  characters, one by one, from the state that the parser's fields stand for.
\<close>

subsection \<open>The abstraction\<close>

definition abs_token :: "RedisParser \<Rightarrow> token" where
  "abs_token p =
     (case state p of
        Start \<Rightarrow> TStart
      | String \<Rightarrow> TText False (buf p) | StringLF \<Rightarrow> TTextLF False (buf p)
      | ErrorString \<Rightarrow> TText True (buf p) | ErrorLF \<Rightarrow> TTextLF True (buf p)
      | Integer \<Rightarrow> TInt (buf p) | IntegerLF \<Rightarrow> TIntLF (buf p)
      | BulkSize \<Rightarrow> TSize (buf p) | BulkSizeLF \<Rightarrow> TSizeLF (buf p)
      | Bulk \<Rightarrow> TBulk (nat (bulkSize p)) (buf p)
      | BulkCR \<Rightarrow> TBulkCR (buf p) | BulkLF \<Rightarrow> TBulkLF (buf p)
      | ArraySize \<Rightarrow> TCount (buf p) | ArraySizeLF \<Rightarrow> TCountLF (buf p))"

definition token_ok :: "RedisParser \<Rightarrow> bool" where
  "token_ok p \<longleftrightarrow> (state p = Bulk \<longrightarrow> 0 < bulkSize p)"

text \<open>The outermost array is on top of the two stacks, so the frames are the reversed stacks.\<close>

definition abs_frames :: "RedisParser \<Rightarrow> frames" where
  "abs_frames p = rev (zip (map nat (arrayStack p)) (map toArray (valueStack p)))"

definition parser_ok :: "RedisParser \<Rightarrow> bool" where
  "parser_ok p \<longleftrightarrow> token_ok p \<and> length (arrayStack p) = length (valueStack p) \<and>
     (\<forall>n \<in> set (arrayStack p). 0 < n)"

subsection \<open>One round of the character loop\<close>

definition same_stacks :: "RedisParser \<Rightarrow> RedisParser \<Rightarrow> bool" where
  "same_stacks p p' \<longleftrightarrow> arrayStack p' = arrayStack p \<and> valueStack p' = valueStack p"

text \<open>
  \<open>returns t cs p m r p'\<close>: from token \<open>t\<close>, the first \<open>m\<close> characters of \<open>cs\<close> justify the verdict \<open>r\<close> and
  the parser \<open>p'\<close>, in any context of frames; \<open>enters\<close> is the same for the entry of an array.
\<close>

definition returns ::
  "token \<Rightarrow> string \<Rightarrow> RedisParser \<Rightarrow> nat \<Rightarrow> ParseResult \<Rightarrow> RedisParser \<Rightarrow> bool" where
  "returns t cs p m r p' \<longleftrightarrow>
     m \<le> length cs \<and> arrayStack p' = arrayStack p \<and>
     (case r of
        Incompleted \<Rightarrow> m = length cs \<and> valueStack p' = valueStack p \<and> token_ok p' \<and>
          (\<forall>fs. run (More t fs) cs = (m, More (abs_token p') fs))
      | Completed \<Rightarrow> 0 < m \<and> state p' = Start \<and>
          (\<exists>v. valueStack p' = v # valueStack p \<and>
               (\<forall>fs. run (More t fs) cs = ahead m (run (push_value v fs) (drop m cs))))
      | Error \<Rightarrow> (\<forall>fs. run (More t fs) cs = (m, Fail)))"

definition enters :: "token \<Rightarrow> string \<Rightarrow> RedisParser \<Rightarrow> nat \<Rightarrow> RedisParser \<Rightarrow> bool" where
  "enters t cs p m p' \<longleftrightarrow>
     0 < m \<and> m \<le> length cs \<and> state p' = Start \<and>
     (\<exists>k. 0 < k \<and> arrayStack p' = k # arrayStack p \<and>
          valueStack p' = RedisValue_array [] # valueStack p \<and>
          (\<forall>fs. run (More t fs) cs =
                 ahead m (run (More TStart ((nat k, []) # fs)) (drop m cs))))"

definition goes_on :: "token \<Rightarrow> string \<Rightarrow> RedisParser \<Rightarrow> nat \<Rightarrow> RedisParser \<Rightarrow> bool" where
  "goes_on t cs p m p' \<longleftrightarrow>
     0 < m \<and> m \<le> length cs \<and> same_stacks p p' \<and> state p' \<noteq> Bulk \<and>
     (\<forall>fs. run (More t fs) cs = ahead m (run (More (abs_token p') fs) (drop m cs)))"

fun switch_ok :: "token \<Rightarrow> string \<Rightarrow> RedisParser \<Rightarrow> switch \<Rightarrow> bool" where
  "switch_ok t cs p (Next k p') = goes_on t cs p (k + 1) p'"
| "switch_ok t cs p (Return k r p') = returns t cs p (k + 1) r p'"
| "switch_ok t cs p (Enter p') = enters t cs p 1 p'"

lemma fail_ok: "tstep t c = TFail \<Longrightarrow> same_stacks q p \<Longrightarrow> switch_ok t (c # cs) q (fail p)"
  by (simp add: fail_def returns_def same_stacks_def mstep_def run_step ahead_def)

lemma complete_ok:
  "tstep t c = TVal v \<Longrightarrow> same_stacks q p \<Longrightarrow> switch_ok t (c # cs) q (complete v p)"
  by (simp add: complete_def returns_def same_stacks_def run_step mstep_def)

lemma next_ok:
  assumes "tstep t c = TMore (abs_token p)" and "same_stacks q p" and "state p \<noteq> Bulk"
  shows "goes_on t (c # cs) q (Suc 0) p"
  using assms by (simp add: goes_on_def run_chars)

lemma text_ok:
  assumes "t = TText e (buf p)" and "abs_token p = t"
    and "lf = (if e then ErrorLF else StringLF)"
  shows "switch_ok t (c # cs) p (in_text lf c p)"
  using assms
  by (auto simp: in_text_def text_step_def abs_token_def same_stacks_def
      split: State.splits intro!: next_ok fail_ok)

lemma num_char_iff: "num_char c \<longleftrightarrow> is_digit c \<or> c = CHR ''-''"
  by (simp add: num_char_def)

lemma number_ok:
  assumes "\<And>s c. tstep (tok s) c = number_step tok tlf s c" and "abs_token p = tok (buf p)"
    and "abs_token (p\<lparr>buf := buf p @ [c]\<rparr>) = tok (buf p @ [c])"
    and "abs_token (p\<lparr>state := lf\<rparr>) = tlf (buf p)" and "lf \<noteq> Bulk" and "state p \<noteq> Bulk"
  shows "switch_ok (tok (buf p)) (c # cs) p (in_number lf c p)"
  using assms(2-6)
  by (auto simp: in_number_def number_step_def assms(1) num_char_iff same_stacks_def
      intro!: next_ok fail_ok)

lemma bulk_size_ok:
  assumes "state p = BulkSizeLF"
  shows "switch_ok (TSizeLF (buf p)) (LF # cs) p (bulk_size_lf cs p)"
proof -
  let ?n = "strtol (buf p)"
  consider "?n = -1" | "?n = 0" | "?n < 0" "?n \<noteq> -1" | "0 < ?n" by linarith
  then show ?thesis
  proof cases
    case 4
    let ?k = "min (nat ?n) (length cs)"
    have k: "nat (min ?n (int (length cs))) = ?k" by (simp add: min_def nat_le_iff)
    have t: "tstep (TSizeLF (buf p)) LF = TMore (TBulk (nat ?n) [])"
      using 4 by (simp add: size_step_def)
    have r: "run (More (TSizeLF (buf p)) fs) (LF # cs) =
       (if length cs < nat ?n then (Suc (length cs), More (TBulk (nat ?n - length cs) cs) fs)
        else ahead (Suc (nat ?n)) (run (More (TBulkCR (take (nat ?n) cs)) fs) (drop (nat ?n) cs)))" for fs
      using 4 by (auto simp: run_chars [OF t] run_bulk ahead_def)
    show ?thesis
    proof (cases "int (length cs) < ?n")
      case True
      then have "bulk_size_lf cs p = Return (length cs) Incompleted
          (p\<lparr>bulkSize := ?n - int (length cs), buf := cs, state := Bulk\<rparr>)"
        using 4 by (auto simp: bulk_size_lf_def Let_def)
      moreover have "length cs < nat ?n" using True by simp
      ultimately show ?thesis using True 4
        by (simp add: returns_def r token_ok_def abs_token_def nat_diff_distrib')
    next
      case False
      then have "bulk_size_lf cs p = Next (nat ?n)
          (p\<lparr>bulkSize := ?n, buf := take (nat ?n) cs, state := BulkCR\<rparr>)"
        using 4 by (auto simp: bulk_size_lf_def Let_def)
      moreover have "nat ?n \<le> length cs" using False by simp
      ultimately show ?thesis using False 4
        by (simp add: goes_on_def r same_stacks_def abs_token_def)
    qed
  qed (auto simp: bulk_size_lf_def Let_def size_step_def same_stacks_def abs_token_def
         intro!: complete_ok fail_ok next_ok)
qed

lemma in_bulk_ok:
  assumes "state p = Bulk" and "0 < bulkSize p"
  shows "switch_ok (TBulk (nat (bulkSize p)) (buf p)) (c # cs) p (in_bulk 0 (c # cs) p)"
proof -
  let ?n = "nat (bulkSize p)" and ?cs = "c # cs"
  have r: "run (More (TBulk ?n (buf p)) fs) ?cs =
     (if length ?cs < ?n then (length ?cs, More (TBulk (?n - length ?cs) (buf p @ ?cs)) fs)
      else ahead ?n (run (More (TBulkCR (buf p @ take ?n ?cs)) fs) (drop ?n ?cs)))" for fs
    using assms(2) by (subst run_bulk) simp_all
  consider "length ?cs < ?n" | "length ?cs = ?n" | "?n < length ?cs" by linarith
  then show ?thesis
  proof cases
    case 1
    then have b: "int (length ?cs) < bulkSize p" by linarith
    then have "in_bulk 0 ?cs p = Return (length cs) Incompleted
        (p\<lparr>buf := buf p @ ?cs, bulkSize := bulkSize p - int (length ?cs)\<rparr>)"
      by (simp add: in_bulk_def Let_def nat_add_distrib)
    with 1 b assms show ?thesis
      by (simp add: returns_def r token_ok_def abs_token_def nat_diff_distrib' del: length_Cons)
  next
    case 2
    then have "in_bulk 0 ?cs p = Return (length cs) Incompleted
        (p\<lparr>buf := buf p @ ?cs, bulkSize := 0, state := BulkCR\<rparr>)"
      using assms(2) by (auto simp: in_bulk_def Let_def)
    with 2 assms show ?thesis
      by (simp add: returns_def r token_ok_def abs_token_def ahead_def)
  next
    case 3
    then have "in_bulk 0 ?cs p = Next (?n - 1)
        (p\<lparr>buf := buf p @ take ?n ?cs, bulkSize := 0, state := BulkCR\<rparr>)"
      using assms(2) by (auto simp: in_bulk_def Let_def min_def)
    with 3 assms show ?thesis
      by (simp add: goes_on_def r same_stacks_def abs_token_def)
  qed
qed

lemma array_size_ok:
  assumes "state p = ArraySizeLF"
  shows "switch_ok (TCountLF (buf p)) (LF # cs) p (array_size_lf p)"
proof -
  let ?n = "strtol (buf p)"
  consider "?n = -1" | "?n = 0" | "?n < 0" "?n \<noteq> -1" | "0 < ?n" by linarith
  then show ?thesis
  proof cases
    case 4
    then have "tstep (TCountLF (buf p)) LF = TArr (nat ?n)" by (simp add: count_step_def)
    with 4 show ?thesis
      by (simp add: array_size_lf_def Let_def enters_def run_step mstep_def)
  qed (auto simp: array_size_lf_def Let_def count_step_def same_stacks_def
         intro!: complete_ok fail_ok)
qed

lemma start_ok: "state p = Start \<Longrightarrow> switch_ok TStart (c # cs) p (start c p)"
  by (auto simp: start_def Let_def start_step_def same_stacks_def abs_token_def
      intro!: next_ok fail_ok)

text \<open>The state \<open>Bulk\<close> is only read at the beginning of a chunk.\<close>

lemma chunk_switch_ok:
  assumes "token_ok p" and "state p = Bulk \<Longrightarrow> i = 0"
  shows "switch_ok (abs_token p) (c # cs) p (chunk_switch i c cs p)"
proof (cases "state p")
  case Start
  then show ?thesis by (simp add: chunk_switch_def start_ok abs_token_def)
next
  case String
  then show ?thesis
    using text_ok [of "abs_token p" False p StringLF c cs] by (simp add: chunk_switch_def abs_token_def)
next
  case ErrorString
  then show ?thesis
    using text_ok [of "abs_token p" True p ErrorLF c cs] by (simp add: chunk_switch_def abs_token_def)
next
  case Integer
  then show ?thesis
    using number_ok [of TInt TIntLF p c IntegerLF cs] by (simp add: chunk_switch_def abs_token_def)
next
  case BulkSize
  then show ?thesis
    using number_ok [of TSize TSizeLF p c BulkSizeLF cs] by (simp add: chunk_switch_def abs_token_def)
next
  case ArraySize
  then show ?thesis
    using number_ok [of TCount TCountLF p c ArraySizeLF cs]
    by (simp add: chunk_switch_def abs_token_def)
next
  case Bulk
  with assms have "i = 0" "0 < bulkSize p" by (simp_all add: token_ok_def)
  with Bulk show ?thesis using in_bulk_ok [of p c cs] by (simp add: chunk_switch_def abs_token_def)
next
  case BulkSizeLF
  then show ?thesis
    by (auto simp: chunk_switch_def abs_token_def bulk_size_ok same_stacks_def intro!: fail_ok)
next
  case ArraySizeLF
  then show ?thesis
    by (auto simp: chunk_switch_def abs_token_def array_size_ok same_stacks_def intro!: fail_ok)
qed (auto simp: chunk_switch_def abs_token_def same_stacks_def RedisValue_buf_def
       RedisValue_error_def intro!: next_ok complete_ok fail_ok)

subsection \<open>The character loop\<close>

lemma returns_after:
  assumes "goes_on t cs p m q" and "returns (abs_token q) (drop m cs) q n r p'"
  shows "returns t cs p (m + n) r p'"
  using assms
  by (auto simp: goes_on_def returns_def same_stacks_def ahead_def add.commute
      split: ParseResult.splits)

lemma enters_after:
  assumes "goes_on t cs p m q" and "enters (abs_token q) (drop m cs) q n p'"
  shows "enters t cs p (m + n) p'"
  using assms by (auto simp: goes_on_def enters_def same_stacks_def add.commute)

fun scanned_ok :: "token \<Rightarrow> string \<Rightarrow> RedisParser \<Rightarrow> nat \<Rightarrow> scanned \<Rightarrow> bool" where
  "scanned_ok t cs p i (Scanned m r p') \<longleftrightarrow> i \<le> m \<and> returns t cs p (m - i) r p'"
| "scanned_ok t cs p i (ScannedArray m p') \<longleftrightarrow> i \<le> m \<and> enters t cs p (m - i) p'"

lemma scan_ok:
  "token_ok p \<Longrightarrow> (state p = Bulk \<Longrightarrow> i = 0) \<Longrightarrow> scanned_ok (abs_token p) cs p i (scan i cs p)"
proof (induction i cs p rule: scan.induct)
  case (1 i p)
  then show ?case by (simp add: returns_def)
next
  case (2 i c cs p)
  have s: "switch_ok (abs_token p) (c # cs) p (chunk_switch i c cs p)"
    using 2 by (intro chunk_switch_ok) auto
  show ?case
  proof (cases "chunk_switch i c cs p")
    case (Next k q)
    with s have g: "goes_on (abs_token p) (c # cs) p (k + 1) q" by simp
    then have "token_ok q" "state q \<noteq> Bulk" by (simp_all add: goes_on_def token_ok_def)
    with 2(1) [OF Next] have "scanned_ok (abs_token q) (drop k cs) q (i + k + 1)
        (scan (i + k + 1) (drop k cs) q)" by simp
    then show ?thesis
      using returns_after [OF g] enters_after [OF g] Next
      by (cases "scan (i + k + 1) (drop k cs) q")
         (fastforce dest: le_Suc_ex simp: add.assoc)+
  qed (use s in \<open>simp_all add: add.assoc\<close>)
qed

subsection \<open>The parse functions\<close>

text \<open>
  \<open>parsed_ok i cs r res\<close>: the result \<open>res\<close>, with its count starting at \<open>i\<close>, is what the automaton makes
  of \<open>cs\<close> from \<open>r\<close> on. There is no failed assertion, and the fuel was enough.
\<close>

fun parsed_ok :: "nat \<Rightarrow> string \<Rightarrow> outcome \<Rightarrow> parsed \<Rightarrow> bool" where
  "parsed_ok i cs r (Parsed n res p) \<longleftrightarrow>
     i \<le> n \<and> n - i \<le> length cs \<and>
     (case res of
        Incompleted \<Rightarrow> parser_ok p \<and> run r cs = (n - i, More (abs_token p) (abs_frames p))
      | Completed \<Rightarrow> state p = Start \<and> arrayStack p = [] \<and>
          (\<exists>v. valueStack p = [v] \<and> run r cs = (n - i, Done v))
      | Error \<Rightarrow> run r cs = (n - i, Fail))"
| "parsed_ok i cs r Assertion \<longleftrightarrow> False"
| "parsed_ok i cs r OutOfFuel \<longleftrightarrow> False"

lemma parsed_ok_after:
  assumes "run r cs = ahead k (run r' (drop k cs))" and "k \<le> length cs"
    and "parsed_ok (i + k) (drop k cs) r' res"
  shows "parsed_ok i cs r res"
  using assms by (cases res) (auto simp: ahead_def split: ParseResult.splits)

lemma run_in_frame:
  "run (More t (fs @ gs)) cs =
     (case run (More t fs) cs of
        (n, Done v) \<Rightarrow> ahead n (run (push_value v gs) (drop n cs))
      | (n, r') \<Rightarrow> (n, under gs r'))"
  using run_under [of gs "More t fs" cs]
  by (simp add: ahead_def split_beta split: outcome.splits prod.splits)

text \<open>What a parser with empty stacks makes of texts up to a length.\<close>

definition good :: "(string \<Rightarrow> RedisParser \<Rightarrow> parsed) \<Rightarrow> nat \<Rightarrow> bool" where
  "good P L \<longleftrightarrow>
     (\<forall>cs p. length cs \<le> L \<longrightarrow> token_ok p \<longrightarrow> arrayStack p = [] \<longrightarrow> valueStack p = [] \<longrightarrow>
       parsed_ok 0 cs (More (abs_token p) []) (P cs p))"

definition elements :: "token \<Rightarrow> nat \<Rightarrow> RedisValue list \<Rightarrow> outcome" where
  "elements t todo vs =
     (if todo = 0 then Done (RedisValue_array vs) else More t [(todo, vs)])"

lemma push_value_elements:
  "0 < n \<Longrightarrow> push_value v [(n, vs)] = elements TStart (n - 1) (vs @ [v])"
  by (simp add: elements_def)

lemma abs_push [simp]:
  "abs_token (push_array vs p) = abs_token p" "abs_token (push_size n p) = abs_token p"
  "abs_token (p\<lparr>valueStack := ws\<rparr>) = abs_token p"
  "abs_token (p\<lparr>arrayStack := as\<rparr>) = abs_token p"
  "abs_frames (push_size n (push_array vs p)) = abs_frames p @ [(nat n, vs)]"
  by (simp_all add: push_array_def push_size_def abs_token_def abs_frames_def RedisValue_array_def
      toArray_def cong: State.case_cong)

lemma parser_ok_push:
  "parser_ok p \<Longrightarrow> 0 < n \<Longrightarrow> parser_ok (push_size n (push_array vs p))"
  by (simp add: parser_ok_def token_ok_def push_array_def push_size_def)

lemma token_start: "state p = Start \<Longrightarrow> abs_token p = TStart" "state p = Start \<Longrightarrow> token_ok p"
  by (simp_all add: abs_token_def token_ok_def)

lemma array_loop_ok:
  assumes "good P L" and "length bs \<le> i + L" and "i \<le> length bs"
    and "token_ok p" and "arrayStack p = []" and "valueStack p = []"
    and "todo = 0 \<Longrightarrow> state p = Start"
  shows "parsed_ok i (drop i bs) (elements (abs_token p) todo vs) (array_loop P todo vs i bs p)"
  using assms(2-)
proof (induction todo arbitrary: vs i p)
  case 0
  then show ?case by (simp add: elements_def push_array_def)
next
  case (Suc todo)
  let ?cs = "drop i bs" and ?gs = "[(Suc todo, vs)]"
  have P: "parsed_ok 0 ?cs (More (abs_token p) []) (P ?cs p)"
    using Suc.prems assms(1) by (auto simp: good_def)
  note frame = run_in_frame [of "abs_token p" "[]" ?gs ?cs, unfolded append_Nil]
  show ?case
  proof (cases "P ?cs p")
    case (Parsed n r p')
    show ?thesis
    proof (cases r)
      case Completed
      with P Parsed obtain w where w: "state p' = Start" "arrayStack p' = []" "valueStack p' = [w]"
        "n \<le> length ?cs" "run (More (abs_token p) []) ?cs = (n, Done w)" by auto
      let ?q = "p'\<lparr>valueStack := []\<rparr>"
      have "parsed_ok (i + n) (drop (i + n) bs) (elements (abs_token ?q) todo (vs @ [w]))
          (array_loop P todo (vs @ [w]) (i + n) bs ?q)"
        using w Suc.prems by (intro Suc.IH) (auto simp: token_ok_def)
      moreover have "run (More (abs_token p) ?gs) ?cs =
          ahead n (run (elements (abs_token ?q) todo (vs @ [w])) (drop n ?cs))"
        using w frame by (simp add: push_value_elements token_start del: push_value.simps)
      ultimately show ?thesis
        using Parsed Completed w
        by (auto simp: elements_def add.commute intro: parsed_ok_after [where k = n])
    qed (use P Parsed Suc.prems frame in
          \<open>auto simp: elements_def parser_ok_push nat_add_distrib\<close>)
  qed (use P in auto)
qed

lemma array_rest_ok:
  assumes "good P L" and "length bs \<le> i + L" and "i \<le> length bs" and "0 \<le> n"
    and "token_ok p" and "arrayStack p = []" and "valueStack p = []"
    and "n = 0 \<Longrightarrow> state p = Start"
  shows "parsed_ok i (drop i bs) (elements (abs_token p) (nat n) vs) (array_rest P n vs i bs p)"
proof (cases "i = length bs")
  case True
  show ?thesis
  proof (cases "n = 0")
    case False
    with assms have "parser_ok p" by (simp add: parser_ok_def)
    then show ?thesis using True False assms
      by (simp add: array_rest_def elements_def parser_ok_push) (simp add: abs_frames_def)
  qed (use True assms in \<open>simp add: array_rest_def elements_def push_array_def\<close>)
next
  case False
  then show ?thesis
    using array_loop_ok [OF assms(1-3) assms(5-7), of "nat n" vs] assms(4,8)
    by (auto simp: array_rest_def)
qed

text \<open>The outermost of the open arrays is on top; the inner ones are resumed first.\<close>

lemma parseArray_ok:
  assumes "good P L" and "length bs \<le> L" and "parser_ok p" and "arrayStack p \<noteq> []"
  shows "parsed_ok 0 bs (More (abs_token p) (abs_frames p)) (parseArray P bs p)"
  using assms(3,4)
proof (induction "length (arrayStack p)" arbitrary: p)
  case 0
  then show ?case by simp
next
  case (Suc l)
  then obtain n as v vs where st: "arrayStack p = n # as" "valueStack p = v # vs"
    by (cases "arrayStack p"; cases "valueStack p") (auto simp: parser_ok_def)
  with Suc.prems have n: "0 < n" and len: "length as = length vs" by (simp_all add: parser_ok_def)
  let ?q = "p\<lparr>arrayStack := as, valueStack := vs\<rparr>" and ?av = "toArray v"
  have q: "parser_ok ?q" "abs_token ?q = abs_token p"
    using Suc.prems st by (auto simp: parser_ok_def token_ok_def abs_token_def cong: State.case_cong)
  have fs: "abs_frames p = abs_frames ?q @ [(nat n, ?av)]"
    by (simp add: abs_frames_def st)
  show ?case
  proof (cases "as = []")
    case True
    have "parsed_ok 0 (drop 0 bs) (elements (abs_token ?q) (nat n) ?av) (array_rest P n ?av 0 bs ?q)"
      using assms(1,2) n q True len
      by (intro array_rest_ok) (auto simp: parser_ok_def)
    then show ?thesis
      using True len n fs st
      by (simp add: parseArray.simps [of P bs p] q elements_def abs_frames_def)
  next
    case False
    have IH: "parsed_ok 0 bs (More (abs_token p) (abs_frames ?q)) (parseArray P bs ?q)"
      using Suc.hyps(1) [of ?q] Suc.hyps(2) q False st by simp
    note frame = run_in_frame [of "abs_token p" "abs_frames ?q" "[(nat n, ?av)]" bs]
    have step: "parseArray P bs p = (case parseArray P bs ?q of
        Parsed k r p' \<Rightarrow>
          if r \<noteq> Completed then Parsed k r (push_size n (push_array ?av p'))
          else (case valueStack p' of [] \<Rightarrow> Assertion
                | w # ws \<Rightarrow> array_rest P (n - 1) (?av @ [w]) k bs (p'\<lparr>valueStack := ws\<rparr>))
      | other \<Rightarrow> other)"
      using False st by (simp add: parseArray.simps [of P bs p] Let_def cong: parsed.case_cong)
    show ?thesis
    proof (cases "parseArray P bs ?q")
      case (Parsed k r p')
      show ?thesis
      proof (cases r)
        case Completed
        with IH Parsed obtain w where w: "state p' = Start" "arrayStack p' = []"
          "valueStack p' = [w]" "k \<le> length bs"
          "run (More (abs_token p) (abs_frames ?q)) bs = (k, Done w)" by auto
        let ?r = "p'\<lparr>valueStack := []\<rparr>"
        have "parsed_ok k (drop k bs) (elements (abs_token ?r) (nat (n - 1)) (?av @ [w]))
            (array_rest P (n - 1) (?av @ [w]) k bs ?r)"
          using w n assms(1,2) by (intro array_rest_ok) (auto simp: token_ok_def)
        moreover have "run (More (abs_token p) (abs_frames p)) bs =
            ahead k (run (elements (abs_token ?r) (nat (n - 1)) (?av @ [w])) (drop k bs))"
          using w n frame
          by (simp add: fs push_value_elements token_start nat_diff_distrib'
              del: push_value.simps)
        ultimately show ?thesis
          using Parsed Completed w step by (auto intro: parsed_ok_after [where k = k])
      qed (use IH Parsed frame n in
          \<open>auto simp: step fs parser_ok_push\<close>)
    qed (use IH in auto)
  qed
qed

lemma parseChunk_ok:
  assumes "bs \<noteq> [] \<Longrightarrow> good P (length bs - 1)"
    and "token_ok p" and "arrayStack p = []" and "valueStack p = []"
  shows "parsed_ok 0 bs (More (abs_token p) []) (parseChunk P bs p)"
proof -
  have s: "scanned_ok (abs_token p) bs p 0 (scan 0 bs p)" using assms(2) by (intro scan_ok) auto
  show ?thesis
  proof (cases "scan 0 bs p")
    case (Scanned n r p')
    with s have "returns (abs_token p) bs p n r p'" by simp
    with Scanned assms show ?thesis
      by (auto simp: parseChunk_def returns_def parser_ok_def abs_frames_def ahead_def
          split: ParseResult.splits)
  next
    case (ScannedArray n p')
    with s have e: "enters (abs_token p) bs p n p'" by simp
    then obtain k where k: "0 < k" "arrayStack p' = [k]" "valueStack p' = [RedisValue_array []]"
      "0 < n" "n \<le> length bs" "state p' = Start"
      "run (More (abs_token p) []) bs = ahead n (run (More TStart [(nat k, [])]) (drop n bs))"
      using assms(3,4) by (auto simp: enters_def)
    then have ok: "parser_ok p'" "abs_frames p' = [(nat k, [])]" "abs_token p' = TStart"
      by (simp_all add: parser_ok_def token_start abs_frames_def RedisValue_array_def toArray_def)
    show ?thesis
    proof (cases "n = length bs")
      case True
      with ScannedArray k ok show ?thesis
        by (simp add: parseChunk_def ahead_def)
    next
      case False
      have "parsed_ok 0 (drop n bs) (More (abs_token p') (abs_frames p')) (parseArray P (drop n bs) p')"
        using k ok False assms(1)
        by (intro parseArray_ok [where L = "length bs - 1"]) (cases bs, auto)
      then show ?thesis
        using ScannedArray False k(5,7) ok
        by (cases "parseArray P (drop n bs) p'")
           (auto simp: parseChunk_def ahead_def split: ParseResult.splits)
    qed
  qed
qed

lemma parse_f_good: "L < f \<Longrightarrow> good (parse_f f) L"
proof (induction f arbitrary: L)
  case (Suc f)
  show ?case
    unfolding good_def
  proof (intro allI impI)
    fix cs :: string and p
    assume "length cs \<le> L" "token_ok p" "arrayStack p = []" "valueStack p = []"
    moreover have "good (parse_f f) (length cs - 1)" if "cs \<noteq> []"
      using that Suc.prems \<open>length cs \<le> L\<close> by (intro Suc.IH) (cases cs, auto)
    ultimately show "parsed_ok 0 cs (More (abs_token p) []) (parse_f (Suc f) cs p)"
      by (simp add: parseChunk_ok)
  qed
qed simp

text \<open>The refinement: on every chunk, \<open>parse\<close> does what the automaton does.\<close>

lemma parse_runs:
  assumes "parser_ok p"
  shows "parsed_ok 0 bs (More (abs_token p) (abs_frames p)) (parse bs p)"
proof (cases "arrayStack p = []")
  case True
  with assms have "valueStack p = []" "abs_frames p = []"
    by (simp_all add: parser_ok_def abs_frames_def)
  with True assms show ?thesis
    by (auto simp: parse_def parser_ok_def intro!: parseChunk_ok parse_f_good)
next
  case False
  with assms show ?thesis
    by (simp add: parse_def) (intro parseArray_ok [where L = "length bs"] parse_f_good, simp_all)
qed

subsection \<open>What the refinement gives\<close>

definition abs_parser :: "RedisParser \<Rightarrow> outcome" where
  "abs_parser p = More (abs_token p) (abs_frames p)"

definition abs_parsed :: "parsed \<Rightarrow> (nat \<times> outcome) option" where
  "abs_parsed res =
     (case res of
        Parsed n Completed p \<Rightarrow> Some (n, Done (hd (valueStack p)))
      | Parsed n Incompleted p \<Rightarrow> Some (n, abs_parser p)
      | Parsed n Error p \<Rightarrow> Some (n, Fail)
      | _ \<Rightarrow> None)"

definition clean :: "RedisParser \<Rightarrow> bool" where
  "clean p \<longleftrightarrow> state p = Start \<and> arrayStack p = [] \<and> valueStack p = []"

lemma clean_ok: "clean p \<Longrightarrow> parser_ok p" "clean p \<Longrightarrow> abs_parser p = More TStart []"
  by (simp_all add: clean_def parser_ok_def token_ok_def abs_parser_def abs_token_def abs_frames_def)

lemma RedisParser_clean: "clean RedisParser.RedisParser"
  by (simp add: clean_def RedisParser_def)

lemma parse_cases:
  assumes "parser_ok p"
  obtains
    (Completed) n p' v where "parse bs p = Parsed n Completed p'" "n \<le> length bs"
      "parser_result p' = Some (v, p'\<lparr>valueStack := []\<rparr>)" "clean (p'\<lparr>valueStack := []\<rparr>)"
      "run (abs_parser p) bs = (n, Done v)"
  | (Incompleted) p' where "parse bs p = Parsed (length bs) Incompleted p'" "parser_ok p'"
      "run (abs_parser p) bs = (length bs, abs_parser p')"
  | (Error) n p' where "parse bs p = Parsed n Error p'" "n \<le> length bs"
      "run (abs_parser p) bs = (n, Fail)"
proof (cases "parse bs p")
  case (Parsed n r p')
  note ok = parse_runs [OF assms, of bs, unfolded Parsed, folded abs_parser_def]
  show ?thesis
  proof (cases r)
    case Completed
    with ok that(1) [of n p'] Parsed show ?thesis by (auto simp: parser_result_def clean_def)
  next
    case Incompleted
    moreover from this ok have "n = length bs"
      using run_more_all [of "abs_parser p" bs n] by (simp add: abs_parser_def)
    ultimately show ?thesis
      using ok that(2) [of p'] Parsed by (simp add: abs_parser_def [symmetric])
  next
    case Error
    with ok that(3) [of n p'] Parsed show ?thesis by simp
  qed
qed (use parse_runs [OF assms, of bs] in auto)

lemma parser_result_hd: "parser_result p = Some (v, q) \<Longrightarrow> hd (valueStack p) = v"
  by (auto simp: parser_result_def split: list.splits)

lemma parse_completed:
  assumes "parser_ok p" and "run (abs_parser p) bs = (n, Done v)"
  shows "\<exists>p'. parse bs p = Parsed n Completed p' \<and>
    parser_result p' = Some (v, p'\<lparr>valueStack := []\<rparr>) \<and> clean (p'\<lparr>valueStack := []\<rparr>)"
  using assms(1) by (rule parse_cases [of p bs]) (use assms(2) in \<open>auto simp: abs_parser_def\<close>)

lemma parse_incompleted:
  assumes "parser_ok p" and "run (abs_parser p) bs = (n, More t fs)"
  shows "\<exists>p'. parse bs p = Parsed n Incompleted p' \<and> parser_ok p' \<and> abs_parser p' = More t fs"
  using assms(1) by (rule parse_cases [of p bs]) (use assms(2) in auto)

lemma parse_abs:
  assumes "parser_ok p"
  shows "abs_parsed (parse bs p) = Some (run (abs_parser p) bs)"
  using assms
  by (rule parse_cases [of p bs]) (auto simp: abs_parsed_def dest: parser_result_hd)

text \<open>
  C10. On every chunk the parser does exactly what the character automaton does: it uses as many
  characters, reports the same value, the same error, or the same place to go on from. It never
  reads an empty stack, its recursion ends, and it is left in a state from which this holds again.
\<close>

theorem parse_refines:
  assumes "parser_ok p"
  shows "\<exists>n r p'. parse bs p = Parsed n r p' \<and>
    abs_parsed (Parsed n r p') = Some (run (abs_parser p) bs) \<and>
    (case r of Incompleted \<Rightarrow> n = length bs \<and> parser_ok p'
       | Completed \<Rightarrow> (\<exists>v q. parser_result p' = Some (v, q) \<and> clean q)
       | Error \<Rightarrow> True)"
  using assms by (rule parse_cases [of p bs]) (auto simp: abs_parsed_def parser_result_hd)

theorem parse_refines_witness:
  "\<exists>n r p'. parse ''*1'' RedisParser = Parsed n r p' \<and>
    abs_parsed (Parsed n r p') = Some (run (abs_parser RedisParser) ''*1'') \<and>
    (case r of Incompleted \<Rightarrow> n = length ''*1'' \<and> parser_ok p'
       | Completed \<Rightarrow> (\<exists>v q. parser_result p' = Some (v, q) \<and> clean q)
       | Error \<Rightarrow> True)"
  by (rule parse_refines) (simp add: clean_ok RedisParser_clean)

text \<open>
  C15. The way the network cuts the replies does not matter: parsing \<open>as\<close> and then, where the reply was
  not complete, \<open>bs\<close>, is parsing \<open>as @ bs\<close>.
\<close>

theorem parse_chunks:
  assumes "parser_ok p"
  shows "abs_parsed (parse (as @ bs) p) =
    (case parse as p of
       Parsed n Incompleted p' \<Rightarrow> map_option (map_prod ((+) n) id) (abs_parsed (parse bs p'))
     | res \<Rightarrow> abs_parsed res)"
  using assms
proof (rule parse_cases [of p as])
  fix p'
  assume "parse as p = Parsed (length as) Incompleted p'" "parser_ok p'"
    "run (abs_parser p) as = (length as, abs_parser p')"
  then show ?thesis
    by (simp add: parse_abs assms run_append [of _ as bs])
       (simp add: abs_parser_def split_beta map_prod_def)
qed (simp_all add: parse_abs assms run_append [of _ as bs],
     simp_all add: abs_parsed_def parser_result_hd)

theorem parse_chunks_witness:
  "abs_parsed (parse (''*1'' @ [CR, LF] @ '':5'' @ [CR, LF]) RedisParser) =
    (case parse ''*1'' RedisParser of
       Parsed n Incompleted p' \<Rightarrow>
         map_option (map_prod ((+) n) id) (abs_parsed (parse ([CR, LF] @ '':5'' @ [CR, LF]) p'))
     | res \<Rightarrow> abs_parsed res)"
  by (rule parse_chunks) (simp add: clean_ok RedisParser_clean)

text \<open>
  C14. Round trip: from a clean parser, the encoding of a value that the protocol can carry parses to
  that value, whatever follows it; exactly its characters are used, and popping the value leaves a
  clean parser again.
\<close>

theorem parse_encode:
  assumes "clean p" and "sendable v"
  shows "\<exists>p' q. parse (encode v @ rest) p = Parsed (length (encode v)) Completed p' \<and>
    parser_result p' = Some (v, q) \<and> clean q"
proof -
  have "run (abs_parser p) (encode v @ rest) = (length (encode v), Done v)"
    using assms by (simp add: clean_ok run_encode ahead_def)
  then show ?thesis using parse_completed [OF clean_ok(1) [OF assms(1)]] by blast
qed

theorem parse_encode_witness:
  "\<exists>p' q. parse (encode (ArrayV [BytesV ''ab'' False, NullV False] False) @ ''+'') RedisParser =
      Parsed (length (encode (ArrayV [BytesV ''ab'' False, NullV False] False))) Completed p' \<and>
    parser_result p' = Some (ArrayV [BytesV ''ab'' False, NullV False] False, q) \<and> clean q"
  by (rule parse_encode) (simp_all add: RedisParser_clean LONG_MAX_def)

end
