(* ===== verification/RedisClientImpl.thy ===== *)
theory RedisClientImpl imports ParserRefinement begin

text \<open>
  The client side of the Redis connection: \<open>src/redisLib/lib/redisbuffer.h\<close>, the blocking part of
  \<open>redisclientimpl.cpp\<close> and \<open>redissyncclient.cpp\<close>. The socket is the list of what the coming calls of
  \<open>read_some\<close> return, the text written so far, and the outcome of the next write.
\<close>

subsection \<open>Command buffers\<close>

text \<open>A buffer views memory: the text from the pointer on, and a size.\<close>

record RedisBuffer =
  ptr :: string
  size_of :: nat

definition strlen :: "string \<Rightarrow> nat" where
  "strlen s = length (takeWhile (\<lambda>c. c \<noteq> CHR 0x00) s)"

definition RedisBuffer_null :: RedisBuffer where
  "RedisBuffer_null = \<lparr>ptr = [], size_of = 0\<rparr>"

definition RedisBuffer_cstr :: "string \<Rightarrow> RedisBuffer" where
  "RedisBuffer_cstr s = \<lparr>ptr = s, size_of = strlen s\<rparr>"

definition RedisBuffer_str :: "string \<Rightarrow> RedisBuffer" where
  "RedisBuffer_str s = \<lparr>ptr = s, size_of = length s\<rparr>"

definition append_buffer :: "string \<Rightarrow> RedisBuffer \<Rightarrow> string" where
  "append_buffer vec b = vec @ take (size_of b) (ptr b)"

definition append_string :: "string \<Rightarrow> string \<Rightarrow> string" where
  "append_string vec s = vec @ s"

definition append_char :: "string \<Rightarrow> char \<Rightarrow> string" where
  "append_char vec c = vec @ [c]"

definition append_item :: "string \<Rightarrow> RedisBuffer \<Rightarrow> string" where
  "append_item result it =
     (let result = append_char result (CHR ''$'');
          result = append_string result (nat_to_dec (size_of it));
          result = append_string result crlf;
          result = append_buffer result it
      in append_string result crlf)"

definition makeCommand :: "RedisBuffer list \<Rightarrow> string" where
  "makeCommand items =
     (let result = append_char [] (CHR ''*'');
          result = append_string result (nat_to_dec (length items));
          result = append_string result crlf
      in foldl append_item result items)"

subsection \<open>The client object\<close>

datatype client_state = NotConnected | Connected | Subscribed | Closed

datatype error_handler = defaulErrorHandler | ignoreErrorHandler | installedErrorHandler

record RedisClientImpl =
  client_state :: client_state
  redisParser :: RedisParser
  errorHandler :: error_handler
  errors :: "string list"
  reads :: "string list"
  sent :: string
  write_error :: "string option"

datatype reply = Value RedisValue | Thrown string | AssertionFailed

definition new_client :: "string list \<Rightarrow> RedisClientImpl" where
  "new_client rs =
     \<lparr>client_state = NotConnected, redisParser = RedisParser.RedisParser,
      errorHandler = defaulErrorHandler, errors = [], reads = rs, sent = [], write_error = None\<rparr>"

definition installErrorHandler :: "RedisClientImpl \<Rightarrow> RedisClientImpl" where
  "installErrorHandler c = c\<lparr>errorHandler := installedErrorHandler\<rparr>"

text \<open>Opening the socket, its option and the connect call either all succeed or give an error text.\<close>

definition connect :: "string option \<Rightarrow> RedisClientImpl \<Rightarrow> bool \<times> string \<times> RedisClientImpl" where
  "connect ec c =
     (case ec of None \<Rightarrow> (True, [], c\<lparr>client_state := Connected\<rparr>)
      | Some message \<Rightarrow> (False, message, c))"

definition close :: "RedisClientImpl \<Rightarrow> RedisClientImpl" where
  "close c =
     (if client_state c \<noteq> Closed
      then c\<lparr>errorHandler := ignoreErrorHandler, client_state := Closed\<rparr> else c)"

text \<open>The default error handler throws; after the others the caller returns the nil value.\<close>

definition handle_error :: "string \<Rightarrow> RedisClientImpl \<Rightarrow> reply \<times> RedisClientImpl" where
  "handle_error message c =
     (case errorHandler c of
        defaulErrorHandler \<Rightarrow> (Thrown message, c)
      | ignoreErrorHandler \<Rightarrow> (Value RedisValue_nil, c)
      | installedErrorHandler \<Rightarrow> (Value RedisValue_nil, c\<lparr>errors := errors c @ [message]\<rparr>))"

subsection \<open>A blocking command\<close>

datatype chunk_result =
    Chunk_read RedisParser
  | Chunk_value RedisParser
  | Chunk_error RedisParser
  | Chunk_assertion

text \<open>
  The loop over one chunk of input. It goes on while the verdict is \<open>Incompleted\<close>, so it would not end
  if such a parse used no character.
\<close>

partial_function (option) sync_chunk :: "string \<Rightarrow> RedisParser \<Rightarrow> chunk_result option" where
  "sync_chunk bs p =
     (if bs = [] then Some (Chunk_read p)
      else case parse bs p of
             Parsed n r p' \<Rightarrow>
               (case r of
                  Completed \<Rightarrow> Some (Chunk_value p')
                | Incompleted \<Rightarrow> sync_chunk (drop n bs) p'
                | Error \<Rightarrow> Some (Chunk_error p'))
           | Assertion \<Rightarrow> Some Chunk_assertion
           | OutOfFuel \<Rightarrow> None)"

text \<open>
  The loop over the reads. A read behind the last one of the list finds the connection closed and
  throws.
\<close>

primrec sync_reads :: "string list \<Rightarrow> RedisClientImpl \<Rightarrow> (reply \<times> RedisClientImpl) option" where
  "sync_reads [] c = Some (Thrown ''read_some'', c\<lparr>reads := []\<rparr>)"
| "sync_reads (b # bs) c =
     Option.bind (sync_chunk b (redisParser c)) (\<lambda>res.
       case res of
         Chunk_read p \<Rightarrow> sync_reads bs (c\<lparr>redisParser := p\<rparr>)
       | Chunk_value p \<Rightarrow>
           (case parser_result p of
              None \<Rightarrow> Some (AssertionFailed, c\<lparr>redisParser := p, reads := bs\<rparr>)
            | Some (v, q) \<Rightarrow> Some (Value v, c\<lparr>redisParser := q, reads := bs\<rparr>))
       | Chunk_error p \<Rightarrow>
           Some (handle_error ''[RedisClient] Parser error'' (c\<lparr>redisParser := p, reads := bs\<rparr>))
       | Chunk_assertion \<Rightarrow> Some (AssertionFailed, c))"

definition doSyncCommand ::
  "RedisBuffer list \<Rightarrow> RedisClientImpl \<Rightarrow> (reply \<times> RedisClientImpl) option" where
  "doSyncCommand buff c =
     (case write_error c of
        Some message \<Rightarrow> Some (handle_error message c)
      | None \<Rightarrow> sync_reads (reads c) (c\<lparr>sent := sent c @ makeCommand buff\<rparr>))"

text \<open>The assertion on the state comes before the test that would report it.\<close>

definition stateValid :: "RedisClientImpl \<Rightarrow> bool" where
  "stateValid c \<longleftrightarrow> client_state c = Connected"

text \<open>
  The overloads of \<open>command\<close> fill the vector of items with the command and its arguments, in order.
\<close>

definition command ::
  "string \<Rightarrow> RedisBuffer list \<Rightarrow> RedisClientImpl \<Rightarrow> (reply \<times> RedisClientImpl) option" where
  "command cmd args c =
     (if stateValid c then doSyncCommand (RedisBuffer_str cmd # args) c
      else Some (AssertionFailed, c))"

definition command_list ::
  "string \<Rightarrow> string list \<Rightarrow> RedisClientImpl \<Rightarrow> (reply \<times> RedisClientImpl) option" where
  "command_list cmd args c = command cmd (map RedisBuffer_str args) c"

subsection \<open>Commands on the wire\<close>

lemma append_item_str:
  "append_item r (RedisBuffer_str s) = r @ encode (BytesV s False)"
  by (simp add: append_item_def append_char_def append_string_def append_buffer_def
      RedisBuffer_str_def Let_def)

lemma makeCommand_encode:
  "makeCommand (map RedisBuffer_str ws) = encode (ArrayV (map (\<lambda>s. BytesV s False) ws) False)"
proof -
  have "foldl append_item r (map RedisBuffer_str ws) =
      r @ concat (map encode (map (\<lambda>s. BytesV s False) ws))" for r
    by (induction ws arbitrary: r) (simp_all add: append_item_str del: encode.simps)
  then show ?thesis
    by (simp add: makeCommand_def append_char_def append_string_def Let_def)
qed

lemma strlen_no_nul: "CHR 0x00 \<notin> set s \<Longrightarrow> RedisBuffer_cstr s = RedisBuffer_str s"
  by (induction s) (auto simp: RedisBuffer_cstr_def RedisBuffer_str_def strlen_def)

subsection \<open>Reading the reply\<close>

lemma sync_chunk_result:
  assumes "parser_ok p"
  shows "sync_chunk bs p =
    (if bs = [] then Some (Chunk_read p)
     else case parse bs p of
            Parsed n Completed p' \<Rightarrow> Some (Chunk_value p')
          | Parsed n Incompleted p' \<Rightarrow> Some (Chunk_read p')
          | Parsed n Error p' \<Rightarrow> Some (Chunk_error p')
          | _ \<Rightarrow> None)"
  using assms
  by (rule parse_cases [of p bs]) (simp_all add: sync_chunk.simps [of bs] sync_chunk.simps [of "[]"])

lemma sync_reads_value:
  assumes "parser_ok (redisParser c)"
    and "run (abs_parser (redisParser c)) (concat bs) = (length (concat bs), Done v)"
    and "bs \<noteq> [] \<Longrightarrow> last bs \<noteq> []"
  shows "\<exists>q. clean q \<and>
    sync_reads (bs @ rest) c = Some (Value v, c\<lparr>redisParser := q, reads := rest\<rparr>)"
  using assms
proof (induction bs arbitrary: c)
  case Nil
  then show ?case by (simp add: abs_parser_def)
next
  case (Cons b bs)
  let ?p = "redisParser c"
  have split: "run (abs_parser ?p) (b @ concat bs) = (length (b @ concat bs), Done v)"
    using Cons.prems(2) by simp
  from Cons.prems(1) show ?case
  proof (rule parse_cases [of ?p b])
    fix n p' w
    assume w: "parse b ?p = Parsed n Completed p'" "n \<le> length b"
      "parser_result p' = Some (w, p'\<lparr>valueStack := []\<rparr>)" "clean (p'\<lparr>valueStack := []\<rparr>)"
      "run (abs_parser ?p) b = (n, Done w)"
    then have vw: "w = v" and "concat bs = []"
      using split by (auto simp: run_append [of _ b])
    then have "bs = []" using Cons.prems(3) by (cases bs rule: rev_cases) auto
    moreover have "b \<noteq> []" using w by (auto simp: abs_parser_def)
    ultimately show ?thesis using w vw by (auto simp: sync_chunk_result [OF Cons.prems(1)])
  next
    fix p'
    assume p': "parse b ?p = Parsed (length b) Incompleted p'" "parser_ok p'"
      "run (abs_parser ?p) b = (length b, abs_parser p')"
    then have "run (abs_parser p') (concat bs) = (length (concat bs), Done v)"
      using split by (auto simp: run_append [of _ b] abs_parser_def split_beta prod_eq_iff)
    moreover have "bs \<noteq> [] \<Longrightarrow> last bs \<noteq> []" using Cons.prems(3) by simp
    moreover have "run (abs_parser ?p) (concat bs) = (length (concat bs), Done v)" if "b = []"
      using that split by simp
    ultimately show ?thesis
      using Cons.IH [of "c\<lparr>redisParser := p'\<rparr>"] Cons.IH [of c] Cons.prems(1) p'
      by (cases "b = []") (simp_all add: sync_chunk_result [OF Cons.prems(1)])
  next
    fix n p'
    assume "run (abs_parser ?p) b = (n, Fail)"
    then show ?thesis using split by (auto simp: run_append [of _ b])
  qed
qed

lemma sync_reads_returns:
  "parser_ok (redisParser c) \<Longrightarrow>
   \<exists>r c'. sync_reads bs c = Some (r, c') \<and> r \<noteq> AssertionFailed"
proof (induction bs arbitrary: c)
  case (Cons b bs)
  let ?p = "redisParser c"
  from Cons.prems show ?case
  proof (rule parse_cases [of ?p b])
    fix p'
    assume "parse b ?p = Parsed (length b) Incompleted p'" "parser_ok p'"
    then show ?thesis
      using Cons.IH [of "c\<lparr>redisParser := p'\<rparr>"] Cons.IH [of c] Cons.prems
      by (simp add: sync_chunk_result)
  qed (use Cons.prems Cons.IH [of c] in
        \<open>auto simp: sync_chunk_result handle_error_def split: error_handler.splits\<close>)
qed simp

text \<open>
  C16. Commands on the wire: a command of strings, as the client writes it, parses to the array of those
  strings, in their order, with nothing left over; no byte of an argument can be taken for a
  separator.
\<close>

theorem makeCommand_parses:
  assumes "int (length ws) \<le> LONG_MAX" and "\<forall>w \<in> set ws. int (length w) \<le> LONG_MAX"
  shows "\<exists>p q. parse (makeCommand (map RedisBuffer_str ws)) RedisParser =
      Parsed (length (makeCommand (map RedisBuffer_str ws))) Completed p \<and>
    parser_result p = Some (RedisValue_array (map RedisValue_buf ws), q)"
proof -
  let ?v = "ArrayV (map (\<lambda>s. BytesV s False) ws) False"
  have v: "sendable ?v" using assms by (simp add: list_all_iff)
  have ok: "parser_ok RedisParser" "abs_parser RedisParser = More TStart []"
    by (simp_all add: RedisParser_clean clean_ok)
  have "run (abs_parser RedisParser) (encode ?v @ []) = (length (encode ?v), Done ?v)"
    unfolding ok run_encode [OF v] by (simp add: ahead_def del: encode.simps)
  moreover have "RedisValue_array (map RedisValue_buf ws) = ?v"
    by (simp add: RedisValue_array_def RedisValue_buf_def)
  ultimately show ?thesis
    using parse_completed [OF ok(1), of "encode ?v"] unfolding makeCommand_encode append_Nil2
    by metis
qed

theorem makeCommand_parses_witness:
  "\<exists>p q. parse (makeCommand (map RedisBuffer_str [''GET'', ''AgentID'']))  RedisParser =
      Parsed (length (makeCommand (map RedisBuffer_str [''GET'', ''AgentID'']))) Completed p \<and>
    parser_result p = Some (RedisValue_array (map RedisValue_buf [''GET'', ''AgentID'']), q)"
  by (rule makeCommand_parses) (simp_all add: LONG_MAX_def)

text \<open>
  C11. A blocking command returns the reply: when the server answers with the encoding of \<open>v\<close>, cut into
  any reads, the command gives \<open>v\<close>, has used exactly these reads and left the parser clean for the
  next command.
\<close>

theorem command_reply:
  assumes "stateValid c" and "write_error c = None" and "clean (redisParser c)"
    and "sendable v" and "reads c = bs @ rest" and "concat bs = encode v" and "last bs \<noteq> []"
  shows "\<exists>q. clean q \<and> command_list cmd args c =
    Some (Value v, c\<lparr>sent := sent c @ makeCommand (map RedisBuffer_str (cmd # args)),
                     redisParser := q, reads := rest\<rparr>)"
proof -
  let ?c = "c\<lparr>sent := sent c @ makeCommand (map RedisBuffer_str (cmd # args))\<rparr>"
  have "run (abs_parser (redisParser ?c)) (concat bs) = (length (concat bs), Done v)"
    using assms(3,4,6) run_encode [of v "[]" "[]"] by (simp add: clean_ok ahead_def)
  then show ?thesis
    using sync_reads_value [of ?c bs v rest] assms
    by (simp add: command_list_def command_def doSyncCommand_def clean_ok)
qed

theorem command_reply_witness:
  "\<exists>q. clean q \<and> command_list ''GET'' [''k'']
      (new_client [''$2'', crlf @ ''ab'', crlf, ''+''] \<lparr>client_state := Connected\<rparr>) =
    Some (Value (RedisValue_buf ''ab''),
      new_client [''$2'', crlf @ ''ab'', crlf, ''+'']
        \<lparr>client_state := Connected, sent := makeCommand (map RedisBuffer_str [''GET'', ''k'']),
         redisParser := q, reads := [''+'']\<rparr>)"
proof -
  have "concat [''$2'', crlf @ ''ab'', crlf] = encode (RedisValue_buf ''ab'')" by code_simp
  then show ?thesis
    using command_reply [of "new_client [''$2'', crlf @ ''ab'', crlf, ''+'']
        \<lparr>client_state := Connected\<rparr>" "RedisValue_buf ''ab''"
        "[''$2'', crlf @ ''ab'', crlf]" "[''+'']" "''GET''" "[''k'']"]
    by (simp add: new_client_def stateValid_def RedisParser_clean RedisValue_buf_def LONG_MAX_def
        del: encode.simps)
qed

text \<open>
  C38. A blocking command ends as soon as the socket has no more to give, and no assertion fails on the
  way, however ill-formed the input is.
\<close>

theorem doSyncCommand_returns:
  assumes "parser_ok (redisParser c)"
  shows "\<exists>r c'. doSyncCommand items c = Some (r, c') \<and> r \<noteq> AssertionFailed"
  using assms sync_reads_returns [of "c\<lparr>sent := sent c @ makeCommand items\<rparr>" "reads c"]
  by (auto simp: doSyncCommand_def handle_error_def split: option.splits error_handler.splits)

theorem doSyncCommand_returns_witness:
  "\<exists>r c'. doSyncCommand [RedisBuffer_str ''PING''] (new_client [''*1'', ''x'']) = Some (r, c') \<and>
     r \<noteq> AssertionFailed"
  by (rule doSyncCommand_returns) (simp add: new_client_def clean_ok RedisParser_clean)






end
