(* ===== verification/Wire.thy ===== *)
theory Wire imports PSM_Prelude "HOL-Library.Monad_Syntax" begin

text \<open>
  What the generated message code of \<open>src/lib/*.pb.cc\<close> uses of the protobuf runtime, whose
  implementation is not in the repository: cutting a text of bytes into its tagged fields, and writing
  tagged fields. Both are the fields of \<open>wire_lib\<close>; the law that the code relies on is \<open>wire_ok\<close>.
\<close>

type_synonym int64 = "64 word"

text \<open>A \<open>double\<close> is the word of its bits.\<close>

type_synonym real64 = "64 word"

text \<open>A field of another wire type (32 bits, or a group) is never written by these messages.\<close>

datatype wire_value =
    Varint int64
  | Fixed64 int64
  | Len "byte list"
  | OtherWire

type_synonym field = "nat \<times> wire_value"

record wire_lib =
  wire_split :: "byte list \<Rightarrow> field list option"
  wire_join :: "field list \<Rightarrow> byte list"
  wire_packed :: "byte list \<Rightarrow> int64 list option"

definition plain :: "field \<Rightarrow> bool" where
  "plain f \<longleftrightarrow> 0 < fst f \<and> fst f < 16 \<and> snd f \<noteq> OtherWire"

definition wire_ok :: "wire_lib \<Rightarrow> bool" where
  "wire_ok W \<longleftrightarrow> (\<forall>fs. list_all plain fs \<longrightarrow> wire_split W (wire_join W fs) = Some fs)"

lemma wire_okD: "wire_ok W \<Longrightarrow> list_all plain fs \<Longrightarrow> wire_split W (wire_join W fs) = Some fs"
  by (simp add: wire_ok_def)

text \<open>
  The encoding of a field takes one byte for the key and at most ten for a number or a length; texts
  are limited to \<open>2 ^ 31\<close> bytes.
\<close>

definition field_bound :: "field \<Rightarrow> nat" where
  "field_bound f =
     (case snd f of Varint _ \<Rightarrow> 11 | Fixed64 _ \<Rightarrow> 9 | Len bs \<Rightarrow> 11 + length bs | OtherWire \<Rightarrow> 0)"

definition short_field :: "field \<Rightarrow> bool" where
  "short_field f \<longleftrightarrow> (case snd f of Len bs \<Rightarrow> length bs < 2 ^ 31 | _ \<Rightarrow> True)"

definition wire_small :: "wire_lib \<Rightarrow> bool" where
  "wire_small W \<longleftrightarrow>
     (\<forall>fs. list_all plain fs \<longrightarrow> list_all short_field fs \<longrightarrow>
        length (wire_join W fs) \<le> sum_list (map field_bound fs))"

lemma wire_smallD:
  "wire_small W \<Longrightarrow> list_all plain fs \<Longrightarrow> list_all short_field fs \<Longrightarrow>
   sum_list (map field_bound fs) \<le> n \<Longrightarrow> length (wire_join W fs) \<le> n"
  unfolding wire_small_def by (meson order_trans)

subsection \<open>Primitive values\<close>

text \<open>
  An \<open>int32\<close> is written sign-extended to 64 bits and read back from the low 32 bits; a \<open>bool\<close> is
  read from the low 32 bits, too.
\<close>

definition put_int32 :: "int32 \<Rightarrow> wire_value" where "put_int32 i = Varint (scast i)"

definition get_int32 :: "int64 \<Rightarrow> int32" where "get_int32 v = ucast v"

definition put_bool :: "bool \<Rightarrow> wire_value" where "put_bool b = Varint (if b then 1 else 0)"

definition get_bool :: "int64 \<Rightarrow> bool" where "get_bool v \<longleftrightarrow> (ucast v :: int32) \<noteq> 0"

definition put_string :: "string \<Rightarrow> wire_value" where "put_string s = Len (map (\<lambda>c. word_of_nat (of_char c)) s)"

definition get_string :: "byte list \<Rightarrow> string" where
  "get_string bs = map (\<lambda>b. char_of (unat b)) bs"

lemma get_put_int32 [simp]: "get_int32 (scast i) = i"
  by (rule bit_word_eqI) (auto simp: get_int32_def bit_simps)

lemma get_put_bool [simp]: "get_bool 1" "\<not> get_bool 0"
  by (simp_all add: get_bool_def)

lemma get_put_string [simp]: "get_string (map (\<lambda>c. word_of_nat (of_char c)) s) = s"
proof -
  have "char_of (unat (word_of_nat (of_char c) :: byte)) = c" for c
    unfolding unat_of_nat by (simp add: char_of_mod_256)
  then show ?thesis by (simp add: get_string_def o_def map_idI)
qed

text \<open>The accessor of a field that is not there gives the default value.\<close>

definition get_or :: "'a \<Rightarrow> 'a option \<Rightarrow> 'a" where
  "get_or d x = (case x of None \<Rightarrow> d | Some v \<Rightarrow> v)"

lemma get_or_simps [simp]: "get_or d None = d" "get_or d (Some v) = v"
  by (simp_all add: get_or_def)

text \<open>Fields of a message: present or not, or repeated.\<close>

definition opt_field :: "nat \<Rightarrow> ('a \<Rightarrow> wire_value) \<Rightarrow> 'a option \<Rightarrow> field list" where
  "opt_field n put x = (case x of None \<Rightarrow> [] | Some v \<Rightarrow> [(n, put v)])"

definition rep_field :: "nat \<Rightarrow> ('a \<Rightarrow> wire_value) \<Rightarrow> 'a list \<Rightarrow> field list" where
  "rep_field n put xs = map (\<lambda>v. (n, put v)) xs"

subsection \<open>Reading a message\<close>

text \<open>
  \<open>MergePartialFromCodedStream\<close> of a message takes its fields one by one; a step that fails makes it
  return \<open>false\<close>. \<open>ParseFromArray\<close> then asks that all required fields have come.
\<close>

fun merge_fields :: "(field \<Rightarrow> 'm \<Rightarrow> 'm option) \<Rightarrow> field list \<Rightarrow> 'm \<Rightarrow> 'm option" where
  "merge_fields step [] m = Some m"
| "merge_fields step (f # fs) m = Option.bind (step f m) (merge_fields step fs)"

definition merge_from ::
  "wire_lib \<Rightarrow> (field \<Rightarrow> 'm \<Rightarrow> 'm option) \<Rightarrow> 'm \<Rightarrow> byte list \<Rightarrow> 'm option" where
  "merge_from W step m bs = Option.bind (wire_split W bs) (\<lambda>fs. merge_fields step fs m)"

definition parse_from ::
  "wire_lib \<Rightarrow> (field \<Rightarrow> 'm \<Rightarrow> 'm option) \<Rightarrow> ('m \<Rightarrow> bool) \<Rightarrow> 'm \<Rightarrow> byte list \<Rightarrow> 'm option" where
  "parse_from W step initialized m bs =
     (case merge_from W step m bs of
        None \<Rightarrow> None | Some m' \<Rightarrow> if initialized m' then Some m' else None)"

lemma merge_fields_append [simp]:
  "merge_fields step (fs @ gs) m = Option.bind (merge_fields step fs m) (merge_fields step gs)"
  by (induction fs arbitrary: m) (auto split: bind_splits)

lemma merge_fields_Nil [simp]: "merge_fields step [] = Some"
  by (rule ext) simp

lemma merge_opt [simp]:
  "merge_fields step (opt_field n put x) m =
     (case x of None \<Rightarrow> Some m | Some v \<Rightarrow> step (n, put v) m)"
  by (simp add: opt_field_def split: option.splits)

text \<open>A repeated field adds its values one after the other.\<close>

lemma merge_rep:
  assumes "\<And>v m. v \<in> set xs \<Longrightarrow> step (n, put v) m = Some (add v m)"
  shows "merge_fields step (rep_field n put xs) m = Some (fold add xs m)"
  using assms by (induction xs arbitrary: m) (auto simp: rep_field_def)

lemma plain_fields [simp]:
  "list_all plain (opt_field n put x) \<longleftrightarrow> (\<forall>v. x = Some v \<longrightarrow> plain (n, put v))"
  "list_all plain (rep_field n put xs) \<longleftrightarrow> (\<forall>v \<in> set xs. plain (n, put v))"
  by (auto simp: opt_field_def rep_field_def list_all_iff split: option.splits)

lemma plain_put [simp]:
  "plain (n, put_int32 i) \<longleftrightarrow> 0 < n \<and> n < 16" "plain (n, put_bool b) \<longleftrightarrow> 0 < n \<and> n < 16"
  "plain (n, put_string s) \<longleftrightarrow> 0 < n \<and> n < 16" "plain (n, Varint v) \<longleftrightarrow> 0 < n \<and> n < 16"
  "plain (n, Fixed64 v) \<longleftrightarrow> 0 < n \<and> n < 16" "plain (n, Len bs) \<longleftrightarrow> 0 < n \<and> n < 16"
  by (simp_all add: plain_def put_int32_def put_bool_def put_string_def)

lemma field_bounds [simp]:
  "field_bound (n, put_int32 i) = 11" "field_bound (n, put_bool b) = 11" "field_bound (n, Varint v) = 11"
  "field_bound (n, Fixed64 v) = 9"
  "field_bound (n, put_string s) = 11 + length s" "short_field (n, put_int32 i)"
  "short_field (n, put_bool b)" "short_field (n, Varint v)" "short_field (n, Fixed64 v)"
  "short_field (n, put_string s) \<longleftrightarrow> length s < 2 ^ 31"
  by (simp_all add: field_bound_def short_field_def put_int32_def put_bool_def put_string_def)

lemma field_lists [simp]:
  "opt_field n put (Some v) = [(n, put v)]" "opt_field n put None = []"
  by (simp_all add: opt_field_def)

lemma parse_from_join:
  assumes "wire_ok W" and "list_all plain fs" and "merge_fields step fs e = Some m"
    and "initialized m"
  shows "parse_from W step initialized e (wire_join W fs) = Some m"
  using assms by (simp add: parse_from_def merge_from_def wire_okD)

lemma merge_from_join:
  assumes "wire_ok W" and "list_all plain fs"
  shows "merge_from W step e (wire_join W fs) = merge_fields step fs e"
  using assms by (simp add: merge_from_def wire_okD)

end
