(* ===== verification/AgentProtocol.thy ===== *)
theory AgentProtocol imports Wire begin

text \<open>
  The messages between server and agent, \<open>src/lib/AgentProtocol.pb.cc\<close>: per message its fields (an
  option for a required or optional one, a list for a repeated one), the writing of the fields in the
  order of their numbers (\<open>SerializeWithCachedSizes\<close>), the reading of one field
  (\<open>MergePartialFromCodedStream\<close>; unknown fields are skipped) and the test for the required fields
  (\<open>IsInitialized\<close>). The round trips of all of them are at the end of each section.
\<close>

subsection \<open>Enumerations\<close>

datatype agentType =
    AgentIDRequest
  | AgentIDResponse
  | ProcessListRequest
  | ProcessListResponse
  | CounterListRequest
  | CounterListResponse
  | CurrentProcessListSend
  | HealthCheck
  | HealthAck
  | ProcessCommandRequest
  | CounterCommandRequest
  | ProcessRestrictionRequest
  | ProcessRestrictionResponse
  | StartRecord
  | StopRecord
  | ProcessInfoSend
  | MachineInfoSend
  | AgentReady
  | RecordResponse

definition agentType_value :: "agentType \<Rightarrow> int16" where
  "agentType_value t =
     (case t of AgentIDRequest \<Rightarrow> 0
      | AgentIDResponse \<Rightarrow> 1
      | ProcessListRequest \<Rightarrow> 2
      | ProcessListResponse \<Rightarrow> 3
      | CounterListRequest \<Rightarrow> 4
      | CounterListResponse \<Rightarrow> 5
      | CurrentProcessListSend \<Rightarrow> 6
      | HealthCheck \<Rightarrow> 8
      | HealthAck \<Rightarrow> 9
      | ProcessCommandRequest \<Rightarrow> 10
      | CounterCommandRequest \<Rightarrow> 12
      | ProcessRestrictionRequest \<Rightarrow> 14
      | ProcessRestrictionResponse \<Rightarrow> 15
      | StartRecord \<Rightarrow> 16
      | StopRecord \<Rightarrow> 17
      | ProcessInfoSend \<Rightarrow> 18
      | MachineInfoSend \<Rightarrow> 21
      | AgentReady \<Rightarrow> 22
      | RecordResponse \<Rightarrow> 23)"

text \<open>\<open>agentType_IsValid\<close>, with the enumerator a valid number stands for.\<close>

definition agentType_of :: "int16 \<Rightarrow> agentType option" where
  "agentType_of n =
     (if n = 0 then Some AgentIDRequest
      else if n = 1 then Some AgentIDResponse
      else if n = 2 then Some ProcessListRequest
      else if n = 3 then Some ProcessListResponse
      else if n = 4 then Some CounterListRequest
      else if n = 5 then Some CounterListResponse
      else if n = 6 then Some CurrentProcessListSend
      else if n = 8 then Some HealthCheck
      else if n = 9 then Some HealthAck
      else if n = 10 then Some ProcessCommandRequest
      else if n = 12 then Some CounterCommandRequest
      else if n = 14 then Some ProcessRestrictionRequest
      else if n = 15 then Some ProcessRestrictionResponse
      else if n = 16 then Some StartRecord
      else if n = 17 then Some StopRecord
      else if n = 18 then Some ProcessInfoSend
      else if n = 21 then Some MachineInfoSend
      else if n = 22 then Some AgentReady
      else if n = 23 then Some RecordResponse
      else None)"

lemma agentType_of_value [simp]: "agentType_of (agentType_value t) = Some t"
  by (cases t) (simp_all add: agentType_of_def agentType_value_def)

datatype ProcessCommandType =
    START
  | RESTART
  | STOP
  | ADDLIST
  | DELETELIST
  | ALLSTOP

definition ProcessCommandType_value :: "ProcessCommandType \<Rightarrow> int32" where
  "ProcessCommandType_value t =
     (case t of START \<Rightarrow> 0
      | RESTART \<Rightarrow> 1
      | STOP \<Rightarrow> 2
      | ADDLIST \<Rightarrow> 3
      | DELETELIST \<Rightarrow> 4
      | ALLSTOP \<Rightarrow> 5)"

text \<open>\<open>ProcessCommandType_IsValid\<close>, with the enumerator a valid number stands for.\<close>

definition ProcessCommandType_of :: "int32 \<Rightarrow> ProcessCommandType option" where
  "ProcessCommandType_of n =
     (if n = 0 then Some START
      else if n = 1 then Some RESTART
      else if n = 2 then Some STOP
      else if n = 3 then Some ADDLIST
      else if n = 4 then Some DELETELIST
      else if n = 5 then Some ALLSTOP
      else None)"

lemma ProcessCommandType_of_value [simp]: "ProcessCommandType_of (ProcessCommandType_value t) = Some t"
  by (cases t) (simp_all add: ProcessCommandType_of_def ProcessCommandType_value_def)

definition put_ProcessCommandType :: "ProcessCommandType \<Rightarrow> wire_value" where
  "put_ProcessCommandType t = put_int32 (ProcessCommandType_value t)"

datatype CounterCommandType =
    CADDLIST
  | CDELETELIST

definition CounterCommandType_value :: "CounterCommandType \<Rightarrow> int32" where
  "CounterCommandType_value t =
     (case t of CADDLIST \<Rightarrow> 1
      | CDELETELIST \<Rightarrow> 2)"

text \<open>\<open>CounterCommandType_IsValid\<close>, with the enumerator a valid number stands for.\<close>

definition CounterCommandType_of :: "int32 \<Rightarrow> CounterCommandType option" where
  "CounterCommandType_of n =
     (if n = 1 then Some CADDLIST
      else if n = 2 then Some CDELETELIST
      else None)"

lemma CounterCommandType_of_value [simp]: "CounterCommandType_of (CounterCommandType_value t) = Some t"
  by (cases t) (simp_all add: CounterCommandType_of_def CounterCommandType_value_def)

definition put_CounterCommandType :: "CounterCommandType \<Rightarrow> wire_value" where
  "put_CounterCommandType t = put_int32 (CounterCommandType_value t)"

datatype Restriction =
    USER_TIME_LIMIT
  | MAX_WORKING_SET_SIZE
  | MIN_WORKING_SET_SIZE

definition Restriction_value :: "Restriction \<Rightarrow> int32" where
  "Restriction_value t =
     (case t of USER_TIME_LIMIT \<Rightarrow> 0
      | MAX_WORKING_SET_SIZE \<Rightarrow> 1
      | MIN_WORKING_SET_SIZE \<Rightarrow> 2)"

text \<open>\<open>Restriction_IsValid\<close>, with the enumerator a valid number stands for.\<close>

definition Restriction_of :: "int32 \<Rightarrow> Restriction option" where
  "Restriction_of n =
     (if n = 0 then Some USER_TIME_LIMIT
      else if n = 1 then Some MAX_WORKING_SET_SIZE
      else if n = 2 then Some MIN_WORKING_SET_SIZE
      else None)"

lemma Restriction_of_value [simp]: "Restriction_of (Restriction_value t) = Some t"
  by (cases t) (simp_all add: Restriction_of_def Restriction_value_def)

definition put_Restriction :: "Restriction \<Rightarrow> wire_value" where
  "put_Restriction t = put_int32 (Restriction_value t)"

datatype RestrictionResult =
    SUCCESS
  | FAILURE

definition RestrictionResult_value :: "RestrictionResult \<Rightarrow> int32" where
  "RestrictionResult_value t =
     (case t of SUCCESS \<Rightarrow> 0
      | FAILURE \<Rightarrow> 1)"

text \<open>\<open>RestrictionResult_IsValid\<close>, with the enumerator a valid number stands for.\<close>

definition RestrictionResult_of :: "int32 \<Rightarrow> RestrictionResult option" where
  "RestrictionResult_of n =
     (if n = 0 then Some SUCCESS
      else if n = 1 then Some FAILURE
      else None)"

lemma RestrictionResult_of_value [simp]: "RestrictionResult_of (RestrictionResult_value t) = Some t"
  by (cases t) (simp_all add: RestrictionResult_of_def RestrictionResult_value_def)

definition put_RestrictionResult :: "RestrictionResult \<Rightarrow> wire_value" where
  "put_RestrictionResult t = put_int32 (RestrictionResult_value t)"

datatype RecordResult =
    START_SUCCESS
  | START_FAILURE
  | STOP_SUCCESS
  | STOP_FAILURE

definition RecordResult_value :: "RecordResult \<Rightarrow> int32" where
  "RecordResult_value t =
     (case t of START_SUCCESS \<Rightarrow> 0
      | START_FAILURE \<Rightarrow> 1
      | STOP_SUCCESS \<Rightarrow> 2
      | STOP_FAILURE \<Rightarrow> 3)"

text \<open>\<open>RecordResult_IsValid\<close>, with the enumerator a valid number stands for.\<close>

definition RecordResult_of :: "int32 \<Rightarrow> RecordResult option" where
  "RecordResult_of n =
     (if n = 0 then Some START_SUCCESS
      else if n = 1 then Some START_FAILURE
      else if n = 2 then Some STOP_SUCCESS
      else if n = 3 then Some STOP_FAILURE
      else None)"

lemma RecordResult_of_value [simp]: "RecordResult_of (RecordResult_value t) = Some t"
  by (cases t) (simp_all add: RecordResult_of_def RecordResult_value_def)

definition put_RecordResult :: "RecordResult \<Rightarrow> wire_value" where
  "put_RecordResult t = put_int32 (RecordResult_value t)"

lemmas put_enum_defs = put_ProcessCommandType_def put_CounterCommandType_def put_Restriction_def put_RestrictionResult_def put_RecordResult_def

subsection \<open>\<open>csAgentIDRequest\<close>\<close>

record csAgentIDRequest =
  idreq_token :: "int32 option"
  idreq_hostIP :: "int32 option"
  idreq_ramSize :: "real64 option"

definition csAgentIDRequest_empty :: csAgentIDRequest where
  "csAgentIDRequest_empty = \<lparr>idreq_token = None, idreq_hostIP = None, idreq_ramSize = None\<rparr>"

definition csAgentIDRequest_fields :: "csAgentIDRequest \<Rightarrow> field list" where
  "csAgentIDRequest_fields m =
     opt_field 1 put_int32 (idreq_token m) @
     opt_field 2 put_int32 (idreq_hostIP m) @
     opt_field 3 Fixed64 (idreq_ramSize m)"

definition csAgentIDRequest_step :: "field \<Rightarrow> csAgentIDRequest \<Rightarrow> csAgentIDRequest option" where
  "csAgentIDRequest_step f m =
     (case snd f of
        Varint v \<Rightarrow>
          if fst f = 1 then Some (m\<lparr>idreq_token := Some (get_int32 v)\<rparr>)
          else if fst f = 2 then Some (m\<lparr>idreq_hostIP := Some (get_int32 v)\<rparr>)
          else Some m
      | Fixed64 v \<Rightarrow>
          if fst f = 3 then Some (m\<lparr>idreq_ramSize := Some v\<rparr>)
          else Some m
      | _ \<Rightarrow> Some m)"

definition csAgentIDRequest_initialized :: "csAgentIDRequest \<Rightarrow> bool" where
  "csAgentIDRequest_initialized m \<longleftrightarrow> idreq_token m \<noteq> None \<and> idreq_hostIP m \<noteq> None \<and> idreq_ramSize m \<noteq> None"

definition csAgentIDRequest_parse :: "wire_lib \<Rightarrow> byte list \<Rightarrow> csAgentIDRequest option" where
  "csAgentIDRequest_parse W = parse_from W csAgentIDRequest_step csAgentIDRequest_initialized csAgentIDRequest_empty"

definition csAgentIDRequest_serialize :: "wire_lib \<Rightarrow> csAgentIDRequest \<Rightarrow> byte list" where
  "csAgentIDRequest_serialize W m = wire_join W (csAgentIDRequest_fields m)"

lemma csAgentIDRequest_step_put:
  "csAgentIDRequest_step (1, put_int32 x1) m = Some (m\<lparr>idreq_token := Some x1\<rparr>)"
  "csAgentIDRequest_step (2, put_int32 x2) m = Some (m\<lparr>idreq_hostIP := Some x2\<rparr>)"
  "csAgentIDRequest_step (3, Fixed64 x3) m = Some (m\<lparr>idreq_ramSize := Some x3\<rparr>)"
  by (simp_all add: csAgentIDRequest_step_def put_int32_def put_bool_def put_string_def put_enum_defs)

lemma csAgentIDRequest_merge:
  "merge_fields csAgentIDRequest_step (csAgentIDRequest_fields m) csAgentIDRequest_empty = Some m"
  by (cases m) (simp add: csAgentIDRequest_fields_def csAgentIDRequest_empty_def csAgentIDRequest_step_put
      del: One_nat_def split: option.splits)

lemma csAgentIDRequest_plain [simp]: "list_all plain (csAgentIDRequest_fields m)"
  by (simp add: csAgentIDRequest_fields_def put_enum_defs)

lemma csAgentIDRequest_roundtrip:
  "wire_ok W \<Longrightarrow> csAgentIDRequest_initialized m \<Longrightarrow>
   csAgentIDRequest_parse W (csAgentIDRequest_serialize W m) = Some m"
  unfolding csAgentIDRequest_parse_def csAgentIDRequest_serialize_def
  by (rule parse_from_join) (simp_all add: csAgentIDRequest_merge)

subsection \<open>\<open>scAgentIDResponse\<close>\<close>

record scAgentIDResponse =
  idrsp_agentID :: "int32 option"
  idrsp_alreadyRunning :: "bool option"

definition scAgentIDResponse_empty :: scAgentIDResponse where
  "scAgentIDResponse_empty = \<lparr>idrsp_agentID = None, idrsp_alreadyRunning = None\<rparr>"

definition scAgentIDResponse_fields :: "scAgentIDResponse \<Rightarrow> field list" where
  "scAgentIDResponse_fields m =
     opt_field 1 put_int32 (idrsp_agentID m) @
     opt_field 2 put_bool (idrsp_alreadyRunning m)"

definition scAgentIDResponse_step :: "field \<Rightarrow> scAgentIDResponse \<Rightarrow> scAgentIDResponse option" where
  "scAgentIDResponse_step f m =
     (case snd f of
        Varint v \<Rightarrow>
          if fst f = 1 then Some (m\<lparr>idrsp_agentID := Some (get_int32 v)\<rparr>)
          else if fst f = 2 then Some (m\<lparr>idrsp_alreadyRunning := Some (get_bool v)\<rparr>)
          else Some m
      | _ \<Rightarrow> Some m)"

definition scAgentIDResponse_initialized :: "scAgentIDResponse \<Rightarrow> bool" where
  "scAgentIDResponse_initialized m \<longleftrightarrow> idrsp_agentID m \<noteq> None \<and> idrsp_alreadyRunning m \<noteq> None"

definition scAgentIDResponse_parse :: "wire_lib \<Rightarrow> byte list \<Rightarrow> scAgentIDResponse option" where
  "scAgentIDResponse_parse W = parse_from W scAgentIDResponse_step scAgentIDResponse_initialized scAgentIDResponse_empty"

definition scAgentIDResponse_serialize :: "wire_lib \<Rightarrow> scAgentIDResponse \<Rightarrow> byte list" where
  "scAgentIDResponse_serialize W m = wire_join W (scAgentIDResponse_fields m)"

lemma scAgentIDResponse_step_put:
  "scAgentIDResponse_step (1, put_int32 x1) m = Some (m\<lparr>idrsp_agentID := Some x1\<rparr>)"
  "scAgentIDResponse_step (2, put_bool x2) m = Some (m\<lparr>idrsp_alreadyRunning := Some x2\<rparr>)"
  by (simp_all add: scAgentIDResponse_step_def put_int32_def put_bool_def put_string_def put_enum_defs)

lemma scAgentIDResponse_merge:
  "merge_fields scAgentIDResponse_step (scAgentIDResponse_fields m) scAgentIDResponse_empty = Some m"
  by (cases m) (simp add: scAgentIDResponse_fields_def scAgentIDResponse_empty_def scAgentIDResponse_step_put
      del: One_nat_def split: option.splits)

lemma scAgentIDResponse_plain [simp]: "list_all plain (scAgentIDResponse_fields m)"
  by (simp add: scAgentIDResponse_fields_def put_enum_defs)

lemma scAgentIDResponse_roundtrip:
  "wire_ok W \<Longrightarrow> scAgentIDResponse_initialized m \<Longrightarrow>
   scAgentIDResponse_parse W (scAgentIDResponse_serialize W m) = Some m"
  unfolding scAgentIDResponse_parse_def scAgentIDResponse_serialize_def
  by (rule parse_from_join) (simp_all add: scAgentIDResponse_merge)

subsection \<open>\<open>csProcessListRequest\<close>\<close>

datatype csProcessListRequest = csProcessListRequest

definition csProcessListRequest_fields :: "csProcessListRequest \<Rightarrow> field list" where
  "csProcessListRequest_fields m = []"

text \<open>Every field is unknown to it.\<close>

definition csProcessListRequest_step :: "field \<Rightarrow> csProcessListRequest \<Rightarrow> csProcessListRequest option" where
  "csProcessListRequest_step f m = Some m"

definition csProcessListRequest_initialized :: "csProcessListRequest \<Rightarrow> bool" where
  "csProcessListRequest_initialized m = True"

definition csProcessListRequest_parse :: "wire_lib \<Rightarrow> byte list \<Rightarrow> csProcessListRequest option" where
  "csProcessListRequest_parse W = parse_from W csProcessListRequest_step csProcessListRequest_initialized csProcessListRequest"

definition csProcessListRequest_serialize :: "wire_lib \<Rightarrow> csProcessListRequest \<Rightarrow> byte list" where
  "csProcessListRequest_serialize W m = wire_join W (csProcessListRequest_fields m)"

lemma csProcessListRequest_roundtrip:
  "wire_ok W \<Longrightarrow> csProcessListRequest_parse W (csProcessListRequest_serialize W m) = Some m"
  unfolding csProcessListRequest_parse_def csProcessListRequest_serialize_def
  by (rule parse_from_join; cases m) (simp_all add: csProcessListRequest_fields_def csProcessListRequest_initialized_def)

subsection \<open>\<open>scProcessListResponse\<close>\<close>

record scProcessListResponse =
  plrsp_processName :: "string list"

definition scProcessListResponse_empty :: scProcessListResponse where
  "scProcessListResponse_empty = \<lparr>plrsp_processName = []\<rparr>"

definition scProcessListResponse_fields :: "scProcessListResponse \<Rightarrow> field list" where
  "scProcessListResponse_fields m =
     rep_field 1 put_string (plrsp_processName m)"

definition scProcessListResponse_step :: "field \<Rightarrow> scProcessListResponse \<Rightarrow> scProcessListResponse option" where
  "scProcessListResponse_step f m =
     (case snd f of
        Len bs \<Rightarrow>
          if fst f = 1 then Some (m\<lparr>plrsp_processName := plrsp_processName m @ [(get_string bs)]\<rparr>)
          else Some m
      | _ \<Rightarrow> Some m)"

definition scProcessListResponse_initialized :: "scProcessListResponse \<Rightarrow> bool" where
  "scProcessListResponse_initialized m \<longleftrightarrow> True"

definition scProcessListResponse_parse :: "wire_lib \<Rightarrow> byte list \<Rightarrow> scProcessListResponse option" where
  "scProcessListResponse_parse W = parse_from W scProcessListResponse_step scProcessListResponse_initialized scProcessListResponse_empty"

definition scProcessListResponse_serialize :: "wire_lib \<Rightarrow> scProcessListResponse \<Rightarrow> byte list" where
  "scProcessListResponse_serialize W m = wire_join W (scProcessListResponse_fields m)"

lemma scProcessListResponse_step_put:
  "scProcessListResponse_step (1, put_string x1) m = Some (m\<lparr>plrsp_processName := plrsp_processName m @ [x1]\<rparr>)"
  by (simp_all add: scProcessListResponse_step_def put_int32_def put_bool_def put_string_def put_enum_defs)

lemma scProcessListResponse_merge:
  "merge_fields scProcessListResponse_step (scProcessListResponse_fields m) scProcessListResponse_empty = Some m"
proof -
  have add: "fold (\<lambda>x m. m\<lparr>plrsp_processName := plrsp_processName m @ [x]\<rparr>) xs m = m\<lparr>plrsp_processName := plrsp_processName m @ xs\<rparr>" for xs m
    by (induction xs arbitrary: m) simp_all
  have rep: "merge_fields scProcessListResponse_step (rep_field 1 put_string xs) m =
      Some (m\<lparr>plrsp_processName := plrsp_processName m @ xs\<rparr>)" for xs m
    by (subst merge_rep [where add = "\<lambda>x m. m\<lparr>plrsp_processName := plrsp_processName m @ [x]\<rparr>"])
       (simp_all add: add scProcessListResponse_step_put del: One_nat_def)
  show ?thesis
    by (cases m) (simp add: scProcessListResponse_fields_def scProcessListResponse_empty_def rep scProcessListResponse_step_put
        del: One_nat_def split: option.splits)
qed

lemma scProcessListResponse_plain [simp]: "list_all plain (scProcessListResponse_fields m)"
  by (simp add: scProcessListResponse_fields_def put_enum_defs)

lemma scProcessListResponse_roundtrip:
  "wire_ok W \<Longrightarrow> scProcessListResponse_initialized m \<Longrightarrow>
   scProcessListResponse_parse W (scProcessListResponse_serialize W m) = Some m"
  unfolding scProcessListResponse_parse_def scProcessListResponse_serialize_def
  by (rule parse_from_join) (simp_all add: scProcessListResponse_merge)

subsection \<open>\<open>csCounterListRequest\<close>\<close>

record csCounterListRequest =
  clreq_isMachine :: "bool option"

definition csCounterListRequest_empty :: csCounterListRequest where
  "csCounterListRequest_empty = \<lparr>clreq_isMachine = None\<rparr>"

definition csCounterListRequest_fields :: "csCounterListRequest \<Rightarrow> field list" where
  "csCounterListRequest_fields m =
     opt_field 1 put_bool (clreq_isMachine m)"

definition csCounterListRequest_step :: "field \<Rightarrow> csCounterListRequest \<Rightarrow> csCounterListRequest option" where
  "csCounterListRequest_step f m =
     (case snd f of
        Varint v \<Rightarrow>
          if fst f = 1 then Some (m\<lparr>clreq_isMachine := Some (get_bool v)\<rparr>)
          else Some m
      | _ \<Rightarrow> Some m)"

definition csCounterListRequest_initialized :: "csCounterListRequest \<Rightarrow> bool" where
  "csCounterListRequest_initialized m \<longleftrightarrow> clreq_isMachine m \<noteq> None"

definition csCounterListRequest_parse :: "wire_lib \<Rightarrow> byte list \<Rightarrow> csCounterListRequest option" where
  "csCounterListRequest_parse W = parse_from W csCounterListRequest_step csCounterListRequest_initialized csCounterListRequest_empty"

definition csCounterListRequest_serialize :: "wire_lib \<Rightarrow> csCounterListRequest \<Rightarrow> byte list" where
  "csCounterListRequest_serialize W m = wire_join W (csCounterListRequest_fields m)"

lemma csCounterListRequest_step_put:
  "csCounterListRequest_step (1, put_bool x1) m = Some (m\<lparr>clreq_isMachine := Some x1\<rparr>)"
  by (simp_all add: csCounterListRequest_step_def put_int32_def put_bool_def put_string_def put_enum_defs)

lemma csCounterListRequest_merge:
  "merge_fields csCounterListRequest_step (csCounterListRequest_fields m) csCounterListRequest_empty = Some m"
  by (cases m) (simp add: csCounterListRequest_fields_def csCounterListRequest_empty_def csCounterListRequest_step_put
      del: One_nat_def split: option.splits)

lemma csCounterListRequest_plain [simp]: "list_all plain (csCounterListRequest_fields m)"
  by (simp add: csCounterListRequest_fields_def put_enum_defs)

lemma csCounterListRequest_roundtrip:
  "wire_ok W \<Longrightarrow> csCounterListRequest_initialized m \<Longrightarrow>
   csCounterListRequest_parse W (csCounterListRequest_serialize W m) = Some m"
  unfolding csCounterListRequest_parse_def csCounterListRequest_serialize_def
  by (rule parse_from_join) (simp_all add: csCounterListRequest_merge)

subsection \<open>\<open>scCounterListResponse\<close>\<close>

record scCounterListResponse =
  clrsp_isMachine :: "bool option"
  clrsp_counterName :: "string list"

definition scCounterListResponse_empty :: scCounterListResponse where
  "scCounterListResponse_empty = \<lparr>clrsp_isMachine = None, clrsp_counterName = []\<rparr>"

definition scCounterListResponse_fields :: "scCounterListResponse \<Rightarrow> field list" where
  "scCounterListResponse_fields m =
     opt_field 1 put_bool (clrsp_isMachine m) @
     rep_field 2 put_string (clrsp_counterName m)"

definition scCounterListResponse_step :: "field \<Rightarrow> scCounterListResponse \<Rightarrow> scCounterListResponse option" where
  "scCounterListResponse_step f m =
     (case snd f of
        Varint v \<Rightarrow>
          if fst f = 1 then Some (m\<lparr>clrsp_isMachine := Some (get_bool v)\<rparr>)
          else Some m
      | Len bs \<Rightarrow>
          if fst f = 2 then Some (m\<lparr>clrsp_counterName := clrsp_counterName m @ [(get_string bs)]\<rparr>)
          else Some m
      | _ \<Rightarrow> Some m)"

definition scCounterListResponse_initialized :: "scCounterListResponse \<Rightarrow> bool" where
  "scCounterListResponse_initialized m \<longleftrightarrow> clrsp_isMachine m \<noteq> None"

definition scCounterListResponse_parse :: "wire_lib \<Rightarrow> byte list \<Rightarrow> scCounterListResponse option" where
  "scCounterListResponse_parse W = parse_from W scCounterListResponse_step scCounterListResponse_initialized scCounterListResponse_empty"

definition scCounterListResponse_serialize :: "wire_lib \<Rightarrow> scCounterListResponse \<Rightarrow> byte list" where
  "scCounterListResponse_serialize W m = wire_join W (scCounterListResponse_fields m)"

lemma scCounterListResponse_step_put:
  "scCounterListResponse_step (1, put_bool x1) m = Some (m\<lparr>clrsp_isMachine := Some x1\<rparr>)"
  "scCounterListResponse_step (2, put_string x2) m = Some (m\<lparr>clrsp_counterName := clrsp_counterName m @ [x2]\<rparr>)"
  by (simp_all add: scCounterListResponse_step_def put_int32_def put_bool_def put_string_def put_enum_defs)

lemma scCounterListResponse_merge:
  "merge_fields scCounterListResponse_step (scCounterListResponse_fields m) scCounterListResponse_empty = Some m"
proof -
  have add: "fold (\<lambda>x m. m\<lparr>clrsp_counterName := clrsp_counterName m @ [x]\<rparr>) xs m = m\<lparr>clrsp_counterName := clrsp_counterName m @ xs\<rparr>" for xs m
    by (induction xs arbitrary: m) simp_all
  have rep: "merge_fields scCounterListResponse_step (rep_field 2 put_string xs) m =
      Some (m\<lparr>clrsp_counterName := clrsp_counterName m @ xs\<rparr>)" for xs m
    by (subst merge_rep [where add = "\<lambda>x m. m\<lparr>clrsp_counterName := clrsp_counterName m @ [x]\<rparr>"])
       (simp_all add: add scCounterListResponse_step_put del: One_nat_def)
  show ?thesis
    by (cases m) (simp add: scCounterListResponse_fields_def scCounterListResponse_empty_def rep scCounterListResponse_step_put
        del: One_nat_def split: option.splits)
qed

lemma scCounterListResponse_plain [simp]: "list_all plain (scCounterListResponse_fields m)"
  by (simp add: scCounterListResponse_fields_def put_enum_defs)

lemma scCounterListResponse_roundtrip:
  "wire_ok W \<Longrightarrow> scCounterListResponse_initialized m \<Longrightarrow>
   scCounterListResponse_parse W (scCounterListResponse_serialize W m) = Some m"
  unfolding scCounterListResponse_parse_def scCounterListResponse_serialize_def
  by (rule parse_from_join) (simp_all add: scCounterListResponse_merge)

subsection \<open>\<open>csAgentReady\<close>\<close>

datatype csAgentReady = csAgentReady

definition csAgentReady_fields :: "csAgentReady \<Rightarrow> field list" where
  "csAgentReady_fields m = []"

text \<open>Every field is unknown to it.\<close>

definition csAgentReady_step :: "field \<Rightarrow> csAgentReady \<Rightarrow> csAgentReady option" where
  "csAgentReady_step f m = Some m"

definition csAgentReady_initialized :: "csAgentReady \<Rightarrow> bool" where
  "csAgentReady_initialized m = True"

definition csAgentReady_parse :: "wire_lib \<Rightarrow> byte list \<Rightarrow> csAgentReady option" where
  "csAgentReady_parse W = parse_from W csAgentReady_step csAgentReady_initialized csAgentReady"

definition csAgentReady_serialize :: "wire_lib \<Rightarrow> csAgentReady \<Rightarrow> byte list" where
  "csAgentReady_serialize W m = wire_join W (csAgentReady_fields m)"

lemma csAgentReady_roundtrip:
  "wire_ok W \<Longrightarrow> csAgentReady_parse W (csAgentReady_serialize W m) = Some m"
  unfolding csAgentReady_parse_def csAgentReady_serialize_def
  by (rule parse_from_join; cases m) (simp_all add: csAgentReady_fields_def csAgentReady_initialized_def)

subsection \<open>\<open>CurrentProcess\<close>\<close>

record CurrentProcess =
  cp_processName :: "string option"
  cp_processID :: "int32 list"

definition CurrentProcess_empty :: CurrentProcess where
  "CurrentProcess_empty = \<lparr>cp_processName = None, cp_processID = []\<rparr>"

definition CurrentProcess_fields :: "CurrentProcess \<Rightarrow> field list" where
  "CurrentProcess_fields m =
     opt_field 1 put_string (cp_processName m) @
     rep_field 2 put_int32 (cp_processID m)"

definition CurrentProcess_step :: "wire_lib \<Rightarrow> field \<Rightarrow> CurrentProcess \<Rightarrow> CurrentProcess option" where
  "CurrentProcess_step W f m =
     (case snd f of
        Varint v \<Rightarrow>
          if fst f = 2 then Some (m\<lparr>cp_processID := cp_processID m @ [(get_int32 v)]\<rparr>)
          else Some m
      | Len bs \<Rightarrow>
          if fst f = 1 then Some (m\<lparr>cp_processName := Some (get_string bs)\<rparr>)
          else if fst f = 2 then map_option (\<lambda>vs. m\<lparr>cp_processID := cp_processID m @ map get_int32 vs\<rparr>) (wire_packed W bs)
          else Some m
      | _ \<Rightarrow> Some m)"

definition CurrentProcess_initialized :: "CurrentProcess \<Rightarrow> bool" where
  "CurrentProcess_initialized m \<longleftrightarrow> cp_processName m \<noteq> None"

definition CurrentProcess_parse :: "wire_lib \<Rightarrow> byte list \<Rightarrow> CurrentProcess option" where
  "CurrentProcess_parse W = parse_from W (CurrentProcess_step W) CurrentProcess_initialized CurrentProcess_empty"

definition CurrentProcess_serialize :: "wire_lib \<Rightarrow> CurrentProcess \<Rightarrow> byte list" where
  "CurrentProcess_serialize W m = wire_join W (CurrentProcess_fields m)"

lemma CurrentProcess_step_put:
  "(CurrentProcess_step W) (1, put_string x1) m = Some (m\<lparr>cp_processName := Some x1\<rparr>)"
  "(CurrentProcess_step W) (2, put_int32 x2) m = Some (m\<lparr>cp_processID := cp_processID m @ [x2]\<rparr>)"
  by (simp_all add: CurrentProcess_step_def put_int32_def put_bool_def put_string_def put_enum_defs)

lemma CurrentProcess_merge:
  "merge_fields (CurrentProcess_step W) (CurrentProcess_fields m) CurrentProcess_empty = Some m"
proof -
  have add: "fold (\<lambda>x m. m\<lparr>cp_processID := cp_processID m @ [x]\<rparr>) xs m = m\<lparr>cp_processID := cp_processID m @ xs\<rparr>" for xs m
    by (induction xs arbitrary: m) simp_all
  have rep: "merge_fields (CurrentProcess_step W) (rep_field 2 put_int32 xs) m =
      Some (m\<lparr>cp_processID := cp_processID m @ xs\<rparr>)" for xs m
    by (subst merge_rep [where add = "\<lambda>x m. m\<lparr>cp_processID := cp_processID m @ [x]\<rparr>"])
       (simp_all add: add CurrentProcess_step_put del: One_nat_def)
  show ?thesis
    by (cases m) (simp add: CurrentProcess_fields_def CurrentProcess_empty_def rep CurrentProcess_step_put
        del: One_nat_def split: option.splits)
qed

lemma CurrentProcess_plain [simp]: "list_all plain (CurrentProcess_fields m)"
  by (simp add: CurrentProcess_fields_def put_enum_defs)

lemma CurrentProcess_roundtrip:
  "wire_ok W \<Longrightarrow> CurrentProcess_initialized m \<Longrightarrow>
   CurrentProcess_parse W (CurrentProcess_serialize W m) = Some m"
  unfolding CurrentProcess_parse_def CurrentProcess_serialize_def
  by (rule parse_from_join) (simp_all add: CurrentProcess_merge)

subsection \<open>\<open>csCurrentProcessListSend\<close>\<close>

record csCurrentProcessListSend =
  cpl_processInfo :: "CurrentProcess list"

definition csCurrentProcessListSend_empty :: csCurrentProcessListSend where
  "csCurrentProcessListSend_empty = \<lparr>cpl_processInfo = []\<rparr>"

definition csCurrentProcessListSend_fields :: "wire_lib \<Rightarrow> csCurrentProcessListSend \<Rightarrow> field list" where
  "csCurrentProcessListSend_fields W m =
     rep_field 1 (\<lambda>x. Len (wire_join W (CurrentProcess_fields x))) (cpl_processInfo m)"

definition csCurrentProcessListSend_step :: "wire_lib \<Rightarrow> field \<Rightarrow> csCurrentProcessListSend \<Rightarrow> csCurrentProcessListSend option" where
  "csCurrentProcessListSend_step W f m =
     (case snd f of
        Len bs \<Rightarrow>
          if fst f = 1 then map_option (\<lambda>x. m\<lparr>cpl_processInfo := cpl_processInfo m @ [x]\<rparr>)
             (merge_from W (CurrentProcess_step W) CurrentProcess_empty bs)
          else Some m
      | _ \<Rightarrow> Some m)"

definition csCurrentProcessListSend_initialized :: "csCurrentProcessListSend \<Rightarrow> bool" where
  "csCurrentProcessListSend_initialized m \<longleftrightarrow> list_all CurrentProcess_initialized (cpl_processInfo m)"

definition csCurrentProcessListSend_parse :: "wire_lib \<Rightarrow> byte list \<Rightarrow> csCurrentProcessListSend option" where
  "csCurrentProcessListSend_parse W = parse_from W (csCurrentProcessListSend_step W) csCurrentProcessListSend_initialized csCurrentProcessListSend_empty"

definition csCurrentProcessListSend_serialize :: "wire_lib \<Rightarrow> csCurrentProcessListSend \<Rightarrow> byte list" where
  "csCurrentProcessListSend_serialize W m = wire_join W (csCurrentProcessListSend_fields W m)"

lemma csCurrentProcessListSend_step_put:
  "wire_ok W \<Longrightarrow>
   (csCurrentProcessListSend_step W) (1, Len (wire_join W (CurrentProcess_fields x1))) m = Some (m\<lparr>cpl_processInfo := cpl_processInfo m @ [x1]\<rparr>)"
  by (simp_all add: csCurrentProcessListSend_step_def put_int32_def put_bool_def put_string_def put_enum_defs merge_from_join CurrentProcess_merge)

lemma csCurrentProcessListSend_merge:
  "wire_ok W \<Longrightarrow> merge_fields (csCurrentProcessListSend_step W) (csCurrentProcessListSend_fields W m) csCurrentProcessListSend_empty = Some m"
proof -
  assume ok: "wire_ok W"
  have add: "fold (\<lambda>x m. m\<lparr>cpl_processInfo := cpl_processInfo m @ [x]\<rparr>) xs m = m\<lparr>cpl_processInfo := cpl_processInfo m @ xs\<rparr>" for xs m
    by (induction xs arbitrary: m) simp_all
  have rep: "merge_fields (csCurrentProcessListSend_step W) (rep_field 1 (\<lambda>x. Len (wire_join W (CurrentProcess_fields x))) xs) m =
      Some (m\<lparr>cpl_processInfo := cpl_processInfo m @ xs\<rparr>)" for xs m
    by (subst merge_rep [where add = "\<lambda>x m. m\<lparr>cpl_processInfo := cpl_processInfo m @ [x]\<rparr>"])
       (simp_all add: add csCurrentProcessListSend_step_put del: One_nat_def add: ok)
  show ?thesis
    by (cases m) (simp add: csCurrentProcessListSend_fields_def csCurrentProcessListSend_empty_def rep csCurrentProcessListSend_step_put ok
        del: One_nat_def split: option.splits)
qed

lemma csCurrentProcessListSend_plain [simp]: "list_all plain (csCurrentProcessListSend_fields W m)"
  by (simp add: csCurrentProcessListSend_fields_def put_enum_defs)

lemma csCurrentProcessListSend_roundtrip:
  "wire_ok W \<Longrightarrow> csCurrentProcessListSend_initialized m \<Longrightarrow>
   csCurrentProcessListSend_parse W (csCurrentProcessListSend_serialize W m) = Some m"
  unfolding csCurrentProcessListSend_parse_def csCurrentProcessListSend_serialize_def
  by (rule parse_from_join) (simp_all add: csCurrentProcessListSend_merge)

subsection \<open>\<open>scHealthCheck\<close>\<close>

datatype scHealthCheck = scHealthCheck

definition scHealthCheck_fields :: "scHealthCheck \<Rightarrow> field list" where
  "scHealthCheck_fields m = []"

text \<open>Every field is unknown to it.\<close>

definition scHealthCheck_step :: "field \<Rightarrow> scHealthCheck \<Rightarrow> scHealthCheck option" where
  "scHealthCheck_step f m = Some m"

definition scHealthCheck_initialized :: "scHealthCheck \<Rightarrow> bool" where
  "scHealthCheck_initialized m = True"

definition scHealthCheck_parse :: "wire_lib \<Rightarrow> byte list \<Rightarrow> scHealthCheck option" where
  "scHealthCheck_parse W = parse_from W scHealthCheck_step scHealthCheck_initialized scHealthCheck"

definition scHealthCheck_serialize :: "wire_lib \<Rightarrow> scHealthCheck \<Rightarrow> byte list" where
  "scHealthCheck_serialize W m = wire_join W (scHealthCheck_fields m)"

lemma scHealthCheck_roundtrip:
  "wire_ok W \<Longrightarrow> scHealthCheck_parse W (scHealthCheck_serialize W m) = Some m"
  unfolding scHealthCheck_parse_def scHealthCheck_serialize_def
  by (rule parse_from_join; cases m) (simp_all add: scHealthCheck_fields_def scHealthCheck_initialized_def)

subsection \<open>\<open>csHealthAck\<close>\<close>

datatype csHealthAck = csHealthAck

definition csHealthAck_fields :: "csHealthAck \<Rightarrow> field list" where
  "csHealthAck_fields m = []"

text \<open>Every field is unknown to it.\<close>

definition csHealthAck_step :: "field \<Rightarrow> csHealthAck \<Rightarrow> csHealthAck option" where
  "csHealthAck_step f m = Some m"

definition csHealthAck_initialized :: "csHealthAck \<Rightarrow> bool" where
  "csHealthAck_initialized m = True"

definition csHealthAck_parse :: "wire_lib \<Rightarrow> byte list \<Rightarrow> csHealthAck option" where
  "csHealthAck_parse W = parse_from W csHealthAck_step csHealthAck_initialized csHealthAck"

definition csHealthAck_serialize :: "wire_lib \<Rightarrow> csHealthAck \<Rightarrow> byte list" where
  "csHealthAck_serialize W m = wire_join W (csHealthAck_fields m)"

lemma csHealthAck_roundtrip:
  "wire_ok W \<Longrightarrow> csHealthAck_parse W (csHealthAck_serialize W m) = Some m"
  unfolding csHealthAck_parse_def csHealthAck_serialize_def
  by (rule parse_from_join; cases m) (simp_all add: csHealthAck_fields_def csHealthAck_initialized_def)

subsection \<open>\<open>scProcessCommandRequest\<close>\<close>

record scProcessCommandRequest =
  pcmd_type :: "ProcessCommandType option"
  pcmd_processName :: "string option"

definition scProcessCommandRequest_empty :: scProcessCommandRequest where
  "scProcessCommandRequest_empty = \<lparr>pcmd_type = None, pcmd_processName = None\<rparr>"

definition scProcessCommandRequest_fields :: "scProcessCommandRequest \<Rightarrow> field list" where
  "scProcessCommandRequest_fields m =
     opt_field 1 put_ProcessCommandType (pcmd_type m) @
     opt_field 2 put_string (pcmd_processName m)"

definition scProcessCommandRequest_step :: "field \<Rightarrow> scProcessCommandRequest \<Rightarrow> scProcessCommandRequest option" where
  "scProcessCommandRequest_step f m =
     (case snd f of
        Varint v \<Rightarrow>
          if fst f = 1 then Some (case ProcessCommandType_of (get_int32 v) of None \<Rightarrow> m | Some t \<Rightarrow> m\<lparr>pcmd_type := Some t\<rparr>)
          else Some m
      | Len bs \<Rightarrow>
          if fst f = 2 then Some (m\<lparr>pcmd_processName := Some (get_string bs)\<rparr>)
          else Some m
      | _ \<Rightarrow> Some m)"

definition scProcessCommandRequest_initialized :: "scProcessCommandRequest \<Rightarrow> bool" where
  "scProcessCommandRequest_initialized m \<longleftrightarrow> pcmd_type m \<noteq> None \<and> pcmd_processName m \<noteq> None"

definition scProcessCommandRequest_parse :: "wire_lib \<Rightarrow> byte list \<Rightarrow> scProcessCommandRequest option" where
  "scProcessCommandRequest_parse W = parse_from W scProcessCommandRequest_step scProcessCommandRequest_initialized scProcessCommandRequest_empty"

definition scProcessCommandRequest_serialize :: "wire_lib \<Rightarrow> scProcessCommandRequest \<Rightarrow> byte list" where
  "scProcessCommandRequest_serialize W m = wire_join W (scProcessCommandRequest_fields m)"

lemma scProcessCommandRequest_step_put:
  "scProcessCommandRequest_step (1, put_ProcessCommandType x1) m = Some (m\<lparr>pcmd_type := Some x1\<rparr>)"
  "scProcessCommandRequest_step (2, put_string x2) m = Some (m\<lparr>pcmd_processName := Some x2\<rparr>)"
  by (simp_all add: scProcessCommandRequest_step_def put_int32_def put_bool_def put_string_def put_enum_defs)

lemma scProcessCommandRequest_merge:
  "merge_fields scProcessCommandRequest_step (scProcessCommandRequest_fields m) scProcessCommandRequest_empty = Some m"
  by (cases m) (simp add: scProcessCommandRequest_fields_def scProcessCommandRequest_empty_def scProcessCommandRequest_step_put
      del: One_nat_def split: option.splits)

lemma scProcessCommandRequest_plain [simp]: "list_all plain (scProcessCommandRequest_fields m)"
  by (simp add: scProcessCommandRequest_fields_def put_enum_defs)

lemma scProcessCommandRequest_roundtrip:
  "wire_ok W \<Longrightarrow> scProcessCommandRequest_initialized m \<Longrightarrow>
   scProcessCommandRequest_parse W (scProcessCommandRequest_serialize W m) = Some m"
  unfolding scProcessCommandRequest_parse_def scProcessCommandRequest_serialize_def
  by (rule parse_from_join) (simp_all add: scProcessCommandRequest_merge)

subsection \<open>\<open>scCounterCommandRequest\<close>\<close>

record scCounterCommandRequest =
  ccmd_type :: "CounterCommandType option"
  ccmd_counterName :: "string option"
  ccmd_isMachine :: "bool option"

definition scCounterCommandRequest_empty :: scCounterCommandRequest where
  "scCounterCommandRequest_empty = \<lparr>ccmd_type = None, ccmd_counterName = None, ccmd_isMachine = None\<rparr>"

definition scCounterCommandRequest_fields :: "scCounterCommandRequest \<Rightarrow> field list" where
  "scCounterCommandRequest_fields m =
     opt_field 1 put_CounterCommandType (ccmd_type m) @
     opt_field 2 put_string (ccmd_counterName m) @
     opt_field 3 put_bool (ccmd_isMachine m)"

definition scCounterCommandRequest_step :: "field \<Rightarrow> scCounterCommandRequest \<Rightarrow> scCounterCommandRequest option" where
  "scCounterCommandRequest_step f m =
     (case snd f of
        Varint v \<Rightarrow>
          if fst f = 1 then Some (case CounterCommandType_of (get_int32 v) of None \<Rightarrow> m | Some t \<Rightarrow> m\<lparr>ccmd_type := Some t\<rparr>)
          else if fst f = 3 then Some (m\<lparr>ccmd_isMachine := Some (get_bool v)\<rparr>)
          else Some m
      | Len bs \<Rightarrow>
          if fst f = 2 then Some (m\<lparr>ccmd_counterName := Some (get_string bs)\<rparr>)
          else Some m
      | _ \<Rightarrow> Some m)"

definition scCounterCommandRequest_initialized :: "scCounterCommandRequest \<Rightarrow> bool" where
  "scCounterCommandRequest_initialized m \<longleftrightarrow> ccmd_type m \<noteq> None \<and> ccmd_counterName m \<noteq> None \<and> ccmd_isMachine m \<noteq> None"

definition scCounterCommandRequest_parse :: "wire_lib \<Rightarrow> byte list \<Rightarrow> scCounterCommandRequest option" where
  "scCounterCommandRequest_parse W = parse_from W scCounterCommandRequest_step scCounterCommandRequest_initialized scCounterCommandRequest_empty"

definition scCounterCommandRequest_serialize :: "wire_lib \<Rightarrow> scCounterCommandRequest \<Rightarrow> byte list" where
  "scCounterCommandRequest_serialize W m = wire_join W (scCounterCommandRequest_fields m)"

lemma scCounterCommandRequest_step_put:
  "scCounterCommandRequest_step (1, put_CounterCommandType x1) m = Some (m\<lparr>ccmd_type := Some x1\<rparr>)"
  "scCounterCommandRequest_step (2, put_string x2) m = Some (m\<lparr>ccmd_counterName := Some x2\<rparr>)"
  "scCounterCommandRequest_step (3, put_bool x3) m = Some (m\<lparr>ccmd_isMachine := Some x3\<rparr>)"
  by (simp_all add: scCounterCommandRequest_step_def put_int32_def put_bool_def put_string_def put_enum_defs)

lemma scCounterCommandRequest_merge:
  "merge_fields scCounterCommandRequest_step (scCounterCommandRequest_fields m) scCounterCommandRequest_empty = Some m"
  by (cases m) (simp add: scCounterCommandRequest_fields_def scCounterCommandRequest_empty_def scCounterCommandRequest_step_put
      del: One_nat_def split: option.splits)

lemma scCounterCommandRequest_plain [simp]: "list_all plain (scCounterCommandRequest_fields m)"
  by (simp add: scCounterCommandRequest_fields_def put_enum_defs)

lemma scCounterCommandRequest_roundtrip:
  "wire_ok W \<Longrightarrow> scCounterCommandRequest_initialized m \<Longrightarrow>
   scCounterCommandRequest_parse W (scCounterCommandRequest_serialize W m) = Some m"
  unfolding scCounterCommandRequest_parse_def scCounterCommandRequest_serialize_def
  by (rule parse_from_join) (simp_all add: scCounterCommandRequest_merge)

subsection \<open>\<open>scStartRecord\<close>\<close>

record scStartRecord =
  start_isMachine :: "bool option"
  start_totalRecordTime :: "int32 option"
  start_interval :: "int32 option"
  start_responseTime :: "int32 option"
  start_delay :: "int64 option"

definition scStartRecord_empty :: scStartRecord where
  "scStartRecord_empty = \<lparr>start_isMachine = None, start_totalRecordTime = None, start_interval = None, start_responseTime = None, start_delay = None\<rparr>"

definition scStartRecord_fields :: "scStartRecord \<Rightarrow> field list" where
  "scStartRecord_fields m =
     opt_field 1 put_int32 (start_totalRecordTime m) @
     opt_field 2 put_int32 (start_interval m) @
     opt_field 3 put_int32 (start_responseTime m) @
     opt_field 4 Varint (start_delay m) @
     opt_field 5 put_bool (start_isMachine m)"

definition scStartRecord_step :: "field \<Rightarrow> scStartRecord \<Rightarrow> scStartRecord option" where
  "scStartRecord_step f m =
     (case snd f of
        Varint v \<Rightarrow>
          if fst f = 1 then Some (m\<lparr>start_totalRecordTime := Some (get_int32 v)\<rparr>)
          else if fst f = 2 then Some (m\<lparr>start_interval := Some (get_int32 v)\<rparr>)
          else if fst f = 3 then Some (m\<lparr>start_responseTime := Some (get_int32 v)\<rparr>)
          else if fst f = 4 then Some (m\<lparr>start_delay := Some v\<rparr>)
          else if fst f = 5 then Some (m\<lparr>start_isMachine := Some (get_bool v)\<rparr>)
          else Some m
      | _ \<Rightarrow> Some m)"

definition scStartRecord_initialized :: "scStartRecord \<Rightarrow> bool" where
  "scStartRecord_initialized m \<longleftrightarrow> start_isMachine m \<noteq> None \<and> start_totalRecordTime m \<noteq> None \<and> start_interval m \<noteq> None \<and> start_responseTime m \<noteq> None"

definition scStartRecord_parse :: "wire_lib \<Rightarrow> byte list \<Rightarrow> scStartRecord option" where
  "scStartRecord_parse W = parse_from W scStartRecord_step scStartRecord_initialized scStartRecord_empty"

definition scStartRecord_serialize :: "wire_lib \<Rightarrow> scStartRecord \<Rightarrow> byte list" where
  "scStartRecord_serialize W m = wire_join W (scStartRecord_fields m)"

lemma scStartRecord_step_put:
  "scStartRecord_step (1, put_int32 x1) m = Some (m\<lparr>start_totalRecordTime := Some x1\<rparr>)"
  "scStartRecord_step (2, put_int32 x2) m = Some (m\<lparr>start_interval := Some x2\<rparr>)"
  "scStartRecord_step (3, put_int32 x3) m = Some (m\<lparr>start_responseTime := Some x3\<rparr>)"
  "scStartRecord_step (4, Varint x4) m = Some (m\<lparr>start_delay := Some x4\<rparr>)"
  "scStartRecord_step (5, put_bool x5) m = Some (m\<lparr>start_isMachine := Some x5\<rparr>)"
  by (simp_all add: scStartRecord_step_def put_int32_def put_bool_def put_string_def put_enum_defs)

lemma scStartRecord_merge:
  "merge_fields scStartRecord_step (scStartRecord_fields m) scStartRecord_empty = Some m"
  by (cases m) (simp add: scStartRecord_fields_def scStartRecord_empty_def scStartRecord_step_put
      del: One_nat_def split: option.splits)

lemma scStartRecord_plain [simp]: "list_all plain (scStartRecord_fields m)"
  by (simp add: scStartRecord_fields_def put_enum_defs)

lemma scStartRecord_roundtrip:
  "wire_ok W \<Longrightarrow> scStartRecord_initialized m \<Longrightarrow>
   scStartRecord_parse W (scStartRecord_serialize W m) = Some m"
  unfolding scStartRecord_parse_def scStartRecord_serialize_def
  by (rule parse_from_join) (simp_all add: scStartRecord_merge)

subsection \<open>\<open>scStopRecord\<close>\<close>

record scStopRecord =
  stop_isMachine :: "bool option"

definition scStopRecord_empty :: scStopRecord where
  "scStopRecord_empty = \<lparr>stop_isMachine = None\<rparr>"

definition scStopRecord_fields :: "scStopRecord \<Rightarrow> field list" where
  "scStopRecord_fields m =
     opt_field 1 put_bool (stop_isMachine m)"

definition scStopRecord_step :: "field \<Rightarrow> scStopRecord \<Rightarrow> scStopRecord option" where
  "scStopRecord_step f m =
     (case snd f of
        Varint v \<Rightarrow>
          if fst f = 1 then Some (m\<lparr>stop_isMachine := Some (get_bool v)\<rparr>)
          else Some m
      | _ \<Rightarrow> Some m)"

definition scStopRecord_initialized :: "scStopRecord \<Rightarrow> bool" where
  "scStopRecord_initialized m \<longleftrightarrow> stop_isMachine m \<noteq> None"

definition scStopRecord_parse :: "wire_lib \<Rightarrow> byte list \<Rightarrow> scStopRecord option" where
  "scStopRecord_parse W = parse_from W scStopRecord_step scStopRecord_initialized scStopRecord_empty"

definition scStopRecord_serialize :: "wire_lib \<Rightarrow> scStopRecord \<Rightarrow> byte list" where
  "scStopRecord_serialize W m = wire_join W (scStopRecord_fields m)"

lemma scStopRecord_step_put:
  "scStopRecord_step (1, put_bool x1) m = Some (m\<lparr>stop_isMachine := Some x1\<rparr>)"
  by (simp_all add: scStopRecord_step_def put_int32_def put_bool_def put_string_def put_enum_defs)

lemma scStopRecord_merge:
  "merge_fields scStopRecord_step (scStopRecord_fields m) scStopRecord_empty = Some m"
  by (cases m) (simp add: scStopRecord_fields_def scStopRecord_empty_def scStopRecord_step_put
      del: One_nat_def split: option.splits)

lemma scStopRecord_plain [simp]: "list_all plain (scStopRecord_fields m)"
  by (simp add: scStopRecord_fields_def put_enum_defs)

lemma scStopRecord_roundtrip:
  "wire_ok W \<Longrightarrow> scStopRecord_initialized m \<Longrightarrow>
   scStopRecord_parse W (scStopRecord_serialize W m) = Some m"
  unfolding scStopRecord_parse_def scStopRecord_serialize_def
  by (rule parse_from_join) (simp_all add: scStopRecord_merge)

subsection \<open>\<open>Log\<close>\<close>

record Log =
  log_timeStamp :: "int64 option"
  log_value :: "real64 option"

definition Log_empty :: Log where
  "Log_empty = \<lparr>log_timeStamp = None, log_value = None\<rparr>"

definition Log_fields :: "Log \<Rightarrow> field list" where
  "Log_fields m =
     opt_field 1 Varint (log_timeStamp m) @
     opt_field 2 Fixed64 (log_value m)"

definition Log_step :: "field \<Rightarrow> Log \<Rightarrow> Log option" where
  "Log_step f m =
     (case snd f of
        Varint v \<Rightarrow>
          if fst f = 1 then Some (m\<lparr>log_timeStamp := Some v\<rparr>)
          else Some m
      | Fixed64 v \<Rightarrow>
          if fst f = 2 then Some (m\<lparr>log_value := Some v\<rparr>)
          else Some m
      | _ \<Rightarrow> Some m)"

definition Log_initialized :: "Log \<Rightarrow> bool" where
  "Log_initialized m \<longleftrightarrow> log_timeStamp m \<noteq> None \<and> log_value m \<noteq> None"

definition Log_parse :: "wire_lib \<Rightarrow> byte list \<Rightarrow> Log option" where
  "Log_parse W = parse_from W Log_step Log_initialized Log_empty"

definition Log_serialize :: "wire_lib \<Rightarrow> Log \<Rightarrow> byte list" where
  "Log_serialize W m = wire_join W (Log_fields m)"

lemma Log_step_put:
  "Log_step (1, Varint x1) m = Some (m\<lparr>log_timeStamp := Some x1\<rparr>)"
  "Log_step (2, Fixed64 x2) m = Some (m\<lparr>log_value := Some x2\<rparr>)"
  by (simp_all add: Log_step_def put_int32_def put_bool_def put_string_def put_enum_defs)

lemma Log_merge:
  "merge_fields Log_step (Log_fields m) Log_empty = Some m"
  by (cases m) (simp add: Log_fields_def Log_empty_def Log_step_put
      del: One_nat_def split: option.splits)

lemma Log_plain [simp]: "list_all plain (Log_fields m)"
  by (simp add: Log_fields_def put_enum_defs)

lemma Log_roundtrip:
  "wire_ok W \<Longrightarrow> Log_initialized m \<Longrightarrow>
   Log_parse W (Log_serialize W m) = Some m"
  unfolding Log_parse_def Log_serialize_def
  by (rule parse_from_join) (simp_all add: Log_merge)

subsection \<open>\<open>ProcessInfos\<close>\<close>

record ProcessInfos =
  pi_counterName :: "string option"
  pi_processName :: "string option"
  pi_processID :: "int32 option"
  pi_logs :: "Log list"

definition ProcessInfos_empty :: ProcessInfos where
  "ProcessInfos_empty = \<lparr>pi_counterName = None, pi_processName = None, pi_processID = None, pi_logs = []\<rparr>"

definition ProcessInfos_fields :: "wire_lib \<Rightarrow> ProcessInfos \<Rightarrow> field list" where
  "ProcessInfos_fields W m =
     opt_field 1 put_string (pi_counterName m) @
     opt_field 2 put_string (pi_processName m) @
     opt_field 3 put_int32 (pi_processID m) @
     rep_field 4 (\<lambda>x. Len (wire_join W (Log_fields x))) (pi_logs m)"

definition ProcessInfos_step :: "wire_lib \<Rightarrow> field \<Rightarrow> ProcessInfos \<Rightarrow> ProcessInfos option" where
  "ProcessInfos_step W f m =
     (case snd f of
        Varint v \<Rightarrow>
          if fst f = 3 then Some (m\<lparr>pi_processID := Some (get_int32 v)\<rparr>)
          else Some m
      | Len bs \<Rightarrow>
          if fst f = 1 then Some (m\<lparr>pi_counterName := Some (get_string bs)\<rparr>)
          else if fst f = 2 then Some (m\<lparr>pi_processName := Some (get_string bs)\<rparr>)
          else if fst f = 4 then map_option (\<lambda>x. m\<lparr>pi_logs := pi_logs m @ [x]\<rparr>)
             (merge_from W Log_step Log_empty bs)
          else Some m
      | _ \<Rightarrow> Some m)"

definition ProcessInfos_initialized :: "ProcessInfos \<Rightarrow> bool" where
  "ProcessInfos_initialized m \<longleftrightarrow> pi_counterName m \<noteq> None \<and> pi_processName m \<noteq> None \<and> pi_processID m \<noteq> None \<and> list_all Log_initialized (pi_logs m)"

definition ProcessInfos_parse :: "wire_lib \<Rightarrow> byte list \<Rightarrow> ProcessInfos option" where
  "ProcessInfos_parse W = parse_from W (ProcessInfos_step W) ProcessInfos_initialized ProcessInfos_empty"

definition ProcessInfos_serialize :: "wire_lib \<Rightarrow> ProcessInfos \<Rightarrow> byte list" where
  "ProcessInfos_serialize W m = wire_join W (ProcessInfos_fields W m)"

lemma ProcessInfos_step_put:
  "(ProcessInfos_step W) (1, put_string x1) m = Some (m\<lparr>pi_counterName := Some x1\<rparr>)"
  "(ProcessInfos_step W) (2, put_string x2) m = Some (m\<lparr>pi_processName := Some x2\<rparr>)"
  "(ProcessInfos_step W) (3, put_int32 x3) m = Some (m\<lparr>pi_processID := Some x3\<rparr>)"
  "wire_ok W \<Longrightarrow>
   (ProcessInfos_step W) (4, Len (wire_join W (Log_fields x4))) m = Some (m\<lparr>pi_logs := pi_logs m @ [x4]\<rparr>)"
  by (simp_all add: ProcessInfos_step_def put_int32_def put_bool_def put_string_def put_enum_defs merge_from_join Log_merge)

lemma ProcessInfos_merge:
  "wire_ok W \<Longrightarrow> merge_fields (ProcessInfos_step W) (ProcessInfos_fields W m) ProcessInfos_empty = Some m"
proof -
  assume ok: "wire_ok W"
  have add: "fold (\<lambda>x m. m\<lparr>pi_logs := pi_logs m @ [x]\<rparr>) xs m = m\<lparr>pi_logs := pi_logs m @ xs\<rparr>" for xs m
    by (induction xs arbitrary: m) simp_all
  have rep: "merge_fields (ProcessInfos_step W) (rep_field 4 (\<lambda>x. Len (wire_join W (Log_fields x))) xs) m =
      Some (m\<lparr>pi_logs := pi_logs m @ xs\<rparr>)" for xs m
    by (subst merge_rep [where add = "\<lambda>x m. m\<lparr>pi_logs := pi_logs m @ [x]\<rparr>"])
       (simp_all add: add ProcessInfos_step_put del: One_nat_def add: ok)
  show ?thesis
    by (cases m) (simp add: ProcessInfos_fields_def ProcessInfos_empty_def rep ProcessInfos_step_put ok
        del: One_nat_def split: option.splits)
qed

lemma ProcessInfos_plain [simp]: "list_all plain (ProcessInfos_fields W m)"
  by (simp add: ProcessInfos_fields_def put_enum_defs)

lemma ProcessInfos_roundtrip:
  "wire_ok W \<Longrightarrow> ProcessInfos_initialized m \<Longrightarrow>
   ProcessInfos_parse W (ProcessInfos_serialize W m) = Some m"
  unfolding ProcessInfos_parse_def ProcessInfos_serialize_def
  by (rule parse_from_join) (simp_all add: ProcessInfos_merge)

subsection \<open>\<open>csTotalProcessInfoSend\<close>\<close>

record csTotalProcessInfoSend =
  tpi_info :: "ProcessInfos list"

definition csTotalProcessInfoSend_empty :: csTotalProcessInfoSend where
  "csTotalProcessInfoSend_empty = \<lparr>tpi_info = []\<rparr>"

definition csTotalProcessInfoSend_fields :: "wire_lib \<Rightarrow> csTotalProcessInfoSend \<Rightarrow> field list" where
  "csTotalProcessInfoSend_fields W m =
     rep_field 1 (\<lambda>x. Len (wire_join W (ProcessInfos_fields W x))) (tpi_info m)"

definition csTotalProcessInfoSend_step :: "wire_lib \<Rightarrow> field \<Rightarrow> csTotalProcessInfoSend \<Rightarrow> csTotalProcessInfoSend option" where
  "csTotalProcessInfoSend_step W f m =
     (case snd f of
        Len bs \<Rightarrow>
          if fst f = 1 then map_option (\<lambda>x. m\<lparr>tpi_info := tpi_info m @ [x]\<rparr>)
             (merge_from W (ProcessInfos_step W) ProcessInfos_empty bs)
          else Some m
      | _ \<Rightarrow> Some m)"

definition csTotalProcessInfoSend_initialized :: "csTotalProcessInfoSend \<Rightarrow> bool" where
  "csTotalProcessInfoSend_initialized m \<longleftrightarrow> list_all ProcessInfos_initialized (tpi_info m)"

definition csTotalProcessInfoSend_parse :: "wire_lib \<Rightarrow> byte list \<Rightarrow> csTotalProcessInfoSend option" where
  "csTotalProcessInfoSend_parse W = parse_from W (csTotalProcessInfoSend_step W) csTotalProcessInfoSend_initialized csTotalProcessInfoSend_empty"

definition csTotalProcessInfoSend_serialize :: "wire_lib \<Rightarrow> csTotalProcessInfoSend \<Rightarrow> byte list" where
  "csTotalProcessInfoSend_serialize W m = wire_join W (csTotalProcessInfoSend_fields W m)"

lemma csTotalProcessInfoSend_step_put:
  "wire_ok W \<Longrightarrow>
   (csTotalProcessInfoSend_step W) (1, Len (wire_join W (ProcessInfos_fields W x1))) m = Some (m\<lparr>tpi_info := tpi_info m @ [x1]\<rparr>)"
  by (simp_all add: csTotalProcessInfoSend_step_def put_int32_def put_bool_def put_string_def put_enum_defs merge_from_join ProcessInfos_merge)

lemma csTotalProcessInfoSend_merge:
  "wire_ok W \<Longrightarrow> merge_fields (csTotalProcessInfoSend_step W) (csTotalProcessInfoSend_fields W m) csTotalProcessInfoSend_empty = Some m"
proof -
  assume ok: "wire_ok W"
  have add: "fold (\<lambda>x m. m\<lparr>tpi_info := tpi_info m @ [x]\<rparr>) xs m = m\<lparr>tpi_info := tpi_info m @ xs\<rparr>" for xs m
    by (induction xs arbitrary: m) simp_all
  have rep: "merge_fields (csTotalProcessInfoSend_step W) (rep_field 1 (\<lambda>x. Len (wire_join W (ProcessInfos_fields W x))) xs) m =
      Some (m\<lparr>tpi_info := tpi_info m @ xs\<rparr>)" for xs m
    by (subst merge_rep [where add = "\<lambda>x m. m\<lparr>tpi_info := tpi_info m @ [x]\<rparr>"])
       (simp_all add: add csTotalProcessInfoSend_step_put del: One_nat_def add: ok)
  show ?thesis
    by (cases m) (simp add: csTotalProcessInfoSend_fields_def csTotalProcessInfoSend_empty_def rep csTotalProcessInfoSend_step_put ok
        del: One_nat_def split: option.splits)
qed

lemma csTotalProcessInfoSend_plain [simp]: "list_all plain (csTotalProcessInfoSend_fields W m)"
  by (simp add: csTotalProcessInfoSend_fields_def put_enum_defs)

lemma csTotalProcessInfoSend_roundtrip:
  "wire_ok W \<Longrightarrow> csTotalProcessInfoSend_initialized m \<Longrightarrow>
   csTotalProcessInfoSend_parse W (csTotalProcessInfoSend_serialize W m) = Some m"
  unfolding csTotalProcessInfoSend_parse_def csTotalProcessInfoSend_serialize_def
  by (rule parse_from_join) (simp_all add: csTotalProcessInfoSend_merge)

subsection \<open>\<open>MachineInfos\<close>\<close>

record MachineInfos =
  mi_counterName :: "string option"
  mi_logs :: "Log list"

definition MachineInfos_empty :: MachineInfos where
  "MachineInfos_empty = \<lparr>mi_counterName = None, mi_logs = []\<rparr>"

definition MachineInfos_fields :: "wire_lib \<Rightarrow> MachineInfos \<Rightarrow> field list" where
  "MachineInfos_fields W m =
     opt_field 1 put_string (mi_counterName m) @
     rep_field 2 (\<lambda>x. Len (wire_join W (Log_fields x))) (mi_logs m)"

definition MachineInfos_step :: "wire_lib \<Rightarrow> field \<Rightarrow> MachineInfos \<Rightarrow> MachineInfos option" where
  "MachineInfos_step W f m =
     (case snd f of
        Len bs \<Rightarrow>
          if fst f = 1 then Some (m\<lparr>mi_counterName := Some (get_string bs)\<rparr>)
          else if fst f = 2 then map_option (\<lambda>x. m\<lparr>mi_logs := mi_logs m @ [x]\<rparr>)
             (merge_from W Log_step Log_empty bs)
          else Some m
      | _ \<Rightarrow> Some m)"

definition MachineInfos_initialized :: "MachineInfos \<Rightarrow> bool" where
  "MachineInfos_initialized m \<longleftrightarrow> mi_counterName m \<noteq> None \<and> list_all Log_initialized (mi_logs m)"

definition MachineInfos_parse :: "wire_lib \<Rightarrow> byte list \<Rightarrow> MachineInfos option" where
  "MachineInfos_parse W = parse_from W (MachineInfos_step W) MachineInfos_initialized MachineInfos_empty"

definition MachineInfos_serialize :: "wire_lib \<Rightarrow> MachineInfos \<Rightarrow> byte list" where
  "MachineInfos_serialize W m = wire_join W (MachineInfos_fields W m)"

lemma MachineInfos_step_put:
  "(MachineInfos_step W) (1, put_string x1) m = Some (m\<lparr>mi_counterName := Some x1\<rparr>)"
  "wire_ok W \<Longrightarrow>
   (MachineInfos_step W) (2, Len (wire_join W (Log_fields x2))) m = Some (m\<lparr>mi_logs := mi_logs m @ [x2]\<rparr>)"
  by (simp_all add: MachineInfos_step_def put_int32_def put_bool_def put_string_def put_enum_defs merge_from_join Log_merge)

lemma MachineInfos_merge:
  "wire_ok W \<Longrightarrow> merge_fields (MachineInfos_step W) (MachineInfos_fields W m) MachineInfos_empty = Some m"
proof -
  assume ok: "wire_ok W"
  have add: "fold (\<lambda>x m. m\<lparr>mi_logs := mi_logs m @ [x]\<rparr>) xs m = m\<lparr>mi_logs := mi_logs m @ xs\<rparr>" for xs m
    by (induction xs arbitrary: m) simp_all
  have rep: "merge_fields (MachineInfos_step W) (rep_field 2 (\<lambda>x. Len (wire_join W (Log_fields x))) xs) m =
      Some (m\<lparr>mi_logs := mi_logs m @ xs\<rparr>)" for xs m
    by (subst merge_rep [where add = "\<lambda>x m. m\<lparr>mi_logs := mi_logs m @ [x]\<rparr>"])
       (simp_all add: add MachineInfos_step_put del: One_nat_def add: ok)
  show ?thesis
    by (cases m) (simp add: MachineInfos_fields_def MachineInfos_empty_def rep MachineInfos_step_put ok
        del: One_nat_def split: option.splits)
qed

lemma MachineInfos_plain [simp]: "list_all plain (MachineInfos_fields W m)"
  by (simp add: MachineInfos_fields_def put_enum_defs)

lemma MachineInfos_roundtrip:
  "wire_ok W \<Longrightarrow> MachineInfos_initialized m \<Longrightarrow>
   MachineInfos_parse W (MachineInfos_serialize W m) = Some m"
  unfolding MachineInfos_parse_def MachineInfos_serialize_def
  by (rule parse_from_join) (simp_all add: MachineInfos_merge)

subsection \<open>\<open>csTotalMachineInfoSend\<close>\<close>

record csTotalMachineInfoSend =
  tmi_info :: "MachineInfos list"

definition csTotalMachineInfoSend_empty :: csTotalMachineInfoSend where
  "csTotalMachineInfoSend_empty = \<lparr>tmi_info = []\<rparr>"

definition csTotalMachineInfoSend_fields :: "wire_lib \<Rightarrow> csTotalMachineInfoSend \<Rightarrow> field list" where
  "csTotalMachineInfoSend_fields W m =
     rep_field 1 (\<lambda>x. Len (wire_join W (MachineInfos_fields W x))) (tmi_info m)"

definition csTotalMachineInfoSend_step :: "wire_lib \<Rightarrow> field \<Rightarrow> csTotalMachineInfoSend \<Rightarrow> csTotalMachineInfoSend option" where
  "csTotalMachineInfoSend_step W f m =
     (case snd f of
        Len bs \<Rightarrow>
          if fst f = 1 then map_option (\<lambda>x. m\<lparr>tmi_info := tmi_info m @ [x]\<rparr>)
             (merge_from W (MachineInfos_step W) MachineInfos_empty bs)
          else Some m
      | _ \<Rightarrow> Some m)"

definition csTotalMachineInfoSend_initialized :: "csTotalMachineInfoSend \<Rightarrow> bool" where
  "csTotalMachineInfoSend_initialized m \<longleftrightarrow> list_all MachineInfos_initialized (tmi_info m)"

definition csTotalMachineInfoSend_parse :: "wire_lib \<Rightarrow> byte list \<Rightarrow> csTotalMachineInfoSend option" where
  "csTotalMachineInfoSend_parse W = parse_from W (csTotalMachineInfoSend_step W) csTotalMachineInfoSend_initialized csTotalMachineInfoSend_empty"

definition csTotalMachineInfoSend_serialize :: "wire_lib \<Rightarrow> csTotalMachineInfoSend \<Rightarrow> byte list" where
  "csTotalMachineInfoSend_serialize W m = wire_join W (csTotalMachineInfoSend_fields W m)"

lemma csTotalMachineInfoSend_step_put:
  "wire_ok W \<Longrightarrow>
   (csTotalMachineInfoSend_step W) (1, Len (wire_join W (MachineInfos_fields W x1))) m = Some (m\<lparr>tmi_info := tmi_info m @ [x1]\<rparr>)"
  by (simp_all add: csTotalMachineInfoSend_step_def put_int32_def put_bool_def put_string_def put_enum_defs merge_from_join MachineInfos_merge)

lemma csTotalMachineInfoSend_merge:
  "wire_ok W \<Longrightarrow> merge_fields (csTotalMachineInfoSend_step W) (csTotalMachineInfoSend_fields W m) csTotalMachineInfoSend_empty = Some m"
proof -
  assume ok: "wire_ok W"
  have add: "fold (\<lambda>x m. m\<lparr>tmi_info := tmi_info m @ [x]\<rparr>) xs m = m\<lparr>tmi_info := tmi_info m @ xs\<rparr>" for xs m
    by (induction xs arbitrary: m) simp_all
  have rep: "merge_fields (csTotalMachineInfoSend_step W) (rep_field 1 (\<lambda>x. Len (wire_join W (MachineInfos_fields W x))) xs) m =
      Some (m\<lparr>tmi_info := tmi_info m @ xs\<rparr>)" for xs m
    by (subst merge_rep [where add = "\<lambda>x m. m\<lparr>tmi_info := tmi_info m @ [x]\<rparr>"])
       (simp_all add: add csTotalMachineInfoSend_step_put del: One_nat_def add: ok)
  show ?thesis
    by (cases m) (simp add: csTotalMachineInfoSend_fields_def csTotalMachineInfoSend_empty_def rep csTotalMachineInfoSend_step_put ok
        del: One_nat_def split: option.splits)
qed

lemma csTotalMachineInfoSend_plain [simp]: "list_all plain (csTotalMachineInfoSend_fields W m)"
  by (simp add: csTotalMachineInfoSend_fields_def put_enum_defs)

lemma csTotalMachineInfoSend_roundtrip:
  "wire_ok W \<Longrightarrow> csTotalMachineInfoSend_initialized m \<Longrightarrow>
   csTotalMachineInfoSend_parse W (csTotalMachineInfoSend_serialize W m) = Some m"
  unfolding csTotalMachineInfoSend_parse_def csTotalMachineInfoSend_serialize_def
  by (rule parse_from_join) (simp_all add: csTotalMachineInfoSend_merge)

subsection \<open>\<open>scProcessRestrictionRequest\<close>\<close>

record scProcessRestrictionRequest =
  rreq_processID :: "int32 option"
  rreq_type :: "Restriction option"
  rreq_value1 :: "int32 option"
  rreq_value2 :: "int32 option"

definition scProcessRestrictionRequest_empty :: scProcessRestrictionRequest where
  "scProcessRestrictionRequest_empty = \<lparr>rreq_processID = None, rreq_type = None, rreq_value1 = None, rreq_value2 = None\<rparr>"

definition scProcessRestrictionRequest_fields :: "scProcessRestrictionRequest \<Rightarrow> field list" where
  "scProcessRestrictionRequest_fields m =
     opt_field 1 put_int32 (rreq_processID m) @
     opt_field 2 put_Restriction (rreq_type m) @
     opt_field 3 put_int32 (rreq_value1 m) @
     opt_field 4 put_int32 (rreq_value2 m)"

definition scProcessRestrictionRequest_step :: "field \<Rightarrow> scProcessRestrictionRequest \<Rightarrow> scProcessRestrictionRequest option" where
  "scProcessRestrictionRequest_step f m =
     (case snd f of
        Varint v \<Rightarrow>
          if fst f = 1 then Some (m\<lparr>rreq_processID := Some (get_int32 v)\<rparr>)
          else if fst f = 2 then Some (case Restriction_of (get_int32 v) of None \<Rightarrow> m | Some t \<Rightarrow> m\<lparr>rreq_type := Some t\<rparr>)
          else if fst f = 3 then Some (m\<lparr>rreq_value1 := Some (get_int32 v)\<rparr>)
          else if fst f = 4 then Some (m\<lparr>rreq_value2 := Some (get_int32 v)\<rparr>)
          else Some m
      | _ \<Rightarrow> Some m)"

definition scProcessRestrictionRequest_initialized :: "scProcessRestrictionRequest \<Rightarrow> bool" where
  "scProcessRestrictionRequest_initialized m \<longleftrightarrow> rreq_processID m \<noteq> None \<and> rreq_type m \<noteq> None \<and> rreq_value1 m \<noteq> None"

definition scProcessRestrictionRequest_parse :: "wire_lib \<Rightarrow> byte list \<Rightarrow> scProcessRestrictionRequest option" where
  "scProcessRestrictionRequest_parse W = parse_from W scProcessRestrictionRequest_step scProcessRestrictionRequest_initialized scProcessRestrictionRequest_empty"

definition scProcessRestrictionRequest_serialize :: "wire_lib \<Rightarrow> scProcessRestrictionRequest \<Rightarrow> byte list" where
  "scProcessRestrictionRequest_serialize W m = wire_join W (scProcessRestrictionRequest_fields m)"

lemma scProcessRestrictionRequest_step_put:
  "scProcessRestrictionRequest_step (1, put_int32 x1) m = Some (m\<lparr>rreq_processID := Some x1\<rparr>)"
  "scProcessRestrictionRequest_step (2, put_Restriction x2) m = Some (m\<lparr>rreq_type := Some x2\<rparr>)"
  "scProcessRestrictionRequest_step (3, put_int32 x3) m = Some (m\<lparr>rreq_value1 := Some x3\<rparr>)"
  "scProcessRestrictionRequest_step (4, put_int32 x4) m = Some (m\<lparr>rreq_value2 := Some x4\<rparr>)"
  by (simp_all add: scProcessRestrictionRequest_step_def put_int32_def put_bool_def put_string_def put_enum_defs)

lemma scProcessRestrictionRequest_merge:
  "merge_fields scProcessRestrictionRequest_step (scProcessRestrictionRequest_fields m) scProcessRestrictionRequest_empty = Some m"
  by (cases m) (simp add: scProcessRestrictionRequest_fields_def scProcessRestrictionRequest_empty_def scProcessRestrictionRequest_step_put
      del: One_nat_def split: option.splits)

lemma scProcessRestrictionRequest_plain [simp]: "list_all plain (scProcessRestrictionRequest_fields m)"
  by (simp add: scProcessRestrictionRequest_fields_def put_enum_defs)

lemma scProcessRestrictionRequest_roundtrip:
  "wire_ok W \<Longrightarrow> scProcessRestrictionRequest_initialized m \<Longrightarrow>
   scProcessRestrictionRequest_parse W (scProcessRestrictionRequest_serialize W m) = Some m"
  unfolding scProcessRestrictionRequest_parse_def scProcessRestrictionRequest_serialize_def
  by (rule parse_from_join) (simp_all add: scProcessRestrictionRequest_merge)

subsection \<open>\<open>csProcessRestrictionResponse\<close>\<close>

record csProcessRestrictionResponse =
  rrsp_processID :: "int32 option"
  rrsp_type :: "Restriction option"
  rrsp_result :: "RestrictionResult option"
  rrsp_failReason :: "string option"

definition csProcessRestrictionResponse_empty :: csProcessRestrictionResponse where
  "csProcessRestrictionResponse_empty = \<lparr>rrsp_processID = None, rrsp_type = None, rrsp_result = None, rrsp_failReason = None\<rparr>"

definition csProcessRestrictionResponse_fields :: "csProcessRestrictionResponse \<Rightarrow> field list" where
  "csProcessRestrictionResponse_fields m =
     opt_field 1 put_int32 (rrsp_processID m) @
     opt_field 2 put_Restriction (rrsp_type m) @
     opt_field 3 put_RestrictionResult (rrsp_result m) @
     opt_field 4 put_string (rrsp_failReason m)"

definition csProcessRestrictionResponse_step :: "field \<Rightarrow> csProcessRestrictionResponse \<Rightarrow> csProcessRestrictionResponse option" where
  "csProcessRestrictionResponse_step f m =
     (case snd f of
        Varint v \<Rightarrow>
          if fst f = 1 then Some (m\<lparr>rrsp_processID := Some (get_int32 v)\<rparr>)
          else if fst f = 2 then Some (case Restriction_of (get_int32 v) of None \<Rightarrow> m | Some t \<Rightarrow> m\<lparr>rrsp_type := Some t\<rparr>)
          else if fst f = 3 then Some (case RestrictionResult_of (get_int32 v) of None \<Rightarrow> m | Some t \<Rightarrow> m\<lparr>rrsp_result := Some t\<rparr>)
          else Some m
      | Len bs \<Rightarrow>
          if fst f = 4 then Some (m\<lparr>rrsp_failReason := Some (get_string bs)\<rparr>)
          else Some m
      | _ \<Rightarrow> Some m)"

definition csProcessRestrictionResponse_initialized :: "csProcessRestrictionResponse \<Rightarrow> bool" where
  "csProcessRestrictionResponse_initialized m \<longleftrightarrow> rrsp_processID m \<noteq> None \<and> rrsp_type m \<noteq> None \<and> rrsp_result m \<noteq> None"

definition csProcessRestrictionResponse_parse :: "wire_lib \<Rightarrow> byte list \<Rightarrow> csProcessRestrictionResponse option" where
  "csProcessRestrictionResponse_parse W = parse_from W csProcessRestrictionResponse_step csProcessRestrictionResponse_initialized csProcessRestrictionResponse_empty"

definition csProcessRestrictionResponse_serialize :: "wire_lib \<Rightarrow> csProcessRestrictionResponse \<Rightarrow> byte list" where
  "csProcessRestrictionResponse_serialize W m = wire_join W (csProcessRestrictionResponse_fields m)"

lemma csProcessRestrictionResponse_step_put:
  "csProcessRestrictionResponse_step (1, put_int32 x1) m = Some (m\<lparr>rrsp_processID := Some x1\<rparr>)"
  "csProcessRestrictionResponse_step (2, put_Restriction x2) m = Some (m\<lparr>rrsp_type := Some x2\<rparr>)"
  "csProcessRestrictionResponse_step (3, put_RestrictionResult x3) m = Some (m\<lparr>rrsp_result := Some x3\<rparr>)"
  "csProcessRestrictionResponse_step (4, put_string x4) m = Some (m\<lparr>rrsp_failReason := Some x4\<rparr>)"
  by (simp_all add: csProcessRestrictionResponse_step_def put_int32_def put_bool_def put_string_def put_enum_defs)

lemma csProcessRestrictionResponse_merge:
  "merge_fields csProcessRestrictionResponse_step (csProcessRestrictionResponse_fields m) csProcessRestrictionResponse_empty = Some m"
  by (cases m) (simp add: csProcessRestrictionResponse_fields_def csProcessRestrictionResponse_empty_def csProcessRestrictionResponse_step_put
      del: One_nat_def split: option.splits)

lemma csProcessRestrictionResponse_plain [simp]: "list_all plain (csProcessRestrictionResponse_fields m)"
  by (simp add: csProcessRestrictionResponse_fields_def put_enum_defs)

lemma csProcessRestrictionResponse_roundtrip:
  "wire_ok W \<Longrightarrow> csProcessRestrictionResponse_initialized m \<Longrightarrow>
   csProcessRestrictionResponse_parse W (csProcessRestrictionResponse_serialize W m) = Some m"
  unfolding csProcessRestrictionResponse_parse_def csProcessRestrictionResponse_serialize_def
  by (rule parse_from_join) (simp_all add: csProcessRestrictionResponse_merge)

subsection \<open>\<open>csRecordResponse\<close>\<close>

record csRecordResponse =
  rec_isMachine :: "bool option"
  rec_result :: "RecordResult option"
  rec_failReason :: "string option"

definition csRecordResponse_empty :: csRecordResponse where
  "csRecordResponse_empty = \<lparr>rec_isMachine = None, rec_result = None, rec_failReason = None\<rparr>"

definition csRecordResponse_fields :: "csRecordResponse \<Rightarrow> field list" where
  "csRecordResponse_fields m =
     opt_field 3 put_RecordResult (rec_result m) @
     opt_field 4 put_string (rec_failReason m) @
     opt_field 5 put_bool (rec_isMachine m)"

definition csRecordResponse_step :: "field \<Rightarrow> csRecordResponse \<Rightarrow> csRecordResponse option" where
  "csRecordResponse_step f m =
     (case snd f of
        Varint v \<Rightarrow>
          if fst f = 3 then Some (case RecordResult_of (get_int32 v) of None \<Rightarrow> m | Some t \<Rightarrow> m\<lparr>rec_result := Some t\<rparr>)
          else if fst f = 5 then Some (m\<lparr>rec_isMachine := Some (get_bool v)\<rparr>)
          else Some m
      | Len bs \<Rightarrow>
          if fst f = 4 then Some (m\<lparr>rec_failReason := Some (get_string bs)\<rparr>)
          else Some m
      | _ \<Rightarrow> Some m)"

definition csRecordResponse_initialized :: "csRecordResponse \<Rightarrow> bool" where
  "csRecordResponse_initialized m \<longleftrightarrow> rec_isMachine m \<noteq> None \<and> rec_result m \<noteq> None"

definition csRecordResponse_parse :: "wire_lib \<Rightarrow> byte list \<Rightarrow> csRecordResponse option" where
  "csRecordResponse_parse W = parse_from W csRecordResponse_step csRecordResponse_initialized csRecordResponse_empty"

definition csRecordResponse_serialize :: "wire_lib \<Rightarrow> csRecordResponse \<Rightarrow> byte list" where
  "csRecordResponse_serialize W m = wire_join W (csRecordResponse_fields m)"

lemma csRecordResponse_step_put:
  "csRecordResponse_step (3, put_RecordResult x3) m = Some (m\<lparr>rec_result := Some x3\<rparr>)"
  "csRecordResponse_step (4, put_string x4) m = Some (m\<lparr>rec_failReason := Some x4\<rparr>)"
  "csRecordResponse_step (5, put_bool x5) m = Some (m\<lparr>rec_isMachine := Some x5\<rparr>)"
  by (simp_all add: csRecordResponse_step_def put_int32_def put_bool_def put_string_def put_enum_defs)

lemma csRecordResponse_merge:
  "merge_fields csRecordResponse_step (csRecordResponse_fields m) csRecordResponse_empty = Some m"
  by (cases m) (simp add: csRecordResponse_fields_def csRecordResponse_empty_def csRecordResponse_step_put
      del: One_nat_def split: option.splits)

lemma csRecordResponse_plain [simp]: "list_all plain (csRecordResponse_fields m)"
  by (simp add: csRecordResponse_fields_def put_enum_defs)

lemma csRecordResponse_roundtrip:
  "wire_ok W \<Longrightarrow> csRecordResponse_initialized m \<Longrightarrow>
   csRecordResponse_parse W (csRecordResponse_serialize W m) = Some m"
  unfolding csRecordResponse_parse_def csRecordResponse_serialize_def
  by (rule parse_from_join) (simp_all add: csRecordResponse_merge)

end
