(* ===== verification/RedisManager.thy ===== *)
theory RedisManager imports RedisClientImpl AgentProtocol CPacket begin

text \<open>
  The server's store, \<open>AgentServer/RedisManager.cpp\<close>: every method is a sequence of Redis commands and
  of accesses to JSON texts. Neither the Redis server nor the JSON library is part of the repository;
  both are fields of the record \<open>platform\<close>, which the methods take as their first argument. A method
  returns \<open>None\<close> when an exception escapes from it: the connection is lost, or a JSON value is
  used at another type than its own.
\<close>

subsection \<open>What the code uses of its libraries\<close>

record tm =
  tm_sec :: int
  tm_min :: int
  tm_hour :: int
  tm_mday :: int
  tm_mon :: int
  tm_year :: int

record ('s, 'j) platform =
  redis :: "nat \<Rightarrow> 's \<Rightarrow> string list \<Rightarrow> (RedisValue \<times> 's) option"
  json_parse :: "string \<Rightarrow> 'j option"
  json_write :: "'j \<Rightarrow> string"
  json_null :: 'j
  json_int :: "int32 \<Rightarrow> 'j"
  json_bool :: "bool \<Rightarrow> 'j"
  json_string :: "string \<Rightarrow> 'j"
  json_real :: "real64 \<Rightarrow> 'j"
  json_at :: "'j \<Rightarrow> string \<Rightarrow> 'j option"
  json_set :: "'j \<Rightarrow> string \<Rightarrow> 'j \<Rightarrow> 'j option"
  json_asInt :: "'j \<Rightarrow> int32 option"
  json_asString :: "'j \<Rightarrow> string option"
  localtime :: "int64 \<Rightarrow> tm"
  real_div :: "real64 \<Rightarrow> nat \<Rightarrow> real64"
  real_text :: "real64 \<Rightarrow> string"
  wire :: wire_lib

text \<open>
  A manager has its own connection, the lists of defaults and the map from counters to their short
  names; \<open>store\<close> is the state of the Redis server, which all managers share.
\<close>

record 's manager =
  conn :: nat
  store :: 's
  defaultProcessList :: "string list"
  defaultCounterList :: "string list"
  defaultMachineCounterList :: "string list"
  counterNameMap :: "string \<Rightarrow> string option"

definition RedisManager :: "nat \<Rightarrow> 's \<Rightarrow> 's manager" where
  "RedisManager c s =
     \<lparr>conn = c, store = s, defaultProcessList = [], defaultCounterList = [],
      defaultMachineCounterList = [], counterNameMap = Map.empty\<rparr>"

definition redis_command ::
  "('s, 'j) platform \<Rightarrow> string list \<Rightarrow> 's manager \<Rightarrow> (RedisValue \<times> 's manager) option" where
  "redis_command E args m =
     map_option (\<lambda>(v, s). (v, m\<lparr>store := s\<rparr>)) (redis E (conn m) (store m) args)"

text \<open>\<open>unordered_map::insert\<close> keeps the value of a key that is there already.\<close>

definition insert_name :: "string \<Rightarrow> string \<Rightarrow> 's manager \<Rightarrow> 's manager" where
  "insert_name k v m =
     (if counterNameMap m k = None
      then m\<lparr>counterNameMap := (counterNameMap m)(k \<mapsto> v)\<rparr> else m)"

definition to_string :: "int32 \<Rightarrow> string" where
  "to_string i = int_to_dec (sint i)"

subsection \<open>JSON texts\<close>

text \<open>\<open>NULL\<close> is the integer 0, and so is the JSON value made from it.\<close>

definition json_NULL :: "('s, 'j) platform \<Rightarrow> 'j" where
  "json_NULL E = json_int E 0"

definition StrToJson :: "('s, 'j) platform \<Rightarrow> string \<Rightarrow> 'j" where
  "StrToJson E jsonStr =
     (case json_parse E jsonStr of None \<Rightarrow> json_NULL E | Some root \<Rightarrow> root)"

definition JsonToStr :: "('s, 'j) platform \<Rightarrow> 'j \<Rightarrow> string" where
  "JsonToStr E v = json_write E v"

fun json_sets :: "('s, 'j) platform \<Rightarrow> (string \<times> 'j) list \<Rightarrow> 'j \<Rightarrow> 'j option" where
  "json_sets E [] jv = Some jv"
| "json_sets E ((k, v) # kvs) jv = Option.bind (json_set E jv k v) (json_sets E kvs)"

definition json_string_at :: "('s, 'j) platform \<Rightarrow> 'j \<Rightarrow> string \<Rightarrow> string option" where
  "json_string_at E jv k = Option.bind (json_at E jv k) (json_asString E)"

text \<open>\<open>Init\<close>: the connection, and the defaults with their short names.\<close>

definition add_counter ::
  "('s, 'j) platform \<Rightarrow> string \<Rightarrow> string \<Rightarrow> string \<Rightarrow> 'j \<times> 's manager \<Rightarrow> ('j \<times> 's manager) option" where
  "add_counter E name counter unit = (\<lambda>(jv, m).
     map_option (\<lambda>jv. (jv, insert_name counter name m))
       (json_sets E [(''name'', json_string E name), (''counter'', json_string E counter),
                     (''unit'', json_string E unit)] jv))"

text \<open>The path of a performance counter: an object and a counter of it, a backslash before each.\<close>

definition counter_path :: "string \<Rightarrow> string \<Rightarrow> string" where
  "counter_path object counter = CHR 0x5C # object @ CHR 0x5C # counter"

definition Init :: "('s, 'j) platform \<Rightarrow> bool \<Rightarrow> 's manager \<Rightarrow> 's manager option" where
  "Init E connected m =
     (if \<not> connected then Some m
      else do {
        let m = m\<lparr>defaultProcessList := defaultProcessList m @ [''Melon'', ''KakaoTalk'', ''notepad'']\<rparr>;
        (jv, m) \<leftarrow> add_counter E ''CPUTime'' ''% Processor Time'' ''%'' (json_null E, m);
        let m = m\<lparr>defaultCounterList := defaultCounterList m @ [JsonToStr E jv]\<rparr>;
        (jv, m) \<leftarrow> add_counter E ''Memory'' ''Working Set - Private'' ''kB'' (jv, m);
        let m = m\<lparr>defaultCounterList := defaultCounterList m @ [JsonToStr E jv]\<rparr>;
        (jv, m) \<leftarrow> add_counter E ''CPUTime'' (counter_path ''Processor(_Total)'' ''% Processor Time'') ''%'' (jv, m);
        let m = m\<lparr>defaultMachineCounterList := defaultMachineCounterList m @ [JsonToStr E jv]\<rparr>;
        (jv, m) \<leftarrow> add_counter E ''Memory'' (counter_path ''Memory'' ''Available KBytes'') ''kB'' (jv, m);
        let m = m\<lparr>defaultMachineCounterList := defaultMachineCounterList m @ [JsonToStr E jv]\<rparr>;
        (jv, m) \<leftarrow> add_counter E ''Disk'' (counter_path ''LogicalDisk(_Total)'' ''% Free Space'') ''%'' (jv, m);
        Some (m\<lparr>defaultMachineCounterList := defaultMachineCounterList m @ [JsonToStr E jv]\<rparr>)
      })"

subsection \<open>The registry of agents\<close>

definition GetAgentJVByToken ::
  "('s, 'j) platform \<Rightarrow> int32 \<Rightarrow> 's manager \<Rightarrow> ('j \<times> 's manager) option" where
  "GetAgentJVByToken E token m =
     do {
       (result, m) \<leftarrow> redis_command E [''HMGET'', ''AgentList'', to_string token] m;
       Some (if isOk result
             then (case toArray result of
                     [] \<Rightarrow> json_NULL E
                   | v # vs \<Rightarrow> if \<not> isNull v then StrToJson E (toString v) else json_NULL E)
             else json_NULL E, m)
     }"

text \<open>The entry is written back; the reply to that is not looked at.\<close>

definition put_agent ::
  "('s, 'j) platform \<Rightarrow> int32 \<Rightarrow> 'j \<Rightarrow> 's manager \<Rightarrow> (RedisValue \<times> 's manager) option" where
  "put_agent E token jv m =
     redis_command E [''HMSET'', ''AgentList'', to_string token, JsonToStr E jv] m"

definition no_time :: string where "no_time = ''00/00/00 00:00:00''"

definition new_agent ::
  "('s, 'j) platform \<Rightarrow> int32 \<Rightarrow> int32 \<Rightarrow> real64 \<Rightarrow> 'j option" where
  "new_agent E agentID hostIP ramSize =
     json_sets E
       [(''hostIP'', json_int E hostIP),
        (''agentName'', json_string E (''Agent'' @ to_string agentID)),
        (''agentNumber'', json_int E agentID),
        (''isOn'', json_bool E True),
        (''isRecording'', json_bool E False),
        (''startTime'', json_string E no_time),
        (''endTime'', json_string E no_time),
        (''responseTime'', json_int E 0),
        (''ramSize'', json_real E ramSize)] (json_null E)"

definition InitAgent ::
  "('s, 'j) platform \<Rightarrow> int32 \<Rightarrow> int32 \<Rightarrow> real64 \<Rightarrow> 's manager \<Rightarrow> (bool \<times> 's manager) option" where
  "InitAgent E token hostIP ramSize m =
     do {
       (jvv, m) \<leftarrow> GetAgentJVByToken E token m;
       if jvv \<noteq> json_NULL E
       then do {
         jvv \<leftarrow> json_set E jvv ''isOn'' (json_bool E True);
         (_, m) \<leftarrow> put_agent E token jvv m;
         Some (True, m)
       }
       else do {
         (result, m) \<leftarrow> redis_command E [''HLEN'', ''AgentList''] m;
         if \<not> isOk result then Some (False, m)
         else do {
           jv \<leftarrow> new_agent E (toInt result) hostIP ramSize;
           (result, m) \<leftarrow> put_agent E token jv m;
           Some (isOk result, m)
         }
       }
     }"

text \<open>The three changes of an agent's state share their shape.\<close>

definition change_agent ::
  "('s, 'j) platform \<Rightarrow> (string \<times> 'j) list \<Rightarrow> int32 \<Rightarrow> 's manager \<Rightarrow> (bool \<times> 's manager) option" where
  "change_agent E updates token m =
     do {
       (jv, m) \<leftarrow> GetAgentJVByToken E token m;
       if jv \<noteq> json_NULL E
       then do {
         jv \<leftarrow> json_sets E updates jv;
         (_, m) \<leftarrow> put_agent E token jv m;
         Some (True, m)
       }
       else Some (False, m)
     }"

definition ChangeAgentState_isOn ::
  "('s, 'j) platform \<Rightarrow> int32 \<Rightarrow> bool \<Rightarrow> 's manager \<Rightarrow> (bool \<times> 's manager) option" where
  "ChangeAgentState_isOn E token value = change_agent E [(''isOn'', json_bool E value)] token"

text \<open>\<open>sprintf\<close> with \<open>%0<w>d\<close>.\<close>

definition pad :: "nat \<Rightarrow> int \<Rightarrow> string" where
  "pad w i =
     (let digits = nat_to_dec (nat \<bar>i\<bar>); sign = (if i < 0 then ''-'' else [])
      in sign @ replicate (w - length digits - length sign) (CHR ''0'') @ digits)"

definition GetCurrentDate :: "('s, 'j) platform \<Rightarrow> int64 \<Rightarrow> string" where
  "GetCurrentDate E timestamp =
     (let t = localtime E timestamp
      in pad 4 (tm_year t + 1900) @ ''-'' @ pad 2 (tm_mon t + 1) @ ''-'' @ pad 2 (tm_mday t))"

definition GetCurrTime :: "('s, 'j) platform \<Rightarrow> int64 \<Rightarrow> string" where
  "GetCurrTime E timestamp =
     (let t = localtime E timestamp
      in pad 2 (tm_hour t) @ '':'' @ pad 2 (tm_min t) @ '':'' @ pad 2 (tm_sec t))"

text \<open>\<open>now\<close> is what \<open>time(NULL)\<close> returns.\<close>

definition ChangeAgentState_startRecording ::
  "('s, 'j) platform \<Rightarrow> int64 \<Rightarrow> int32 \<Rightarrow> int32 \<Rightarrow> int32 \<Rightarrow> int32 \<Rightarrow> int64 \<Rightarrow> 's manager \<Rightarrow>
   (bool \<times> 's manager) option" where
  "ChangeAgentState_startRecording E now token totalRecordTime responseTime interval delay =
     (let timestamp = now + delay; stop = timestamp + scast totalRecordTime
      in change_agent E
           [(''isRecording'', json_bool E True),
            (''startTime'', json_string E (GetCurrentDate E timestamp @ '' '' @ GetCurrTime E timestamp)),
            (''endTime'', json_string E
               (if 0 <s totalRecordTime then GetCurrentDate E stop @ '' '' @ GetCurrTime E stop
                else ''INFINITE'')),
            (''responseTime'', json_int E responseTime)] token)"

definition ChangeAgentState_stopRecording ::
  "('s, 'j) platform \<Rightarrow> int32 \<Rightarrow> 's manager \<Rightarrow> (bool \<times> 's manager) option" where
  "ChangeAgentState_stopRecording E token =
     change_agent E
       [(''isRecording'', json_bool E False), (''startTime'', json_string E no_time),
        (''endTime'', json_string E no_time), (''responseTime'', json_int E 0)] token"

text \<open>An empty reply array is read beyond its end.\<close>

definition GetAgentID ::
  "('s, 'j) platform \<Rightarrow> int32 \<Rightarrow> 's manager \<Rightarrow> (int32 \<times> 's manager) option" where
  "GetAgentID E token m =
     do {
       (result, m) \<leftarrow> redis_command E [''HMGET'', ''AgentList'', to_string token] m;
       if isOk result
       then (case toArray result of
               [] \<Rightarrow> None
             | v # vs \<Rightarrow>
                 if \<not> isNull v
                 then do {
                   n \<leftarrow> json_at E (StrToJson E (toString v)) ''agentNumber'';
                   n \<leftarrow> json_asInt E n;
                   Some (n, m)
                 }
                 else Some (-1, m))
       else Some (-1, m)
     }"

subsection \<open>Process and counter lists\<close>

text \<open>Adding the defaults one by one; an error ends it.\<close>

fun sadd_all ::
  "('s, 'j) platform \<Rightarrow> string \<Rightarrow> string list \<Rightarrow> string list \<Rightarrow> 's manager \<Rightarrow>
   (bool \<times> string list \<times> 's manager) option" where
  "sadd_all E key [] resultList m = Some (True, resultList, m)"
| "sadd_all E key (s # ss) resultList m =
     do {
       (result, m) \<leftarrow> redis_command E [''sadd'', key, s] m;
       if \<not> isOk result then Some (False, resultList, m)
       else sadd_all E key ss (resultList @ [s]) m
     }"

definition GetProcessList ::
  "('s, 'j) platform \<Rightarrow> int32 \<Rightarrow> 's manager \<Rightarrow> (bool \<times> string list \<times> 's manager) option" where
  "GetProcessList E agentID m =
     (let key = to_string agentID @ '':ProcessList''
      in do {
        (result, m) \<leftarrow> redis_command E [''smembers'', key] m;
        if \<not> isOk result then Some (False, [], m)
        else if \<not> isNull result \<and> toArray result \<noteq> []
        then Some (True, map toString (toArray result), m)
        else sadd_all E key (defaultProcessList m) [] m
      })"

text \<open>The counters of a stored list, with their short names entered into the map.\<close>

fun read_counters ::
  "('s, 'j) platform \<Rightarrow> RedisValue list \<Rightarrow> string list \<Rightarrow> 's manager \<Rightarrow>
   (bool \<times> string list \<times> 's manager) option" where
  "read_counters E [] resultList m = Some (True, resultList, m)"
| "read_counters E (v # vs) resultList m =
     do {
       counter \<leftarrow> json_string_at E (StrToJson E (toString v)) ''counter'';
       name \<leftarrow> json_string_at E (StrToJson E (toString v)) ''name'';
       read_counters E vs (resultList @ [counter]) (insert_name counter name m)
     }"

fun sadd_counters ::
  "('s, 'j) platform \<Rightarrow> string \<Rightarrow> string list \<Rightarrow> string list \<Rightarrow> 's manager \<Rightarrow>
   (bool \<times> string list \<times> 's manager) option" where
  "sadd_counters E key [] resultList m = Some (True, resultList, m)"
| "sadd_counters E key (s # ss) resultList m =
     do {
       (result, m) \<leftarrow> redis_command E [''sadd'', key, s] m;
       if \<not> isOk result then Some (False, resultList, m)
       else do {
         counter \<leftarrow> json_string_at E (StrToJson E s) ''counter'';
         sadd_counters E key ss (resultList @ [counter]) m
       }
     }"

definition counter_key :: "int32 \<Rightarrow> bool \<Rightarrow> string" where
  "counter_key agentID isMachine =
     to_string agentID @ (if \<not> isMachine then '':CounterList'' else '':MachineCounterList'')"

definition GetCounterList ::
  "('s, 'j) platform \<Rightarrow> int32 \<Rightarrow> bool \<Rightarrow> 's manager \<Rightarrow> (bool \<times> string list \<times> 's manager) option" where
  "GetCounterList E agentID isMachine m =
     (let key = counter_key agentID isMachine
      in do {
        (result, m) \<leftarrow> redis_command E [''smembers'', key] m;
        if \<not> isOk result then Some (False, [], m)
        else if \<not> isNull result \<and> toArray result \<noteq> []
        then read_counters E (toArray result) [] m
        else sadd_counters E key
               (if \<not> isMachine then defaultCounterList m else defaultMachineCounterList m) [] m
      })"

text \<open>The answer to the command tells whether the set changed.\<close>

definition changes_set ::
  "('s, 'j) platform \<Rightarrow> string list \<Rightarrow> 's manager \<Rightarrow> (bool \<times> 's manager) option" where
  "changes_set E args m =
     do {
       (result, m) \<leftarrow> redis_command E args m;
       Some (isOk result \<and> toInt result \<noteq> 0, m)
     }"

definition SetProcessName ::
  "('s, 'j) platform \<Rightarrow> int32 \<Rightarrow> string \<Rightarrow> 's manager \<Rightarrow> (bool \<times> 's manager) option" where
  "SetProcessName E agentID processName =
     changes_set E [''sadd'', to_string agentID @ '':ProcessList'', processName]"

definition RemProcessName ::
  "('s, 'j) platform \<Rightarrow> int32 \<Rightarrow> string \<Rightarrow> 's manager \<Rightarrow> (bool \<times> 's manager) option" where
  "RemProcessName E agentID processName =
     changes_set E [''srem'', to_string agentID @ '':ProcessList'', processName]"

text \<open>
  A counter comes from the web as a JSON text. The result is the counter's path, where the method
  returns \<open>true\<close>.
\<close>

definition SetCounterName ::
  "('s, 'j) platform \<Rightarrow> int32 \<Rightarrow> string \<Rightarrow> bool \<Rightarrow> 's manager \<Rightarrow> (string option \<times> 's manager) option" where
  "SetCounterName E agentID counterName isMachine m =
     (let jv = StrToJson E counterName
      in if jv = json_NULL E then Some (None, m)
         else do {
           counter \<leftarrow> json_string_at E jv ''counter'';
           name \<leftarrow> json_string_at E jv ''name'';
           (changed, m) \<leftarrow> changes_set E [''sadd'', counter_key agentID isMachine, counterName]
                                         (insert_name counter name m);
           Some (if changed then Some counter else None, m)
         })"

fun rem_counter ::
  "('s, 'j) platform \<Rightarrow> string \<Rightarrow> string \<Rightarrow> RedisValue list \<Rightarrow> 's manager \<Rightarrow>
   (string option \<times> 's manager) option" where
  "rem_counter E key counterName [] m = Some (None, m)"
| "rem_counter E key counterName (v # vs) m =
     do {
       let jv = StrToJson E (toString v);
       name \<leftarrow> json_string_at E jv ''name'';
       if name = counterName
       then do {
         (changed, m) \<leftarrow> changes_set E [''srem'', key, toString v] m;
         if changed
         then do { counter \<leftarrow> json_string_at E jv ''counter''; Some (Some counter, m) }
         else Some (None, m)
       }
       else rem_counter E key counterName vs m
     }"

definition RemCounterName ::
  "('s, 'j) platform \<Rightarrow> int32 \<Rightarrow> string \<Rightarrow> bool \<Rightarrow> 's manager \<Rightarrow> (string option \<times> 's manager) option" where
  "RemCounterName E agentID counterName isMachine m =
     (let key = counter_key agentID isMachine
      in do {
        (result, m) \<leftarrow> redis_command E [''smembers'', key] m;
        if isOk result \<and> \<not> isNull result
        then rem_counter E key counterName (toArray result) m
        else Some (None, m)
      })"

definition CounterNameToNewName :: "string \<Rightarrow> 's manager \<Rightarrow> string" where
  "CounterNameToNewName counterName m =
     (case counterNameMap m counterName of None \<Rightarrow> ''etc'' | Some name \<Rightarrow> name)"

subsection \<open>What the agents report\<close>

definition pid_text :: "int32 list \<Rightarrow> string" where
  "pid_text pids = concat (map (\<lambda>pid. to_string pid @ '' '') pids)"

fun save_processes ::
  "('s, 'j) platform \<Rightarrow> string \<Rightarrow> CurrentProcess list \<Rightarrow> 's manager \<Rightarrow> (bool \<times> 's manager) option" where
  "save_processes E key [] m = Some (True, m)"
| "save_processes E key (p # ps) m =
     do {
       (result, m) \<leftarrow> redis_command E
          [''hmset'', key, get_or [] (cp_processName p), pid_text (cp_processID p)] m;
       if \<not> isOk result then Some (False, m) else save_processes E key ps m
     }"

text \<open>
  The old list is deleted and the new one entered inside one transaction. A return in the middle
  leaves the transaction open, and a message that does not parse leaves the list empty.
\<close>

definition SaveCurrentProcessList ::
  "('s, 'j) platform \<Rightarrow> int32 \<Rightarrow> CPacket \<Rightarrow> 's manager \<Rightarrow> (bool \<times> 's manager) option" where
  "SaveCurrentProcessList E agentID packet m =
     (let key = to_string agentID @ '':CurrentProcessList''
      in do {
        (result, m) \<leftarrow> redis_command E [''multi''] m;
        if \<not> isOk result then Some (False, m)
        else do {
          (result, m) \<leftarrow> redis_command E [''del'', key] m;
          if \<not> isOk result then Some (False, m)
          else do {
            (ok, m) \<leftarrow> (case csCurrentProcessListSend_parse (wire E) (payload packet) of
                          None \<Rightarrow> Some (True, m)
                        | Some msg \<Rightarrow> save_processes E key (cpl_processInfo msg) m);
            if \<not> ok then Some (False, m)
            else do {
              (result, m) \<leftarrow> redis_command E [''exec''] m;
              Some (isOk result, m)
            }
          }
        }
      })"

fun push_logs ::
  "('s, 'j) platform \<Rightarrow> string \<Rightarrow> (real64 \<Rightarrow> real64) \<Rightarrow> Log list \<Rightarrow> 's manager \<Rightarrow>
   (bool \<times> 's manager) option" where
  "push_logs E key scale [] m = Some (True, m)"
| "push_logs E key scale (l # ls) m =
     do {
       let v = int_to_dec (sint (get_or 0 (log_timeStamp l))) @ '' '' @
               real_text E (scale (get_or 0 (log_value l)));
       (result, m) \<leftarrow> redis_command E [''lpush'', key, v] m;
       if \<not> isOk result then Some (False, m) else push_logs E key scale ls m
     }"

text \<open>The memory counters of processes come in bytes and are stored in units of 1024.\<close>

fun save_process_infos ::
  "('s, 'j) platform \<Rightarrow> string \<Rightarrow> ProcessInfos list \<Rightarrow> 's manager \<Rightarrow> (bool \<times> 's manager) option" where
  "save_process_infos E sID [] m = Some (True, m)"
| "save_process_infos E sID (pi # pis) m =
     do {
       let counterName = CounterNameToNewName (get_or [] (pi_counterName pi)) m;
       let key = sID @ '':'' @ counterName @ '':'' @ get_or [] (pi_processName pi) @ '':'' @
                 to_string (get_or 0 (pi_processID pi));
       (ok, m) \<leftarrow> push_logs E key
          (\<lambda>value. if counterName = ''Memory'' then real_div E value 1024 else value) (pi_logs pi) m;
       if \<not> ok then Some (False, m) else save_process_infos E sID pis m
     }"

definition SaveProcessInfo ::
  "('s, 'j) platform \<Rightarrow> int32 \<Rightarrow> CPacket \<Rightarrow> 's manager \<Rightarrow> (bool \<times> 's manager) option" where
  "SaveProcessInfo E agentID packet m =
     (case csTotalProcessInfoSend_parse (wire E) (payload packet) of
        None \<Rightarrow> Some (True, m)
      | Some msg \<Rightarrow> save_process_infos E (to_string agentID) (tpi_info msg) m)"

fun save_machine_infos ::
  "('s, 'j) platform \<Rightarrow> string \<Rightarrow> MachineInfos list \<Rightarrow> 's manager \<Rightarrow> (bool \<times> 's manager) option" where
  "save_machine_infos E sID [] m = Some (True, m)"
| "save_machine_infos E sID (mi # mis) m =
     do {
       let counterName = CounterNameToNewName (get_or [] (mi_counterName mi)) m;
       (ok, m) \<leftarrow> push_logs E (sID @ '':'' @ counterName @ '':Total'') id (mi_logs mi) m;
       if \<not> ok then Some (False, m) else save_machine_infos E sID mis m
     }"

definition SaveMachineInfo ::
  "('s, 'j) platform \<Rightarrow> int32 \<Rightarrow> CPacket \<Rightarrow> 's manager \<Rightarrow> (bool \<times> 's manager) option" where
  "SaveMachineInfo E agentID packet m =
     (case csTotalMachineInfoSend_parse (wire E) (payload packet) of
        None \<Rightarrow> Some (True, m)
      | Some msg \<Rightarrow> save_machine_infos E (to_string agentID) (tmi_info msg) m)"

end
