(* ===== verification/RedisLaws.thy ===== *)
theory RedisLaws imports RedisManager begin

text \<open>
  What the store relies on: the documented behaviour of the Redis commands it uses, in terms of an
  abstract key space, and of JSON objects. \<open>laws\<close> holds the views of the server's state and of the
  JSON values in which the behaviour is stated.
\<close>

subsection \<open>Redis\<close>

datatype rkey =
    Hash "string \<Rightarrow> string option"
  | Set "string set"
  | List "string list"

type_synonym keyspace = "string \<Rightarrow> rkey option"

record ('s, 'j) laws =
  keys :: "'s \<Rightarrow> keyspace"
  opened :: "'s \<Rightarrow> nat \<Rightarrow> string list list option"
  is_object :: "'j \<Rightarrow> bool"

text \<open>A key that is not there is the empty hash, set or list; one of another type is an error.\<close>

definition hash_at :: "keyspace \<Rightarrow> string \<Rightarrow> (string \<Rightarrow> string option) option" where
  "hash_at ks k = (case ks k of None \<Rightarrow> Some Map.empty | Some (Hash h) \<Rightarrow> Some h | _ \<Rightarrow> None)"

definition set_at :: "keyspace \<Rightarrow> string \<Rightarrow> string set option" where
  "set_at ks k = (case ks k of None \<Rightarrow> Some {} | Some (Set A) \<Rightarrow> Some A | _ \<Rightarrow> None)"

definition list_at :: "keyspace \<Rightarrow> string \<Rightarrow> string list option" where
  "list_at ks k = (case ks k of None \<Rightarrow> Some [] | Some (List xs) \<Rightarrow> Some xs | _ \<Rightarrow> None)"

definition becomes :: "('s, 'j) laws \<Rightarrow> 's \<Rightarrow> string \<Rightarrow> rkey option \<Rightarrow> 's \<Rightarrow> bool" where
  "becomes V s k v s' \<longleftrightarrow> keys V s' = (keys V s)(k := v) \<and> opened V s' = opened V s"

definition hash_laws :: "('s, 'j) platform \<Rightarrow> ('s, 'j) laws \<Rightarrow> bool" where
  "hash_laws E V \<longleftrightarrow>
     (\<forall>c s k h. opened V s c = None \<longrightarrow> hash_at (keys V s) k = Some h \<longrightarrow>
        (\<forall>f. redis E c s [''HMGET'', k, f] =
           Some (RedisValue_array
                   [case h f of None \<Rightarrow> RedisValue_nil | Some v \<Rightarrow> RedisValue_buf v], s)) \<and>
        redis E c s [''HLEN'', k] = Some (RedisValue_int (word_of_nat (card (dom h))), s) \<and>
        (\<forall>f v. \<exists>s'. redis E c s [''HMSET'', k, f, v] = Some (RedisValue_buf ''OK'', s') \<and>
           becomes V s k (Some (Hash (h(f \<mapsto> v)))) s'))"

definition set_laws :: "('s, 'j) platform \<Rightarrow> ('s, 'j) laws \<Rightarrow> bool" where
  "set_laws E V \<longleftrightarrow>
     (\<forall>c s k A. opened V s c = None \<longrightarrow> set_at (keys V s) k = Some A \<longrightarrow>
        (\<exists>xs. redis E c s [''smembers'', k] = Some (RedisValue_array (map RedisValue_buf xs), s) \<and>
           distinct xs \<and> set xs = A) \<and>
        (\<forall>x. \<exists>s'. redis E c s [''sadd'', k, x] =
             Some (RedisValue_int (if x \<in> A then 0 else 1), s') \<and>
           becomes V s k (Some (Set (insert x A))) s') \<and>
        (\<forall>x. \<exists>s'. redis E c s [''srem'', k, x] =
             Some (RedisValue_int (if x \<in> A then 1 else 0), s') \<and>
           becomes V s k (if A - {x} = {} then None else Some (Set (A - {x}))) s'))"

definition list_laws :: "('s, 'j) platform \<Rightarrow> ('s, 'j) laws \<Rightarrow> bool" where
  "list_laws E V \<longleftrightarrow>
     (\<forall>c s k xs. opened V s c = None \<longrightarrow> list_at (keys V s) k = Some xs \<longrightarrow>
        (\<forall>x. \<exists>s'. redis E c s [''lpush'', k, x] =
             Some (RedisValue_int (word_of_nat (Suc (length xs))), s') \<and>
           becomes V s k (Some (List (x # xs))) s'))"

text \<open>Whatever the answer is, also an error for the type of the key, no other key changes.\<close>

definition frame_laws :: "('s, 'j) platform \<Rightarrow> ('s, 'j) laws \<Rightarrow> bool" where
  "frame_laws E V \<longleftrightarrow>
     (\<forall>c s cmd k args v s'. opened V s c = None \<longrightarrow>
        cmd \<in> {''smembers'', ''sadd'', ''srem'', ''lpush''} \<longrightarrow>
        redis E c s (cmd # k # args) = Some (v, s') \<longrightarrow>
        (\<forall>k'. k' \<noteq> k \<longrightarrow> keys V s' k' = keys V s k') \<and> opened V s' = opened V s)"

text \<open>Between \<open>multi\<close> and \<open>exec\<close> the commands of the connection are queued, and then run together.\<close>

definition run_queued :: "string list \<Rightarrow> keyspace \<Rightarrow> keyspace" where
  "run_queued args ks =
     (case args of
        [_, k] \<Rightarrow> ks(k := None)
      | [_, k, f, v] \<Rightarrow>
          (case hash_at ks k of None \<Rightarrow> ks | Some h \<Rightarrow> ks(k := Some (Hash (h(f \<mapsto> v)))))
      | _ \<Rightarrow> ks)"

definition queued :: "string list \<Rightarrow> bool" where
  "queued args \<longleftrightarrow> (\<exists>k. args = [''del'', k]) \<or> (\<exists>k f v. args = [''hmset'', k, f, v])"

definition multi_laws :: "('s, 'j) platform \<Rightarrow> ('s, 'j) laws \<Rightarrow> bool" where
  "multi_laws E V \<longleftrightarrow>
     (\<forall>c s. opened V s c = None \<longrightarrow>
        (\<exists>s'. redis E c s [''multi''] = Some (RedisValue_buf ''OK'', s') \<and>
           keys V s' = keys V s \<and> opened V s' = (opened V s)(c := Some []))) \<and>
     (\<forall>c s q args. opened V s c = Some q \<longrightarrow> queued args \<longrightarrow>
        (\<exists>s'. redis E c s args = Some (RedisValue_buf ''QUEUED'', s') \<and>
           keys V s' = keys V s \<and> opened V s' = (opened V s)(c := Some (q @ [args])))) \<and>
     (\<forall>c s q. opened V s c = Some q \<longrightarrow> list_all queued q \<longrightarrow>
        (\<exists>vs s'. redis E c s [''exec''] = Some (RedisValue_array vs, s') \<and>
           keys V s' = fold run_queued q (keys V s) \<and> opened V s' = (opened V s)(c := None)))"

subsection \<open>JSON objects\<close>

definition exact :: "('s, 'j) platform \<Rightarrow> 'j \<Rightarrow> bool" where
  "exact E v \<longleftrightarrow>
     (\<exists>i. v = json_int E i) \<or> (\<exists>b. v = json_bool E b) \<or> (\<exists>t. v = json_string E t)"

definition scalar :: "('s, 'j) platform \<Rightarrow> 'j \<Rightarrow> bool" where
  "scalar E v \<longleftrightarrow> exact E v \<or> (\<exists>d. v = json_real E d)"

text \<open>The text of an object reads back as an object with the same members, up to rounded numbers.\<close>

definition json_laws :: "('s, 'j) platform \<Rightarrow> ('s, 'j) laws \<Rightarrow> bool" where
  "json_laws E V \<longleftrightarrow>
     (\<forall>j. is_object V j \<longrightarrow> j \<noteq> json_int E 0 \<and>
        (\<exists>j'. json_parse E (json_write E j) = Some j' \<and> is_object V j' \<and>
           (\<forall>k v. exact E v \<longrightarrow> json_at E j k = Some v \<longrightarrow> json_at E j' k = Some v))) \<and>
     (\<forall>j k v. is_object V j \<or> j = json_null E \<longrightarrow> scalar E v \<longrightarrow>
        (\<exists>j'. json_set E j k v = Some j' \<and> is_object V j' \<and> json_at E j' k = Some v \<and>
           (\<forall>k' w. k' \<noteq> k \<longrightarrow> json_at E j k' = Some w \<longrightarrow> json_at E j' k' = Some w))) \<and>
     (\<forall>i. json_asInt E (json_int E i) = Some i) \<and>
     (\<forall>t. json_asString E (json_string E t) = Some t)"

subsection \<open>The commands of a manager\<close>

lemma scalars [simp]:
  "scalar E (json_int E i)" "scalar E (json_bool E b)" "scalar E (json_string E t)"
  "scalar E (json_real E d)" "exact E (json_int E i)" "exact E (json_bool E b)"
  "exact E (json_string E t)"
  by (auto simp: scalar_def exact_def)

definition idle :: "('s, 'j) laws \<Rightarrow> 's manager \<Rightarrow> bool" where
  "idle V m \<longleftrightarrow> opened V (store m) (conn m) = None"

abbreviation keys_of :: "('s, 'j) laws \<Rightarrow> 's manager \<Rightarrow> keyspace" where
  "keys_of V m \<equiv> keys V (store m)"

text \<open>\<open>wrote V m k v m'\<close>: the manager differs in its store only, and that in the key \<open>k\<close> only.\<close>

definition wrote ::
  "('s, 'j) laws \<Rightarrow> 's manager \<Rightarrow> string \<Rightarrow> rkey option \<Rightarrow> 's manager \<Rightarrow> bool" where
  "wrote V m k v m' \<longleftrightarrow> m' = m\<lparr>store := store m'\<rparr> \<and> becomes V (store m) k v (store m')"

lemma wrote_idle: "wrote V m k v m' \<Longrightarrow> idle V m \<Longrightarrow> idle V m'"
  by (cases m') (auto simp: wrote_def idle_def becomes_def)

lemma wrote_keys: "wrote V m k v m' \<Longrightarrow> keys_of V m' = (keys_of V m)(k := v)"
  by (simp add: wrote_def becomes_def)

lemma cmd_hmget:
  assumes "hash_laws E V" "idle V m" "hash_at (keys_of V m) k = Some h"
  shows "redis_command E [''HMGET'', k, f] m = Some (RedisValue_array
    [case h f of None \<Rightarrow> RedisValue_nil | Some v \<Rightarrow> RedisValue_buf v], m)"
  using assms by (simp add: hash_laws_def idle_def redis_command_def)

lemma cmd_hlen:
  assumes "hash_laws E V" "idle V m" "hash_at (keys_of V m) k = Some h"
  shows "redis_command E [''HLEN'', k] m = Some (RedisValue_int (word_of_nat (card (dom h))), m)"
  using assms by (simp add: hash_laws_def idle_def redis_command_def)

lemma cmd_hmset:
  assumes "hash_laws E V" "idle V m" "hash_at (keys_of V m) k = Some h"
  obtains m' where "redis_command E [''HMSET'', k, f, v] m = Some (RedisValue_buf ''OK'', m')"
    "wrote V m k (Some (Hash (h(f \<mapsto> v)))) m'"
proof -
  obtain s' where "redis E (conn m) (store m) [''HMSET'', k, f, v] = Some (RedisValue_buf ''OK'', s')"
    "becomes V (store m) k (Some (Hash (h(f \<mapsto> v)))) s'"
    using assms unfolding hash_laws_def idle_def by blast
  then show thesis
    by (intro that [of "m\<lparr>store := s'\<rparr>"]) (simp_all add: redis_command_def wrote_def)
qed

lemma cmd_smembers:
  assumes "set_laws E V" "idle V m" "set_at (keys_of V m) k = Some A"
  obtains xs where
    "redis_command E [''smembers'', k] m = Some (RedisValue_array (map RedisValue_buf xs), m)"
    "distinct xs" "set xs = A"
proof -
  obtain xs where "redis E (conn m) (store m) [''smembers'', k] =
      Some (RedisValue_array (map RedisValue_buf xs), store m)" "distinct xs" "set xs = A"
    using assms unfolding set_laws_def idle_def by blast
  then show thesis by (intro that [of xs]) (simp_all add: redis_command_def)
qed

lemma cmd_sadd:
  assumes "set_laws E V" "idle V m" "set_at (keys_of V m) k = Some A"
  obtains m' where
    "redis_command E [''sadd'', k, x] m = Some (RedisValue_int (if x \<in> A then 0 else 1), m')"
    "wrote V m k (Some (Set (insert x A))) m'"
proof -
  obtain s' where "redis E (conn m) (store m) [''sadd'', k, x] =
      Some (RedisValue_int (if x \<in> A then 0 else 1), s')"
    "becomes V (store m) k (Some (Set (insert x A))) s'"
    using assms unfolding set_laws_def idle_def by blast
  then show thesis
    by (intro that [of "m\<lparr>store := s'\<rparr>"]) (simp_all add: redis_command_def wrote_def)
qed

lemma cmd_srem:
  assumes "set_laws E V" "idle V m" "set_at (keys_of V m) k = Some A"
  obtains m' where
    "redis_command E [''srem'', k, x] m = Some (RedisValue_int (if x \<in> A then 1 else 0), m')"
    "wrote V m k (if A - {x} = {} then None else Some (Set (A - {x}))) m'"
proof -
  obtain s' where "redis E (conn m) (store m) [''srem'', k, x] =
      Some (RedisValue_int (if x \<in> A then 1 else 0), s')"
    "becomes V (store m) k (if A - {x} = {} then None else Some (Set (A - {x}))) s'"
    using assms unfolding set_laws_def idle_def by blast
  then show thesis
    by (intro that [of "m\<lparr>store := s'\<rparr>"]) (simp_all add: redis_command_def wrote_def)
qed

lemma cmd_lpush:
  assumes "list_laws E V" "idle V m" "list_at (keys_of V m) k = Some xs"
  obtains n m' where "redis_command E [''lpush'', k, x] m = Some (RedisValue_int n, m')"
    "wrote V m k (Some (List (x # xs))) m'"
proof -
  obtain s' n where "redis E (conn m) (store m) [''lpush'', k, x] = Some (RedisValue_int n, s')"
    "becomes V (store m) k (Some (List (x # xs))) s'"
    using assms unfolding list_laws_def idle_def by blast
  then show thesis
    by (intro that [of n "m\<lparr>store := s'\<rparr>"]) (simp_all add: redis_command_def wrote_def)
qed

lemma reads_back [simp]:
  "hash_at (ks(k := Some (Hash h))) k = Some h" "set_at (ks(k := Some (Set A))) k = Some A"
  "list_at (ks(k := Some (List xs))) k = Some xs" "set_at (ks(k := None)) k = Some {}"
  "hash_at (ks(k := None)) k = Some Map.empty"
  "k' \<noteq> k \<Longrightarrow> hash_at (ks(k := v)) k' = hash_at ks k'"
  "k' \<noteq> k \<Longrightarrow> set_at (ks(k := v)) k' = set_at ks k'"
  "k' \<noteq> k \<Longrightarrow> list_at (ks(k := v)) k' = list_at ks k'"
  by (simp_all add: hash_at_def set_at_def list_at_def)

end
