(* ===== verification/Registry.thy ===== *)
theory Registry imports RedisLaws begin

text \<open>
  The registry of agents: the hash \<open>AgentList\<close> maps each token to the JSON text of an agent, in
  which \<open>agentNumber\<close> is the agent's id. The methods of \<open>RedisManager\<close> keep the numbers unique and
  never change one.
\<close>

definition entry_number :: "('s, 'j) platform \<Rightarrow> string \<Rightarrow> int32 option" where
  "entry_number E v =
     do { j \<leftarrow> json_parse E v; n \<leftarrow> json_at E j ''agentNumber''; json_asInt E n }"

definition entry_ok :: "('s, 'j) platform \<Rightarrow> ('s, 'j) laws \<Rightarrow> string \<Rightarrow> bool" where
  "entry_ok E V v \<longleftrightarrow>
     (\<exists>j n. json_parse E v = Some j \<and> is_object V j \<and> json_at E j ''agentNumber'' = Some (json_int E n))"

text \<open>The numbers of \<open>n\<close> agents are below \<open>n\<close> and distinct.\<close>

definition numbered :: "('s, 'j) platform \<Rightarrow> (string \<Rightarrow> string option) \<Rightarrow> bool" where
  "numbered E h \<longleftrightarrow>
     (\<forall>f v. h f = Some v \<longrightarrow> (\<exists>n. entry_number E v = Some n \<and> unat n < card (dom h))) \<and>
     (\<forall>f g v w. h f = Some v \<longrightarrow> h g = Some w \<longrightarrow> entry_number E v = entry_number E w \<longrightarrow> f = g)"

lemma numbered_unique:
  "numbered E h \<Longrightarrow> h f = Some v \<Longrightarrow> h g = Some w \<Longrightarrow> entry_number E v = entry_number E w \<Longrightarrow> f = g"
  unfolding numbered_def by blast

lemma numbered_number: "numbered E h \<Longrightarrow> h f = Some v \<Longrightarrow> \<exists>n. entry_number E v = Some n"
  unfolding numbered_def by blast

definition registry ::
  "('s, 'j) platform \<Rightarrow> ('s, 'j) laws \<Rightarrow> (string \<Rightarrow> string option) \<Rightarrow> 's manager \<Rightarrow> bool" where
  "registry E V h m \<longleftrightarrow>
     idle V m \<and> hash_at (keys_of V m) ''AgentList'' = Some h \<and> finite (dom h) \<and>
     (\<forall>f v. h f = Some v \<longrightarrow> entry_ok E V v) \<and> numbered E h"

definition store_laws :: "('s, 'j) platform \<Rightarrow> ('s, 'j) laws \<Rightarrow> bool" where
  "store_laws E V \<longleftrightarrow>
     hash_laws E V \<and> set_laws E V \<and> list_laws E V \<and> frame_laws E V \<and> multi_laws E V \<and>
     json_laws E V"

lemma to_string_inj [simp]: "to_string a = to_string b \<longleftrightarrow> a = b"
proof -
  have "strtol (to_string i) = sint i" for i
    using sint_ge [of i] sint_lt [of i] unfolding to_string_def
    by (intro strtol_int_to_dec) (simp_all add: LONG_MAX_def)
  then show ?thesis by (metis signed_word_eqI)
qed

subsection \<open>Entries\<close>

lemma entry_of_write:
  assumes "json_laws E V" "is_object V j" "json_at E j ''agentNumber'' = Some (json_int E n)"
  shows "entry_ok E V (json_write E j)" and "entry_number E (json_write E j) = Some n"
    and "StrToJson E (json_write E j) \<noteq> json_NULL E"
proof -
  obtain j' where "json_parse E (json_write E j) = Some j'" "is_object V j'"
    "json_at E j' ''agentNumber'' = Some (json_int E n)"
    using assms unfolding json_laws_def by (meson scalars(5))
  moreover have "json_asInt E (json_int E n) = Some n" "j' \<noteq> json_int E 0"
    using assms(1) \<open>is_object V j'\<close> by (auto simp: json_laws_def)
  ultimately show "entry_ok E V (json_write E j)" and "entry_number E (json_write E j) = Some n"
    and "StrToJson E (json_write E j) \<noteq> json_NULL E"
    by (auto simp: entry_ok_def entry_number_def StrToJson_def json_NULL_def)
qed

lemma json_sets_object:
  assumes "json_laws E V" and "\<forall>kv \<in> set kvs. scalar E (snd kv)"
    and "is_object V j \<or> j = json_null E \<and> kvs \<noteq> []"
  shows "\<exists>j'. json_sets E kvs j = Some j' \<and> is_object V j' \<and>
    (\<forall>k w. k \<notin> fst ` set kvs \<longrightarrow> json_at E j k = Some w \<longrightarrow> json_at E j' k = Some w) \<and>
    (distinct (map fst kvs) \<longrightarrow> (\<forall>(k, v) \<in> set kvs. json_at E j' k = Some v))"
  using assms(2,3)
proof (induction kvs arbitrary: j)
  case (Cons kv kvs)
  obtain k v where kv: "kv = (k, v)" by (cases kv)
  obtain j1 where j1: "json_set E j k v = Some j1" "is_object V j1" "json_at E j1 k = Some v"
    "\<And>k' w. k' \<noteq> k \<Longrightarrow> json_at E j k' = Some w \<Longrightarrow> json_at E j1 k' = Some w"
    using assms(1) Cons.prems kv unfolding json_laws_def by (metis list.set_intros(1) snd_conv)
  obtain j2 where j2: "json_sets E kvs j1 = Some j2" "is_object V j2"
    "\<And>k w. k \<notin> fst ` set kvs \<Longrightarrow> json_at E j1 k = Some w \<Longrightarrow> json_at E j2 k = Some w"
    "distinct (map fst kvs) \<Longrightarrow> \<forall>(k, v) \<in> set kvs. json_at E j2 k = Some v"
    using Cons.IH [of j1] Cons.prems(1) j1(2) by auto
  show ?case
    using j1 j2 kv by (auto simp: image_iff)
qed simp

lemma json_sets_number:
  assumes "json_laws E V" and "is_object V j" and "\<forall>kv \<in> set kvs. scalar E (snd kv)"
    and "''agentNumber'' \<notin> fst ` set kvs" and "json_at E j ''agentNumber'' = Some n"
  obtains j' where "json_sets E kvs j = Some j'" "is_object V j'" "json_at E j' ''agentNumber'' = Some n"
  using json_sets_object [OF assms(1,3), of j] assms(2,4,5) by auto

lemma new_agent_object:
  assumes "json_laws E V"
  obtains j where "new_agent E n hostIP ramSize = Some j" "is_object V j"
    "json_at E j ''agentNumber'' = Some (json_int E n)"
proof -
  let ?kvs = "[(''hostIP'', json_int E hostIP),
        (''agentName'', json_string E (''Agent'' @ to_string n)),
        (''agentNumber'', json_int E n),
        (''isOn'', json_bool E True),
        (''isRecording'', json_bool E False),
        (''startTime'', json_string E no_time),
        (''endTime'', json_string E no_time),
        (''responseTime'', json_int E 0),
        (''ramSize'', json_real E ramSize)]"
  have "distinct (map fst ?kvs)" by simp
  then obtain j where "json_sets E ?kvs (json_null E) = Some j" "is_object V j"
    "\<forall>(k, v) \<in> set ?kvs. json_at E j k = Some v"
    using json_sets_object [OF assms, of ?kvs "json_null E"] by auto
  then show thesis by (intro that [of j]) (simp_all add: new_agent_def)
qed

subsection \<open>Looking up and writing an agent\<close>

lemma lookup_known:
  assumes "store_laws E V" "registry E V h m" "h (to_string token) = Some v"
  obtains j n where "GetAgentJVByToken E token m = Some (j, m)" "j \<noteq> json_NULL E" "is_object V j"
    "json_at E j ''agentNumber'' = Some (json_int E n)" "entry_number E v = Some n"
proof -
  have laws: "hash_laws E V" "json_laws E V" using assms(1) by (simp_all add: store_laws_def)
  obtain j n where j: "json_parse E v = Some j" "is_object V j"
    "json_at E j ''agentNumber'' = Some (json_int E n)"
    using assms(2,3) unfolding registry_def entry_ok_def by blast
  moreover have "entry_number E v = Some n" "j \<noteq> json_NULL E"
    using j laws(2) by (auto simp: entry_number_def json_laws_def json_NULL_def)
  moreover have "GetAgentJVByToken E token m = Some (j, m)"
    using cmd_hmget [OF laws(1), of m "''AgentList''" h "to_string token"] assms(2,3) j(1)
    by (simp add: registry_def GetAgentJVByToken_def redis_observers StrToJson_def)
  ultimately show thesis by (intro that)
qed

lemma lookup_unknown:
  assumes "store_laws E V" "registry E V h m" "h (to_string token) = None"
  shows "GetAgentJVByToken E token m = Some (json_NULL E, m)"
    and "GetAgentID E token m = Some (-1, m)"
  using assms cmd_hmget [of E V m "''AgentList''" h "to_string token"]
  by (simp_all add: registry_def store_laws_def GetAgentJVByToken_def GetAgentID_def redis_observers)

lemma GetAgentID_known:
  assumes "store_laws E V" "registry E V h m" "h (to_string token) = Some v"
    and "entry_number E v = Some n"
  shows "GetAgentID E token m = Some (n, m)"
proof -
  have "hash_laws E V" using assms(1) by (simp add: store_laws_def)
  then show ?thesis
    using cmd_hmget [of E V m "''AgentList''" h "to_string token"] assms(2-4)
    by (auto simp: registry_def GetAgentID_def redis_observers StrToJson_def entry_number_def
        split: bind_splits)
qed

text \<open>Writing an agent back keeps its number; a new agent gets the number of agents there are.\<close>

lemma numbered_upd:
  assumes "numbered E h" "finite (dom h)" "entry_number E v = Some n"
    and "h f = None \<Longrightarrow> n = word_of_nat (card (dom h)) \<and> card (dom h) < 2 ^ 31"
    and "\<And>w. h f = Some w \<Longrightarrow> entry_number E w = Some n"
  shows "numbered E (h(f \<mapsto> v))"
proof (cases "h f")
  case None
  have n: "unat n = card (dom h)"
    using assms(4) [OF None] by (simp add: unat_of_nat)
  have dom: "card (dom (h(f \<mapsto> v))) = Suc (card (dom h))"
    using None assms(2) by (simp add: domIff)
  have less: "\<exists>k. entry_number E w = Some k \<and> unat k < card (dom h)" if "h g = Some w" for g w
    using assms(1) that by (auto simp: numbered_def)
  then have neq: "entry_number E w \<noteq> Some n" if "h g = Some w" for g w
    using that n by force
  show ?thesis
    using assms(1,3) n unfolding numbered_def dom
    by (simp add: less_Suc_eq) (metis less neq)
next
  case (Some w)
  then have dom: "card (dom (h(f \<mapsto> v))) = card (dom h)" by (simp add: insert_absorb domIff)
  have same: "entry_number E v = entry_number E w" using assms(3,5) Some by simp
  show ?thesis
    using assms(1) Some unfolding numbered_def dom by (auto simp: same)
qed

lemma put_agent_registry:
  assumes "store_laws E V" "registry E V h m" "is_object V j"
    and "json_at E j ''agentNumber'' = Some (json_int E n)"
    and "h (to_string token) = None \<Longrightarrow> n = word_of_nat (card (dom h)) \<and> card (dom h) < 2 ^ 31"
    and "\<And>w. h (to_string token) = Some w \<Longrightarrow> entry_number E w = Some n"
  obtains m' v where "put_agent E token j m = Some (RedisValue_buf ''OK'', m')"
    "entry_number E v = Some n" "registry E V (h(to_string token \<mapsto> v)) m'"
    "wrote V m ''AgentList'' (Some (Hash (h(to_string token \<mapsto> v)))) m'"
proof -
  have laws: "hash_laws E V" "json_laws E V" using assms(1) by (simp_all add: store_laws_def)
  let ?v = "json_write E j"
  obtain m' where m': "redis_command E [''HMSET'', ''AgentList'', to_string token, ?v] m =
      Some (RedisValue_buf ''OK'', m')"
    "wrote V m ''AgentList'' (Some (Hash (h(to_string token \<mapsto> ?v)))) m'"
    using cmd_hmset [OF laws(1), of m "''AgentList''" h] assms(2) unfolding registry_def by metis
  note e = entry_of_write [OF laws(2) assms(3,4)]
  have "numbered E (h(to_string token \<mapsto> ?v))"
    using assms(2,5,6) e(2) by (intro numbered_upd) (auto simp: registry_def)
  then have "registry E V (h(to_string token \<mapsto> ?v)) m'"
    using assms(2) e(1) wrote_idle [OF m'(2)] wrote_keys [OF m'(2)]
    by (auto simp: registry_def)
  with m' e show thesis by (intro that [of m' ?v]) (simp_all add: put_agent_def JsonToStr_def)
qed

subsection \<open>The methods\<close>

lemma InitAgent_registry:
  assumes "store_laws E V" "registry E V h m" "card (dom h) < 2 ^ 31"
  obtains m' n v where "InitAgent E token hostIP ramSize m = Some (True, m')"
    "registry E V (h(to_string token \<mapsto> v)) m'" "entry_number E v = Some n"
    "h (to_string token) = None \<Longrightarrow> n = word_of_nat (card (dom h))"
    "\<And>w. h (to_string token) = Some w \<Longrightarrow> entry_number E w = Some n"
    "wrote V m ''AgentList'' (Some (Hash (h(to_string token \<mapsto> v)))) m'"
proof -
  have json: "json_laws E V" and hash: "hash_laws E V" using assms(1) by (simp_all add: store_laws_def)
  show thesis
  proof (cases "h (to_string token)")
    case (Some w)
    obtain j n where j: "GetAgentJVByToken E token m = Some (j, m)" "j \<noteq> json_NULL E" "is_object V j"
      "json_at E j ''agentNumber'' = Some (json_int E n)" "entry_number E w = Some n"
      using lookup_known [OF assms(1,2) Some] .
    obtain j' where j': "json_sets E [(''isOn'', json_bool E True)] j = Some j'" "is_object V j'"
      "json_at E j' ''agentNumber'' = Some (json_int E n)"
      using json_sets_number [OF json j(3) _ _ j(4), of "[(''isOn'', json_bool E True)]"] by auto
    obtain m' v where "put_agent E token j' m = Some (RedisValue_buf ''OK'', m')"
      "entry_number E v = Some n" "registry E V (h(to_string token \<mapsto> v)) m'"
      "wrote V m ''AgentList'' (Some (Hash (h(to_string token \<mapsto> v)))) m'"
      using put_agent_registry [OF assms(1,2) j'(2,3), of token] Some j(5) by auto
    with Some j j'(1) show thesis
      by (intro that [of m' v n]) (auto simp: InitAgent_def split: bind_splits)
  next
    case None
    let ?n = "word_of_nat (card (dom h)) :: int32"
    obtain j where j: "new_agent E ?n hostIP ramSize = Some j" "is_object V j"
      "json_at E j ''agentNumber'' = Some (json_int E ?n)"
      using new_agent_object [OF json] .
    obtain m' v where "put_agent E token j m = Some (RedisValue_buf ''OK'', m')"
      "entry_number E v = Some ?n" "registry E V (h(to_string token \<mapsto> v)) m'"
      "wrote V m ''AgentList'' (Some (Hash (h(to_string token \<mapsto> v)))) m'"
      using put_agent_registry [OF assms(1,2) j(2,3), of token] None assms(3) by auto
    moreover have "redis_command E [''HLEN'', ''AgentList''] m = Some (RedisValue_int ?n, m)"
      using cmd_hlen [OF hash] assms(2) by (simp add: registry_def)
    ultimately show thesis
      using None j(1) lookup_unknown(1) [OF assms(1,2) None]
      by (intro that [of m' v ?n]) (auto simp: InitAgent_def redis_observers)
  qed
qed

lemma change_agent_registry:
  assumes "store_laws E V" "registry E V h m" "\<forall>kv \<in> set updates. scalar E (snd kv)"
    and "''agentNumber'' \<notin> fst ` set updates"
  shows "h (to_string token) = None \<Longrightarrow> change_agent E updates token m = Some (False, m)"
    and "h (to_string token) = Some w \<Longrightarrow> \<exists>m' v.
      change_agent E updates token m = Some (True, m') \<and> registry E V (h(to_string token \<mapsto> v)) m' \<and>
      entry_number E v = entry_number E w \<and>
      wrote V m ''AgentList'' (Some (Hash (h(to_string token \<mapsto> v)))) m'"
proof -
  assume "h (to_string token) = None"
  then show "change_agent E updates token m = Some (False, m)"
    using lookup_unknown(1) [OF assms(1,2)] by (simp add: change_agent_def)
next
  assume w: "h (to_string token) = Some w"
  have json: "json_laws E V" using assms(1) by (simp add: store_laws_def)
  obtain j n where j: "GetAgentJVByToken E token m = Some (j, m)" "j \<noteq> json_NULL E" "is_object V j"
    "json_at E j ''agentNumber'' = Some (json_int E n)" "entry_number E w = Some n"
    using lookup_known [OF assms(1,2) w] .
  obtain j' where j': "json_sets E updates j = Some j'" "is_object V j'"
    "json_at E j' ''agentNumber'' = Some (json_int E n)"
    using json_sets_number [OF json j(3) assms(3,4) j(4)] .
  obtain m' v where "put_agent E token j' m = Some (RedisValue_buf ''OK'', m')"
    "entry_number E v = Some n" "registry E V (h(to_string token \<mapsto> v)) m'"
    "wrote V m ''AgentList'' (Some (Hash (h(to_string token \<mapsto> v)))) m'"
    using put_agent_registry [OF assms(1,2) j'(2,3), of token] w j(5) by auto
  with j j'(1) show "\<exists>m' v. change_agent E updates token m = Some (True, m') \<and>
      registry E V (h(to_string token \<mapsto> v)) m' \<and> entry_number E v = entry_number E w \<and>
      wrote V m ''AgentList'' (Some (Hash (h(to_string token \<mapsto> v)))) m'"
    by (auto simp: change_agent_def)
qed

end
