(* ===== verification/ProtoWire.thy ===== *)
theory ProtoWire imports Wire begin

text \<open>
  A wire library that meets the law of \<open>Wire\<close>: the documented encoding of protocol buffers, with
  base-128 varints, a key of field number and wire type before each value, eight little-endian bytes
  for a \<open>double\<close> and a length before a text. It shows that the law can hold, and the witnesses run it.
\<close>

fun put_varint :: "nat \<Rightarrow> byte list" where
  "put_varint n =
     (if n < 128 then [word_of_nat n] else word_of_nat (128 + n mod 128) # put_varint (n div 128))"

fun take_varint :: "byte list \<Rightarrow> (nat \<times> byte list) option" where
  "take_varint [] = None"
| "take_varint (b # bs) =
     (if unat b < 128 then Some (unat b, bs)
      else map_option (\<lambda>(n, r). (unat b - 128 + 128 * n, r)) (take_varint bs))"

declare put_varint.simps [simp del]

lemma unat8 [simp]: "n < 256 \<Longrightarrow> unat (word_of_nat n :: byte) = n"
  unfolding unat_of_nat by simp

lemma take_put_varint [simp]: "take_varint (put_varint n @ bs) = Some (n, bs)"
proof (induction n rule: put_varint.induct)
  case (1 n)
  have "n mod 128 < 128" by simp
  then have "unat (word_of_nat (128 + n mod 128) :: byte) = 128 + n mod 128" by (intro unat8) simp
  with 1 show ?case
    by (subst put_varint.simps) (simp del: of_nat_add)
qed

lemma put_varint_length: "0 < length (put_varint n)"
  by (subst put_varint.simps) simp

lemma take_varint_length: "take_varint bs = Some (n, r) \<Longrightarrow> length r < length bs"
proof (induction bs arbitrary: n)
  case (Cons b bs)
  then show ?case by (auto split: if_splits)
qed simp

fun put_bytes :: "nat \<Rightarrow> nat \<Rightarrow> byte list" where
  "put_bytes 0 n = []"
| "put_bytes (Suc k) n = word_of_nat (n mod 256) # put_bytes k (n div 256)"

fun get_bytes :: "byte list \<Rightarrow> nat" where
  "get_bytes [] = 0"
| "get_bytes (b # bs) = unat b + 256 * get_bytes bs"

lemma length_put_bytes [simp]: "length (put_bytes k n) = k"
  by (induction k arbitrary: n) simp_all

lemma get_put_bytes: "n < 256 ^ k \<Longrightarrow> get_bytes (put_bytes k n) = n"
proof (induction k arbitrary: n)
  case (Suc k)
  then have "n div 256 < 256 ^ k" by (simp add: less_mult_imp_div_less mult.commute)
  with Suc.IH show ?case by simp
qed simp

fun put_field :: "field \<Rightarrow> byte list" where
  "put_field (n, Varint v) = put_varint (8 * n) @ put_varint (unat v)"
| "put_field (n, Fixed64 v) = put_varint (8 * n + 1) @ put_bytes 8 (unat v)"
| "put_field (n, Len bs) = put_varint (8 * n + 2) @ put_varint (length bs) @ bs"
| "put_field (n, OtherWire) = []"

definition take_field :: "byte list \<Rightarrow> (field \<times> byte list) option" where
  "take_field bs =
     (case take_varint bs of
        None \<Rightarrow> None
      | Some (key, r) \<Rightarrow>
          if key mod 8 = 0
          then map_option (\<lambda>(v, r'). ((key div 8, Varint (word_of_nat v)), r')) (take_varint r)
          else if key mod 8 = 1
          then (if length r < 8 then None
                else Some ((key div 8, Fixed64 (word_of_nat (get_bytes (take 8 r)))), drop 8 r))
          else if key mod 8 = 2
          then (case take_varint r of
                  None \<Rightarrow> None
                | Some (l, r') \<Rightarrow>
                    if length r' < l then None else Some ((key div 8, Len (take l r')), drop l r'))
          else None)"

lemma take_field_length: "take_field bs = Some (f, r) \<Longrightarrow> length r < length bs"
  by (auto simp: take_field_def split: option.splits if_splits dest!: take_varint_length, linarith+)

lemma key_parts [simp]:
  "Suc (8 * n) div 8 = n" "Suc (8 * n) mod 8 = 1"
  "Suc (Suc (8 * n)) div 8 = n" "Suc (Suc (8 * n)) mod 8 = 2" for n :: nat
  by presburger+

lemma take_put_field: "snd f \<noteq> OtherWire \<Longrightarrow> take_field (put_field f @ bs) = Some (f, bs)"
proof (cases f rule: put_field.cases)
  case (2 n v)
  have "unat v < 2 ^ 64" using unsigned_less [of v, where 'a = nat] by simp
  then have "get_bytes (put_bytes 8 (unat v)) = unat v" by (intro get_put_bytes) simp
  with 2 show ?thesis by (simp add: take_field_def)
qed (auto simp: take_field_def)

function proto_split :: "byte list \<Rightarrow> field list option" where
  "proto_split bs =
     (if bs = [] then Some []
      else case take_field bs of
             None \<Rightarrow> None
           | Some (f, r) \<Rightarrow> map_option ((#) f) (proto_split r))"
  by pat_completeness auto
termination by (relation "measure length") (auto dest: take_field_length)

declare proto_split.simps [simp del]

definition proto_wire :: wire_lib where
  "proto_wire =
     \<lparr>wire_split = proto_split, wire_join = (\<lambda>fs. concat (map put_field fs)),
      wire_packed = (\<lambda>_. None)\<rparr>"

lemma put_field_nonempty: "snd f \<noteq> OtherWire \<Longrightarrow> put_field f \<noteq> []"
  using put_varint_length by (cases f rule: put_field.cases) auto

lemma proto_split_join:
  "list_all plain fs \<Longrightarrow> proto_split (concat (map put_field fs)) = Some fs"
proof (induction fs)
  case Nil
  then show ?case by (simp add: proto_split.simps)
next
  case (Cons f fs)
  then have "snd f \<noteq> OtherWire" by (simp add: plain_def)
  with Cons show ?case
    by (subst proto_split.simps) (simp add: take_put_field put_field_nonempty)
qed

lemma proto_wire_ok: "wire_ok proto_wire"
  by (simp add: wire_ok_def proto_wire_def proto_split_join)

lemma put_varint_bound: "n < 128 ^ k \<Longrightarrow> 0 < k \<Longrightarrow> length (put_varint n) \<le> k"
proof (induction k arbitrary: n)
  case (Suc k)
  show ?case
  proof (cases "n < 128")
    case False
    then have "0 < k" using Suc.prems by (cases k) auto
    moreover have "n div 128 < 128 ^ k" using Suc.prems(1) by (simp add: less_mult_imp_div_less mult.commute)
    ultimately show ?thesis using False Suc.IH [of "n div 128"] by (subst put_varint.simps) simp
  qed (subst put_varint.simps, simp)
qed simp

lemma put_field_bound:
  assumes "plain f" "short_field f"
  shows "length (put_field f) \<le> field_bound f"
proof -
  have key: "length (put_varint k) \<le> 1" if "k < 128" for k
    using put_varint_bound [of k 1] that by simp
  have num: "length (put_varint (unat v)) \<le> 10" for v :: int64
  proof (rule put_varint_bound)
    have "unat v < 2 ^ 64" using unsigned_less [of v, where 'a = nat] by simp
    then show "unat v < 128 ^ 10" by (rule less_trans) simp
  qed simp
  have len: "length (put_varint n) \<le> 10" if "n < 2 ^ 31" for n
    using that by (intro put_varint_bound) (auto intro: less_trans)
  obtain n w where f: "f = (n, w)" by (cases f)
  with assms(1) have n: "n < 16" "w \<noteq> OtherWire" by (auto simp: plain_def)
  show ?thesis
  proof (cases w)
    case (Varint v)
    with n key [of "8 * n"] num [of v] f show ?thesis by (simp add: field_bound_def)
  next
    case (Fixed64 v)
    with n key [of "8 * n + 1"] f show ?thesis by (simp add: field_bound_def)
  next
    case (Len bs)
    with n key [of "8 * n + 2"] len [of "length bs"] f assms(2) show ?thesis
      by (simp add: field_bound_def short_field_def)
  qed (use n in simp)
qed

lemma proto_wire_small: "wire_small proto_wire"
proof -
  have "length (concat (map put_field fs)) \<le> sum_list (map field_bound fs)"
    if "list_all plain fs" "list_all short_field fs" for fs
    using that
  proof (induction fs)
    case (Cons f fs)
    with put_field_bound [of f] show ?case by simp
  qed simp
  then show ?thesis by (simp add: wire_small_def proto_wire_def)
qed

end
