(* ===== verification/DemoPlatform.thy ===== *)
theory DemoPlatform imports Registry ProtoWire begin

text \<open>
  A platform that meets the laws of \<open>RedisLaws\<close> and \<open>Wire\<close>: a small key-value server, JSON objects
  with a length-prefixed text, and the documented wire encoding. It shows that the laws can hold
  together, and the witnesses of the store's properties are computed on it.
\<close>

subsection \<open>A key-value server\<close>

datatype demo_key =
    DHash "(string \<times> string) list"
  | DSet "string list"
  | DList "string list"

record demo =
  dkeys :: "string \<Rightarrow> demo_key option"
  dopened :: "nat \<Rightarrow> string list list option"

definition dhash :: "demo_key option \<Rightarrow> (string \<times> string) list option" where
  "dhash x = (case x of None \<Rightarrow> Some [] | Some (DHash al) \<Rightarrow> Some al | _ \<Rightarrow> None)"

definition dset :: "demo_key option \<Rightarrow> string list option" where
  "dset x = (case x of None \<Rightarrow> Some [] | Some (DSet xs) \<Rightarrow> Some xs | _ \<Rightarrow> None)"

definition dlist :: "demo_key option \<Rightarrow> string list option" where
  "dlist x = (case x of None \<Rightarrow> Some [] | Some (DList xs) \<Rightarrow> Some xs | _ \<Rightarrow> None)"

type_synonym dspace = "string \<Rightarrow> demo_key option"

definition wrong_type :: "dspace \<Rightarrow> RedisValue \<times> dspace" where
  "wrong_type ks = (RedisValue_error ''WRONGTYPE'', ks)"

definition on :: "'a option \<Rightarrow> ('a \<Rightarrow> RedisValue \<times> dspace) \<Rightarrow> dspace \<Rightarrow> RedisValue \<times> dspace" where
  "on x g ks = (case x of None \<Rightarrow> wrong_type ks | Some y \<Rightarrow> g y)"

definition demo_run :: "string list \<Rightarrow> dspace \<Rightarrow> RedisValue \<times> dspace" where
  "demo_run args ks =
     (case args of
        [cmd, k] \<Rightarrow>
          if cmd = ''HLEN''
          then on (dhash (ks k))
                 (\<lambda>al. (RedisValue_int (word_of_nat (length (remdups (map fst al)))), ks)) ks
          else if cmd = ''smembers''
          then on (dset (ks k))
                 (\<lambda>xs. (RedisValue_array (map RedisValue_buf (remdups xs)), ks)) ks
          else if cmd = ''del'' then (RedisValue_int 1, ks(k := None))
          else wrong_type ks
      | [cmd, k, x] \<Rightarrow>
          if cmd = ''HMGET''
          then on (dhash (ks k))
                 (\<lambda>al. (RedisValue_array [case map_of al x of None \<Rightarrow> RedisValue_nil
                                                         | Some v \<Rightarrow> RedisValue_buf v], ks)) ks
          else if cmd = ''sadd''
          then on (dset (ks k))
                 (\<lambda>xs. (RedisValue_int (if x \<in> set xs then 0 else 1), ks(k \<mapsto> DSet (x # xs)))) ks
          else if cmd = ''srem''
          then on (dset (ks k))
                 (\<lambda>xs. (RedisValue_int (if x \<in> set xs then 1 else 0),
                        ks(k := (if removeAll x xs = [] then None else Some (DSet (removeAll x xs)))))) ks
          else if cmd = ''lpush''
          then on (dlist (ks k))
                 (\<lambda>xs. (RedisValue_int (word_of_nat (Suc (length xs))), ks(k \<mapsto> DList (x # xs)))) ks
          else wrong_type ks
      | [cmd, k, f, v] \<Rightarrow>
          if cmd = ''HMSET'' \<or> cmd = ''hmset''
          then on (dhash (ks k)) (\<lambda>al. (RedisValue_buf ''OK'', ks(k \<mapsto> DHash ((f, v) # al)))) ks
          else wrong_type ks
      | _ \<Rightarrow> wrong_type ks)"

definition demo_redis :: "nat \<Rightarrow> demo \<Rightarrow> string list \<Rightarrow> (RedisValue \<times> demo) option" where
  "demo_redis c s args =
     Some (case dopened s c of
        None \<Rightarrow>
          if args = [''multi'']
          then (RedisValue_buf ''OK'', s\<lparr>dopened := (dopened s)(c := Some [])\<rparr>)
          else (let (v, ks) = demo_run args (dkeys s) in (v, s\<lparr>dkeys := ks\<rparr>))
      | Some q \<Rightarrow>
          if args = [''exec'']
          then (RedisValue_array [],
                s\<lparr>dkeys := fold (\<lambda>a ks. snd (demo_run a ks)) q (dkeys s),
                  dopened := (dopened s)(c := None)\<rparr>)
          else (RedisValue_buf ''QUEUED'', s\<lparr>dopened := (dopened s)(c := Some (q @ [args]))\<rparr>))"

definition demo_view :: "dspace \<Rightarrow> keyspace" where
  "demo_view ks k =
     map_option (\<lambda>x. case x of DHash al \<Rightarrow> Hash (map_of al) | DSet xs \<Rightarrow> Set (set xs)
                              | DList xs \<Rightarrow> List xs) (ks k)"

lemma demo_views:
  "hash_at (demo_view ks) k = map_option map_of (dhash (ks k))"
  "set_at (demo_view ks) k = map_option set (dset (ks k))"
  "list_at (demo_view ks) k = dlist (ks k)"
  by (auto simp: hash_at_def set_at_def list_at_def demo_view_def dhash_def dset_def dlist_def
      split: option.splits demo_key.splits)

lemma demo_view_upd:
  "demo_view (ks(k \<mapsto> DHash al)) = (demo_view ks)(k \<mapsto> Hash (map_of al))"
  "demo_view (ks(k \<mapsto> DSet xs)) = (demo_view ks)(k \<mapsto> Set (set xs))"
  "demo_view (ks(k \<mapsto> DList xs)) = (demo_view ks)(k \<mapsto> List xs)"
  "demo_view (ks(k := None)) = (demo_view ks)(k := None)"
  by (auto simp: demo_view_def)

lemma card_dom_map_of: "card (dom (map_of al)) = length (remdups (map fst al))"
  by (simp add: dom_map_of_conv_image_fst length_remdups_card_conv)

subsection \<open>JSON objects\<close>

text \<open>A member of an object is kept as its text.\<close>

datatype demo_json =
    JNull
  | JInt int32
  | JBool bool
  | JStr string
  | JReal real64
  | JObj "(string \<times> string) list"

fun scalar_text :: "demo_json \<Rightarrow> string" where
  "scalar_text JNull = ''n''"
| "scalar_text (JInt i) = ''i'' @ to_string i"
| "scalar_text (JBool b) = (if b then ''t'' else ''f'')"
| "scalar_text (JStr s) = ''s'' @ s"
| "scalar_text (JReal d) = ''r'' @ nat_to_dec (unat d)"
| "scalar_text (JObj _) = ''o''"

definition scalar_parse :: "string \<Rightarrow> demo_json" where
  "scalar_parse t =
     (case t of
        [] \<Rightarrow> JNull
      | c # s \<Rightarrow>
          if c = CHR ''i'' then JInt (word_of_int (strtol s))
          else if c = CHR ''t'' then JBool True
          else if c = CHR ''f'' then JBool False
          else if c = CHR ''s'' then JStr s
          else if c = CHR ''r'' then JReal (word_of_nat (dec_val s))
          else JNull)"

definition prefixed :: "string \<Rightarrow> string" where
  "prefixed s = replicate (length s) (CHR ''1'') @ CHR ''0'' # s"

fun unprefix :: "nat \<Rightarrow> string \<Rightarrow> (string \<times> string) option" where
  "unprefix n [] = None"
| "unprefix n (c # s) = (if c = CHR ''1'' then unprefix (Suc n) s else Some (take n s, drop n s))"

lemma unprefix_prefixed: "unprefix n (replicate k (CHR ''1'') @ CHR ''0'' # s) = Some (take (n + k) s, drop (n + k) s)"
  by (induction k arbitrary: n) simp_all

lemma unprefix_length: "unprefix n s = Some (t, r) \<Longrightarrow> length r < length s"
  by (induction n s rule: unprefix.induct) (auto split: if_splits)

fun members_text :: "(string \<times> string) list \<Rightarrow> string" where
  "members_text [] = []"
| "members_text ((k, t) # kts) = prefixed k @ prefixed t @ members_text kts"

function members_parse :: "string \<Rightarrow> (string \<times> string) list option" where
  "members_parse s =
     (if s = [] then Some []
      else case unprefix 0 s of
             None \<Rightarrow> None
           | Some (k, r) \<Rightarrow>
               (case unprefix 0 r of
                  None \<Rightarrow> None
                | Some (t, r') \<Rightarrow> map_option ((#) (k, t)) (members_parse r')))"
  by pat_completeness auto
termination by (relation "measure length") (auto dest!: unprefix_length)

declare members_parse.simps [simp del]

lemma members_parse_text: "members_parse (members_text kts) = Some kts"
proof (induction kts)
  case Nil
  then show ?case by (simp add: members_parse.simps)
next
  case (Cons kt kts)
  obtain k t where kt: "kt = (k, t)" by (cases kt)
  have "unprefix 0 (prefixed a @ b) = Some (a, b)" for a b
    using unprefix_prefixed [of 0 "length a" "a @ b"] by (simp add: prefixed_def)
  with Cons kt show ?case
    by (subst members_parse.simps) (simp add: prefixed_def)
qed

definition demo_at :: "demo_json \<Rightarrow> string \<Rightarrow> demo_json option" where
  "demo_at j k =
     (case j of
        JObj kts \<Rightarrow> Some (case map_of kts k of None \<Rightarrow> JNull | Some t \<Rightarrow> scalar_parse t)
      | JNull \<Rightarrow> Some JNull
      | _ \<Rightarrow> None)"

definition demo_set :: "demo_json \<Rightarrow> string \<Rightarrow> demo_json \<Rightarrow> demo_json option" where
  "demo_set j k v =
     (case j of
        JObj kts \<Rightarrow> Some (JObj ((k, scalar_text v) # kts))
      | JNull \<Rightarrow> Some (JObj [(k, scalar_text v)])
      | _ \<Rightarrow> None)"

definition demo_E :: "(demo, demo_json) platform" where
  "demo_E =
     \<lparr>redis = demo_redis,
      json_parse = (\<lambda>s. map_option JObj (members_parse s)),
      json_write = (\<lambda>j. case j of JObj kts \<Rightarrow> members_text kts | _ \<Rightarrow> scalar_text j),
      json_null = JNull, json_int = JInt, json_bool = JBool, json_string = JStr, json_real = JReal,
      json_at = demo_at, json_set = demo_set,
      json_asInt = (\<lambda>j. case j of JInt i \<Rightarrow> Some i | JNull \<Rightarrow> Some 0 | _ \<Rightarrow> None),
      json_asString = (\<lambda>j. case j of JStr s \<Rightarrow> Some s | JNull \<Rightarrow> Some [] | _ \<Rightarrow> None),
      localtime = (\<lambda>_. \<lparr>tm_sec = 0, tm_min = 0, tm_hour = 0, tm_mday = 1, tm_mon = 0, tm_year = 70\<rparr>),
      real_div = (\<lambda>d n. d), real_text = (\<lambda>d. nat_to_dec (unat d)), wire = proto_wire\<rparr>"

definition demo_V :: "(demo, demo_json) laws" where
  "demo_V =
     \<lparr>keys = (\<lambda>s. demo_view (dkeys s)), opened = dopened,
      is_object = (\<lambda>j. case j of JObj _ \<Rightarrow> True | _ \<Rightarrow> False)\<rparr>"

subsection \<open>The laws hold\<close>

lemma scalar_parse_text:
  "scalar demo_E v \<Longrightarrow> scalar_parse (scalar_text v) = v"
proof -
  have "strtol (to_string i) = sint i" for i
    using sint_ge [of i] sint_lt [of i] unfolding to_string_def
    by (intro strtol_int_to_dec) (simp_all add: LONG_MAX_def)
  then show "scalar demo_E v \<Longrightarrow> scalar_parse (scalar_text v) = v"
    by (auto simp: scalar_def exact_def demo_E_def scalar_parse_def)
qed

lemma demo_hash: "hash_laws demo_E demo_V"
  by (auto simp: hash_laws_def demo_E_def demo_V_def demo_redis_def demo_run_def demo_views on_def
      becomes_def demo_view_upd card_dom_map_of split: option.splits)

lemma removeAll_Nil_iff: "removeAll x xs = [] \<longleftrightarrow> set xs \<subseteq> {x}"
  by (induction xs) auto

lemma demo_set_laws: "set_laws demo_E demo_V"
  by (auto simp: removeAll_Nil_iff set_laws_def demo_E_def demo_V_def demo_redis_def demo_run_def demo_views on_def
      becomes_def demo_view_upd card_dom_map_of split: option.splits)

lemma demo_list: "list_laws demo_E demo_V"
  by (auto simp: list_laws_def demo_E_def demo_V_def demo_redis_def demo_run_def demo_views on_def
      becomes_def demo_view_upd split: option.splits)

lemma demo_json: "json_laws demo_E demo_V"
  unfolding json_laws_def
  by (auto simp: demo_E_def demo_V_def demo_at_def demo_set_def members_parse_text
      scalar_parse_text [unfolded demo_E_def] split: demo_json.splits)

lemma demo_queued: "demo_view (snd (demo_run args ks)) = run_queued args (demo_view ks)"
  if "queued args" for args ks
  using that
  by (auto simp: queued_def demo_run_def run_queued_def on_def wrong_type_def demo_views demo_view_upd
      split: option.splits)

lemma demo_exec:
  "list_all queued q \<Longrightarrow>
   demo_view (fold (\<lambda>a ks. snd (demo_run a ks)) q ks) = fold run_queued q (demo_view ks)"
  by (induction q arbitrary: ks) (simp_all add: demo_queued)

lemma demo_multi: "multi_laws demo_E demo_V"
proof -
  have "args \<noteq> [''exec'']" "args \<noteq> [''multi'']" if "queued args" for args
    using that by (auto simp: queued_def)
  then show ?thesis
    by (auto simp: multi_laws_def demo_E_def demo_V_def demo_redis_def demo_exec)
qed

lemma demo_run_other: "k' \<noteq> k \<Longrightarrow> snd (demo_run (cmd # k # args) ks) k' = ks k'"
  by (auto simp: demo_run_def on_def wrong_type_def split: list.splits option.splits)

lemma demo_frame: "frame_laws demo_E demo_V"
  by (auto simp: frame_laws_def demo_E_def demo_V_def demo_redis_def demo_view_def split_beta
      demo_run_other)

lemma demo_laws: "store_laws demo_E demo_V"
  by (simp add: store_laws_def demo_hash demo_set_laws demo_list demo_frame demo_multi demo_json)

subsection \<open>An empty store\<close>

definition demo_empty :: demo where
  "demo_empty = \<lparr>dkeys = Map.empty, dopened = Map.empty\<rparr>"

definition demo_manager :: "demo manager" where
  "demo_manager = RedisManager.RedisManager 0 demo_empty"

lemma demo_registry: "registry demo_E demo_V Map.empty demo_manager"
  by (simp add: registry_def idle_def demo_manager_def RedisManager.RedisManager_def demo_empty_def
      demo_V_def demo_views dhash_def numbered_def)

end
