(* ===== verification/StoreProperties.thy ===== *)
theory StoreProperties imports DemoPlatform begin

text \<open>
  What the methods of \<open>RedisManager\<close> guarantee, on any platform that meets the laws.
\<close>

subsection \<open>Agents\<close>

text \<open>
  C17. \<open>InitAgent\<close> registers the token it is given: afterwards \<open>GetAgentID\<close> finds it, under the number
  it had before, or, for a new token, under a number no other token has; the entries of all other
  tokens are untouched, and numbers stay unique.
\<close>

theorem InitAgent_assigns:
  assumes "store_laws E V" and "registry E V h m" and "card (dom h) < 2 ^ 31"
  shows "\<exists>m' h' n. InitAgent E token hostIP ramSize m = Some (True, m') \<and>
    registry E V h' m' \<and> (\<forall>f. f \<noteq> to_string token \<longrightarrow> h' f = h f) \<and>
    GetAgentID E token m' = Some (n, m') \<and>
    (case h (to_string token) of
       None \<Rightarrow> n = word_of_nat (card (dom h)) \<and>
               (\<forall>t k. t \<noteq> token \<longrightarrow> h (to_string t) \<noteq> None \<longrightarrow> GetAgentID E t m' \<noteq> Some (n, k))
     | Some w \<Rightarrow> entry_number E w = Some n)"
proof -
  obtain m' n v where i: "InitAgent E token hostIP ramSize m = Some (True, m')"
    "registry E V (h(to_string token \<mapsto> v)) m'" "entry_number E v = Some n"
    "h (to_string token) = None \<Longrightarrow> n = word_of_nat (card (dom h))"
    "\<And>w. h (to_string token) = Some w \<Longrightarrow> entry_number E w = Some n"
    "wrote V m ''AgentList'' (Some (Hash (h(to_string token \<mapsto> v)))) m'"
    by (rule InitAgent_registry [OF assms, of token hostIP ramSize]) (rule that)
  have id: "GetAgentID E token m' = Some (n, m')"
    by (rule GetAgentID_known [OF assms(1) i(2) _ i(3)]) simp
  have "GetAgentID E t m' \<noteq> Some (n, k)" if t: "t \<noteq> token" "h (to_string t) = Some w" for t k w
  proof -
    have num: "numbered E (h(to_string token \<mapsto> v))" and w: "(h(to_string token \<mapsto> v)) (to_string t) = Some w"
      using i(2) t by (simp_all add: registry_def)
    obtain l where l: "entry_number E w = Some l" using numbered_number [OF num w] by blast
    have "l \<noteq> n"
      using numbered_unique [OF num w, of "to_string token" v] l i(3) t(1) by auto
    then show ?thesis using GetAgentID_known [OF assms(1) i(2) w l] by simp
  qed
  then show ?thesis
    using i id by (intro exI [of _ m'] exI [of _ "h(to_string token \<mapsto> v)"] exI [of _ n])
      (auto split: option.splits)
qed

theorem InitAgent_assigns_witness:
  "\<exists>m' n. InitAgent demo_E 7 1 0 demo_manager = Some (True, m') \<and>
     GetAgentID demo_E 7 m' = Some (n, m') \<and> n = 0"
  using InitAgent_assigns [OF demo_laws demo_registry, of 7 1 0] by auto

text \<open>
  C20. The state changes of an agent (on or off, recording or not) answer \<open>true\<close> exactly for the known
  tokens, keep every agent's number, and leave the registry as they found it for unknown ones.
\<close>

theorem ChangeAgentState_keeps_ids:
  assumes "store_laws E V" and "registry E V h m"
    and "f \<in> {\<lambda>m. ChangeAgentState_isOn E token b m,
              \<lambda>m. ChangeAgentState_startRecording E now token totalTime response interval delay m,
              \<lambda>m. ChangeAgentState_stopRecording E token m}"
  shows "\<exists>r m' h'. f m = Some (r, m') \<and> r = (h (to_string token) \<noteq> None) \<and> registry E V h' m' \<and>
    (\<forall>g. map_option (entry_number E) (h' g) = map_option (entry_number E) (h g))"
proof -
  from assms(3) consider
      "f = ChangeAgentState_isOn E token b"
    | "f = ChangeAgentState_startRecording E now token totalTime response interval delay"
    | "f = ChangeAgentState_stopRecording E token" by auto
  then have "\<exists>updates. f = change_agent E updates token \<and> (\<forall>kv \<in> set updates. scalar E (snd kv)) \<and>
      ''agentNumber'' \<notin> fst ` set updates"
    by cases (simp only: ChangeAgentState_isOn_def ChangeAgentState_startRecording_def
      ChangeAgentState_stopRecording_def Let_def, rule exI, rule conjI, rule refl, simp)+
  then obtain updates where u: "f = change_agent E updates token"
    "\<forall>kv \<in> set updates. scalar E (snd kv)" "''agentNumber'' \<notin> fst ` set updates" by blast
  show ?thesis
  proof (cases "h (to_string token)")
    case None
    then show ?thesis
      using change_agent_registry(1) [OF assms(1,2) u(2,3) None] assms(2) u(1) by auto
  next
    case (Some w)
    then show ?thesis
      using change_agent_registry(2) [OF assms(1,2) u(2,3) Some] u(1) by fastforce
  qed
qed

theorem ChangeAgentState_keeps_ids_witness:
  "\<exists>r m' h'. ChangeAgentState_stopRecording demo_E 7 demo_manager = Some (r, m') \<and> \<not> r \<and>
     registry demo_E demo_V h' m'"
  using ChangeAgentState_keeps_ids [OF demo_laws demo_registry,
      of "\<lambda>m. ChangeAgentState_stopRecording demo_E 7 m" 7 False 0 0 0 0 0] by auto

subsection \<open>Process lists\<close>

text \<open>The members of a list are read back, and the defaults entered where there are none.\<close>

lemma sadd_all_defaults:
  assumes "set_laws E V" "idle V m" "set_at (keys_of V m) k = Some A"
  shows "\<exists>m'. sadd_all E k xs acc m = Some (True, acc @ xs, m') \<and> idle V m' \<and>
    set_at (keys_of V m') k = Some (A \<union> set xs) \<and> defaultProcessList m' = defaultProcessList m"
  using assms(2,3)
proof (induction xs arbitrary: acc m A)
  case (Cons x xs)
  obtain m1 where m1: "redis_command E [''sadd'', k, x] m =
      Some (RedisValue_int (if x \<in> A then 0 else 1), m1)"
    "wrote V m k (Some (Set (insert x A))) m1"
    using cmd_sadd [OF assms(1) Cons.prems] .
  have "defaultProcessList m1 = defaultProcessList m"
    using m1(2) by (cases m1) (auto simp: wrote_def)
  moreover have "idle V m1" "set_at (keys_of V m1) k = Some (insert x A)"
    using wrote_idle [OF m1(2) Cons.prems(1)] wrote_keys [OF m1(2)] by simp_all
  ultimately show ?case
    using Cons.IH [of m1 "insert x A" "acc @ [x]"] m1(1) by (simp add: redis_observers)
qed simp

abbreviation process_list :: "int32 \<Rightarrow> string" where
  "process_list agentID \<equiv> to_string agentID @ '':ProcessList''"

lemma GetProcessList_known:
  assumes "set_laws E V" "idle V m" "set_at (keys_of V m) (process_list agentID) = Some B" "B \<noteq> {}"
  shows "\<exists>xs. GetProcessList E agentID m = Some (True, xs, m) \<and> set xs = B"
proof -
  obtain xs where xs: "redis_command E [''smembers'', process_list agentID] m =
      Some (RedisValue_array (map RedisValue_buf xs), m)" "set xs = B"
    using cmd_smembers [OF assms(1-3)] by metis
  moreover from this assms(4) have "xs \<noteq> []" by auto
  ultimately show ?thesis
    by (intro exI [of _ xs]) (simp add: GetProcessList_def Let_def redis_observers o_def map_idI)
qed

lemma GetProcessList_fresh:
  assumes "set_laws E V" "idle V m" "set_at (keys_of V m) (process_list agentID) = Some {}"
  shows "\<exists>m'. GetProcessList E agentID m = Some (True, defaultProcessList m, m') \<and> idle V m' \<and>
    set_at (keys_of V m') (process_list agentID) = Some (set (defaultProcessList m)) \<and>
    (defaultProcessList m = [] \<longrightarrow> m' = m)"
proof -
  obtain xs where "redis_command E [''smembers'', process_list agentID] m =
      Some (RedisValue_array (map RedisValue_buf xs), m)" "set xs = {}"
    using cmd_smembers [OF assms] by metis
  then have "GetProcessList E agentID m =
      sadd_all E (process_list agentID) (defaultProcessList m) [] m"
    by (simp add: GetProcessList_def Let_def redis_observers)
  moreover obtain m' where
    "sadd_all E (process_list agentID) (defaultProcessList m) [] m = Some (True, defaultProcessList m, m')"
    "idle V m'" "set_at (keys_of V m') (process_list agentID) = Some (set (defaultProcessList m))"
    using sadd_all_defaults [OF assms, of "defaultProcessList m" "[]"] by auto
  ultimately show ?thesis by auto
qed

text \<open>
  C21. \<open>GetProcessList\<close> returns the watched processes of an agent: the stored ones, or the defaults,
  which are then stored, so that the next call (here on whatever manager of the same store) returns
  the same processes.
\<close>

theorem GetProcessList_stable:
  assumes "store_laws E V" and "idle V m" and "set_at (keys_of V m) (process_list agentID) = Some A"
  shows "\<exists>xs m' ys. GetProcessList E agentID m = Some (True, xs, m') \<and>
    set xs = (if A = {} then set (defaultProcessList m) else A) \<and> idle V m' \<and>
    set_at (keys_of V m') (process_list agentID) = Some (set xs) \<and>
    GetProcessList E agentID m' = Some (True, ys, m') \<and> set ys = set xs"
proof -
  have laws: "set_laws E V" using assms(1) by (simp add: store_laws_def)
  show ?thesis
  proof (cases "A = {}")
    case False
    with GetProcessList_known [OF laws assms(2,3)] assms(2,3) show ?thesis by auto
  next
    case True
    with GetProcessList_fresh [OF laws] assms(2,3) obtain m' where m':
      "GetProcessList E agentID m = Some (True, defaultProcessList m, m')" "idle V m'"
      "set_at (keys_of V m') (process_list agentID) = Some (set (defaultProcessList m))"
      "defaultProcessList m = [] \<longrightarrow> m' = m" by blast
    show ?thesis
    proof (cases "defaultProcessList m = []")
      case False
      then show ?thesis using GetProcessList_known [OF laws m'(2,3)] m' True by auto
    qed (use m' True in auto)
  qed
qed

theorem GetProcessList_stable_witness:
  "\<exists>xs m' ys. GetProcessList demo_E 3 (demo_manager\<lparr>defaultProcessList := [''notepad'']\<rparr>) =
       Some (True, xs, m') \<and> set xs = {''notepad''} \<and>
     GetProcessList demo_E 3 m' = Some (True, ys, m') \<and> set ys = {''notepad''}"
proof -
  let ?m = "demo_manager\<lparr>defaultProcessList := [''notepad'']\<rparr>"
  have "idle demo_V ?m" and "set_at (keys_of demo_V ?m) (process_list 3) = Some {}"
    by (simp_all add: idle_def demo_manager_def RedisManager.RedisManager_def demo_empty_def demo_V_def
        demo_views dset_def)
  from GetProcessList_stable [OF demo_laws this] show ?thesis by auto
qed



subsection \<open>The current processes of an agent\<close>

lemma cmd_queue:
  assumes "multi_laws E V" "opened V (store m) (conn m) = Some q" "queued args"
  obtains m' where "redis_command E args m = Some (RedisValue_buf ''QUEUED'', m')"
    "m' = m\<lparr>store := store m'\<rparr>" "keys_of V m' = keys_of V m"
    "opened V (store m') = (opened V (store m))(conn m := Some (q @ [args]))"
proof -
  obtain s' where "redis E (conn m) (store m) args = Some (RedisValue_buf ''QUEUED'', s')"
    "keys V s' = keys_of V m" "opened V s' = (opened V (store m))(conn m := Some (q @ [args]))"
    using assms unfolding multi_laws_def by blast
  then show thesis by (intro that [of "m\<lparr>store := s'\<rparr>"]) (simp_all add: redis_command_def)
qed

definition process_fields :: "CurrentProcess list \<Rightarrow> (string \<times> string) list" where
  "process_fields ps = map (\<lambda>p. (get_or [] (cp_processName p), pid_text (cp_processID p))) ps"

lemma save_processes_queued:
  assumes "multi_laws E V" "opened V (store m) (conn m) = Some q"
  shows "\<exists>m'. save_processes E key ps m = Some (True, m') \<and> conn m' = conn m \<and>
    keys_of V m' = keys_of V m \<and> opened V (store m') = (opened V (store m))
      (conn m := Some (q @ map (\<lambda>(f, v). [''hmset'', key, f, v]) (process_fields ps)))"
  using assms(2)
proof (induction ps arbitrary: m q)
  case Nil
  then show ?case by (auto simp: process_fields_def)
next
  case (Cons p ps)
  let ?args = "[''hmset'', key, get_or [] (cp_processName p), pid_text (cp_processID p)]"
  have "queued ?args" by (simp add: queued_def)
  then obtain m1 where m1: "redis_command E ?args m = Some (RedisValue_buf ''QUEUED'', m1)"
    "m1 = m\<lparr>store := store m1\<rparr>" "keys_of V m1 = keys_of V m"
    "opened V (store m1) = (opened V (store m))(conn m := Some (q @ [?args]))"
    using cmd_queue [OF assms(1) Cons.prems] by blast
  then have c: "conn m1 = conn m" by (cases m1) auto
  have op1: "opened V (store m1) (conn m1) = Some (q @ [?args])" using m1(4) c by simp
  obtain m' where m': "save_processes E key ps m1 = Some (True, m')" "conn m' = conn m1"
    "keys_of V m' = keys_of V m1" "opened V (store m') = (opened V (store m1))(conn m1 :=
       Some ((q @ [?args]) @ map (\<lambda>(f, v). [''hmset'', key, f, v]) (process_fields ps)))"
    using Cons.IH [OF op1] by blast
  have "opened V (store m') = (opened V (store m))
      (conn m := Some (q @ map (\<lambda>(f, v). [''hmset'', key, f, v]) (process_fields (p # ps))))"
    unfolding m'(4) m1(4) c by (simp add: process_fields_def)
  with m' m1(1,3) c show ?case by (auto simp: redis_observers)
qed

lemma run_hmsets:
  "hash_at ks k = Some h \<Longrightarrow>
   fold run_queued (map (\<lambda>(f, v). [''hmset'', k, f, v]) fvs) ks =
     (if fvs = [] then ks else ks(k \<mapsto> Hash (h ++ map_of (rev fvs))))"
proof (induction fvs arbitrary: ks h)
  case (Cons fv fvs)
  obtain f v where fv: "fv = (f, v)" by (cases fv)
  let ?ks = "ks(k \<mapsto> Hash (h(f \<mapsto> v)))"
  have one: "run_queued [''hmset'', k, f, v] ks = ?ks"
    using Cons.prems by (simp add: run_queued_def)
  have "hash_at ?ks k = Some (h(f \<mapsto> v))" by simp
  note IH = Cons.IH [OF this]
  show ?case
  proof (cases "fvs = []")
    case False
    then have rest: "fold run_queued (map (\<lambda>(f, v). [''hmset'', k, f, v]) fvs) ?ks =
        ?ks(k \<mapsto> Hash (h(f \<mapsto> v) ++ map_of (rev fvs)))" by (simp only: IH if_False)
    show ?thesis by (simp only: fv list.map fold_Cons o_apply case_prod_conv one rest) simp
  qed (simp add: fv one)
qed simp

text \<open>The fields that the message of a packet, if it parses, gives to the list.\<close>

definition list_fields :: "csCurrentProcessListSend option \<Rightarrow> (string \<times> string) list" where
  "list_fields x = (case x of None \<Rightarrow> [] | Some msg \<Rightarrow> process_fields (cpl_processInfo msg))"

lemma save_message_queued:
  assumes "multi_laws E V" "opened V (store m) (conn m) = Some q"
  obtains m' where "(case x of None \<Rightarrow> Some (True, m)
      | Some msg \<Rightarrow> save_processes E key (cpl_processInfo msg) m) = Some (True, m')"
    "conn m' = conn m" "keys_of V m' = keys_of V m"
    "opened V (store m') = (opened V (store m))
      (conn m := Some (q @ map (\<lambda>(f, v). [''hmset'', key, f, v]) (list_fields x)))"
proof (cases x)
  case None
  with that [of m] assms(2) show thesis by (simp add: list_fields_def fun_upd_idem)
next
  case (Some msg)
  from save_processes_queued [OF assms, of key "cpl_processInfo msg"] Some that show thesis
    by (auto simp: list_fields_def)
qed

lemma begin_replace:
  assumes "multi_laws E V" "idle V m"
  obtains m1 m2 where "redis_command E [''multi''] m = Some (RedisValue_buf ''OK'', m1)"
    "redis_command E [''del'', key] m1 = Some (RedisValue_buf ''QUEUED'', m2)"
    "conn m2 = conn m" "keys_of V m2 = keys_of V m"
    "opened V (store m2) = (opened V (store m))(conn m := Some [[''del'', key]])"
proof -
  obtain s1 where s1: "redis E (conn m) (store m) [''multi''] = Some (RedisValue_buf ''OK'', s1)"
    "keys V s1 = keys_of V m" "opened V s1 = (opened V (store m))(conn m := Some [])"
    using assms unfolding multi_laws_def idle_def by blast
  let ?m1 = "m\<lparr>store := s1\<rparr>"
  have "opened V (store ?m1) (conn ?m1) = Some []" "queued [''del'', key]"
    using s1 by (simp_all add: queued_def)
  then obtain m2 where m2: "redis_command E [''del'', key] ?m1 = Some (RedisValue_buf ''QUEUED'', m2)"
    "m2 = ?m1\<lparr>store := store m2\<rparr>" "keys_of V m2 = keys_of V ?m1"
    "opened V (store m2) = (opened V (store ?m1))(conn ?m1 := Some ([] @ [[''del'', key]]))"
    using cmd_queue [OF assms(1)] by blast
  moreover have "conn m2 = conn m" using m2(2) by (cases m2) auto
  ultimately show thesis
    using s1 by (intro that [of ?m1 m2]) (simp_all add: redis_command_def [of E "[''multi'']"])
qed

lemma end_replace:
  assumes "multi_laws E V"
    and "opened V (store m) (conn m) =
      Some ([''del'', key] # map (\<lambda>(f, v). [''hmset'', key, f, v]) fvs)"
  obtains vs m' where "redis_command E [''exec''] m = Some (RedisValue_array vs, m')"
    "conn m' = conn m" "opened V (store m') = (opened V (store m))(conn m := None)"
    "keys_of V m' = (keys_of V m)
      (key := if fvs = [] then None else Some (Hash (map_of (rev fvs))))"
proof -
  let ?q = "[''del'', key] # map (\<lambda>(f, v). [''hmset'', key, f, v]) fvs"
  have "list_all queued ?q" by (auto simp: queued_def list_all_iff)
  then obtain vs s' where s': "redis E (conn m) (store m) [''exec''] = Some (RedisValue_array vs, s')"
    "keys V s' = fold run_queued ?q (keys_of V m)" "opened V s' = (opened V (store m))(conn m := None)"
    using assms unfolding multi_laws_def by blast
  have "run_queued [''del'', key] (keys_of V m) = (keys_of V m)(key := None)"
    by (simp add: run_queued_def)
  then have "keys V s' = (keys_of V m)(key := if fvs = [] then None else Some (Hash (map_of (rev fvs))))"
    using s'(2) run_hmsets [of "(keys_of V m)(key := None)" key Map.empty fvs] by simp
  with s' show thesis
    by (intro that [of vs "m\<lparr>store := s'\<rparr>"]) (simp_all add: redis_command_def)
qed

lemma SaveCurrentProcessList_done:
  assumes "store_laws E V" and "idle V m"
  obtains m' where "SaveCurrentProcessList E agentID packet m = Some (True, m')"
    "conn m' = conn m" "opened V (store m') = opened V (store m)"
    "keys_of V m' = (keys_of V m)(to_string agentID @ '':CurrentProcessList'' :=
      (case csCurrentProcessListSend_parse (wire E) (payload packet) of
         None \<Rightarrow> None
       | Some msg \<Rightarrow>
           if cpl_processInfo msg = [] then None
           else Some (Hash (map_of (rev (process_fields (cpl_processInfo msg)))))))"
proof -
  let ?k = "to_string agentID @ '':CurrentProcessList''"
  let ?x = "csCurrentProcessListSend_parse (wire E) (payload packet)"
  have laws: "multi_laws E V" using assms(1) by (simp add: store_laws_def)
  obtain m1 m2 where m2: "redis_command E [''multi''] m = Some (RedisValue_buf ''OK'', m1)"
    "redis_command E [''del'', ?k] m1 = Some (RedisValue_buf ''QUEUED'', m2)"
    "conn m2 = conn m" "keys_of V m2 = keys_of V m"
    "opened V (store m2) = (opened V (store m))(conn m := Some [[''del'', ?k]])"
    using begin_replace [OF laws assms(2)] .
  then have "opened V (store m2) (conn m2) = Some [[''del'', ?k]]" by simp
  from save_message_queued [OF laws this] obtain m3 where m3: "(case ?x of None \<Rightarrow> Some (True, m2)
      | Some msg \<Rightarrow> save_processes E ?k (cpl_processInfo msg) m2) = Some (True, m3)"
    "conn m3 = conn m2" "keys_of V m3 = keys_of V m2"
    "opened V (store m3) = (opened V (store m2)) (conn m2 :=
       Some ([[''del'', ?k]] @ map (\<lambda>(f, v). [''hmset'', ?k, f, v]) (list_fields ?x)))" .
  then have "opened V (store m3) (conn m3) =
      Some ([''del'', ?k] # map (\<lambda>(f, v). [''hmset'', ?k, f, v]) (list_fields ?x))" by simp
  from end_replace [OF laws this] obtain vs m4 where m4:
    "redis_command E [''exec''] m3 = Some (RedisValue_array vs, m4)" "conn m4 = conn m3"
    "opened V (store m4) = (opened V (store m3))(conn m3 := None)"
    "keys_of V m4 = (keys_of V m3)
      (?k := if list_fields ?x = [] then None else Some (Hash (map_of (rev (list_fields ?x)))))" .
  have "SaveCurrentProcessList E agentID packet m = Some (True, m4)"
    using m2(1,2) m3(1) m4(1) by (simp add: SaveCurrentProcessList_def Let_def redis_observers)
  moreover have "opened V (store m4) = opened V (store m)"
    unfolding m4(3) m3(2,4) m2(3,5) using assms(2) by (simp add: idle_def fun_upd_idem)
  ultimately show thesis
    using m2(3,4) m3(2,3) m4(2,4)
    by (intro that [of m4]) (auto simp: list_fields_def process_fields_def split: option.splits)
qed

text \<open>
  C18. \<open>SaveCurrentProcessList\<close> replaces the process list of an agent in one transaction: afterwards the
  hash holds, for each process name of the message, the ids of its last entry, and nothing of the
  old list; the transaction is closed. A packet that does not parse makes the list disappear, and
  the method answers \<open>true\<close> all the same.
\<close>

theorem SaveCurrentProcessList_replaces:
  assumes "store_laws E V" and "idle V m"
  shows "\<exists>m'. SaveCurrentProcessList E agentID packet m = Some (True, m') \<and> idle V m' \<and>
    keys_of V m' = (keys_of V m)(to_string agentID @ '':CurrentProcessList'' :=
      (case csCurrentProcessListSend_parse (wire E) (payload packet) of
         None \<Rightarrow> None
       | Some msg \<Rightarrow>
           if cpl_processInfo msg = [] then None
           else Some (Hash (map_of (rev (process_fields (cpl_processInfo msg)))))))"
proof -
  obtain m' where "SaveCurrentProcessList E agentID packet m = Some (True, m')"
    "conn m' = conn m" "opened V (store m') = opened V (store m)"
    "keys_of V m' = (keys_of V m)(to_string agentID @ '':CurrentProcessList'' :=
      (case csCurrentProcessListSend_parse (wire E) (payload packet) of
         None \<Rightarrow> None
       | Some msg \<Rightarrow>
           if cpl_processInfo msg = [] then None
           else Some (Hash (map_of (rev (process_fields (cpl_processInfo msg)))))))"
    using SaveCurrentProcessList_done [OF assms] .
  with assms(2) show ?thesis by (intro exI [of _ m']) (simp add: idle_def)
qed

definition demo_list_msg :: csCurrentProcessListSend where
  "demo_list_msg = \<lparr>cpl_processInfo = [\<lparr>cp_processName = Some ''calc'', cp_processID = [5, 6]\<rparr>]\<rparr>"

definition demo_packet :: "byte list \<Rightarrow> CPacket" where
  "demo_packet bs = \<lparr>plength = word_of_nat (length bs), ptype = 0, pmsg = bs, powner = 0, pownert = AGENT\<rparr>"

lemma demo_packet_payload: "length bs < 32768 \<Longrightarrow> payload (demo_packet bs) = bs"
  by (simp add: payload_def demo_packet_def sint16_unat unat16_of_nat)

lemma demo_list_parse:
  "csCurrentProcessListSend_parse (wire demo_E)
     (payload (demo_packet (csCurrentProcessListSend_serialize proto_wire demo_list_msg))) =
   Some demo_list_msg"
proof -
  have "length (csCurrentProcessListSend_serialize proto_wire demo_list_msg) < 32768" by code_simp
  moreover have "wire demo_E = proto_wire" by (simp add: demo_E_def)
  moreover have "csCurrentProcessListSend_initialized demo_list_msg" by code_simp
  ultimately show ?thesis
    by (simp add: demo_packet_payload csCurrentProcessListSend_roundtrip proto_wire_ok)
qed

theorem SaveCurrentProcessList_replaces_witness:
  "\<exists>m'. SaveCurrentProcessList demo_E 3
        (demo_packet (csCurrentProcessListSend_serialize proto_wire demo_list_msg)) demo_manager =
      Some (True, m') \<and>
    keys_of demo_V m' ''3:CurrentProcessList'' = Some (Hash [''calc'' \<mapsto> ''5 6 ''])"
proof -
  have "idle demo_V demo_manager"
    by (simp add: idle_def demo_manager_def RedisManager.RedisManager_def demo_empty_def demo_V_def)
  moreover have "to_string 3 @ '':CurrentProcessList'' = ''3:CurrentProcessList''"
    and "process_fields (cpl_processInfo demo_list_msg) = [(''calc'', ''5 6 '')]"
    and "cpl_processInfo demo_list_msg \<noteq> []"
    by code_simp+
  ultimately show ?thesis
    using SaveCurrentProcessList_replaces [OF demo_laws, of demo_manager 3
        "demo_packet (csCurrentProcessListSend_serialize proto_wire demo_list_msg)"]
    unfolding demo_list_parse by auto
qed

subsection \<open>Logs\<close>

definition log_text :: "('s, 'j) platform \<Rightarrow> (real64 \<Rightarrow> real64) \<Rightarrow> Log \<Rightarrow> string" where
  "log_text E scale l =
     int_to_dec (sint (get_or 0 (log_timeStamp l))) @ '' '' @ real_text E (scale (get_or 0 (log_value l)))"

lemma push_logs_list:
  assumes "list_laws E V" "idle V m" "list_at (keys_of V m) key = Some xs"
  shows "\<exists>m'. push_logs E key scale ls m = Some (True, m') \<and> idle V m' \<and>
    counterNameMap m' = counterNameMap m \<and>
    list_at (keys_of V m') key = Some (rev (map (log_text E scale) ls) @ xs) \<and>
    (\<forall>k. k \<noteq> key \<longrightarrow> keys_of V m' k = keys_of V m k)"
  using assms(2,3)
proof (induction ls arbitrary: m xs)
  case (Cons l ls)
  let ?v = "log_text E scale l"
  obtain n m1 where m1: "redis_command E [''lpush'', key, ?v] m = Some (RedisValue_int n, m1)"
    "wrote V m key (Some (List (?v # xs))) m1"
    using cmd_lpush [OF assms(1) Cons.prems] .
  have s1: "idle V m1" "list_at (keys_of V m1) key = Some (?v # xs)"
    using wrote_idle [OF m1(2) Cons.prems(1)] wrote_keys [OF m1(2)] by simp_all
  have "counterNameMap m1 = counterNameMap m" using m1(2) by (cases m1) (auto simp: wrote_def)
  moreover obtain m' where "push_logs E key scale ls m1 = Some (True, m')" "idle V m'"
    "counterNameMap m' = counterNameMap m1"
    "list_at (keys_of V m') key = Some (rev (map (log_text E scale) ls) @ ?v # xs)"
    "\<forall>k. k \<noteq> key \<longrightarrow> keys_of V m' k = keys_of V m1 k"
    using Cons.IH [OF s1] by blast
  ultimately show ?case
    using m1(1) wrote_keys [OF m1(2)]
    by (intro exI [of _ m']) (simp add: log_text_def redis_observers)
qed simp

text \<open>Where the logs of an entry of the message go, and as which texts.\<close>

definition process_key :: "int32 \<Rightarrow> 's manager \<Rightarrow> ProcessInfos \<Rightarrow> string" where
  "process_key agentID m pi =
     to_string agentID @ '':'' @ CounterNameToNewName (get_or [] (pi_counterName pi)) m @ '':'' @
     get_or [] (pi_processName pi) @ '':'' @ to_string (get_or 0 (pi_processID pi))"

definition process_logs :: "('s, 'j) platform \<Rightarrow> 's manager \<Rightarrow> ProcessInfos \<Rightarrow> string list" where
  "process_logs E m pi =
     map (log_text E (\<lambda>value.
       if CounterNameToNewName (get_or [] (pi_counterName pi)) m = ''Memory''
       then real_div E value 1024 else value)) (pi_logs pi)"

lemma save_process_infos_lists:
  assumes "list_laws E V" "idle V m" "\<forall>pi \<in> set pis. list_at (keys_of V m) (process_key agentID m pi) \<noteq> None"
  shows "\<exists>m'. save_process_infos E (to_string agentID) pis m = Some (True, m') \<and> idle V m' \<and>
    (\<forall>k. list_at (keys_of V m') k =
       map_option (\<lambda>xs. rev (concat (map (process_logs E m) (filter (\<lambda>pi. process_key agentID m pi = k) pis))) @ xs)
         (list_at (keys_of V m) k))"
  using assms(2,3)
proof (induction pis arbitrary: m)
  case Nil
  then show ?case by (simp add: option.map_ident)
next
  case (Cons pi pis)
  let ?key = "process_key agentID m pi"
  obtain xs where xs: "list_at (keys_of V m) ?key = Some xs" using Cons.prems(2) by auto
  obtain m1 where m1: "push_logs E ?key (\<lambda>value.
        if CounterNameToNewName (get_or [] (pi_counterName pi)) m = ''Memory''
        then real_div E value 1024 else value) (pi_logs pi) m = Some (True, m1)"
    "idle V m1" "counterNameMap m1 = counterNameMap m"
    "list_at (keys_of V m1) ?key = Some (rev (process_logs E m pi) @ xs)"
    "\<forall>k. k \<noteq> ?key \<longrightarrow> keys_of V m1 k = keys_of V m k"
    using push_logs_list [OF assms(1) Cons.prems(1) xs] unfolding process_logs_def by blast
  have same: "process_key agentID m1 = process_key agentID m" "process_logs E m1 = process_logs E m"
    using m1(3) by (auto simp: process_key_def process_logs_def CounterNameToNewName_def fun_eq_iff)
  have at: "list_at (keys_of V m1) k =
      map_option (\<lambda>xs. (if k = ?key then rev (process_logs E m pi) else []) @ xs) (list_at (keys_of V m) k)"
    for k using m1(4,5) xs by (auto simp: list_at_def option.map_ident)
  then have "\<forall>pi \<in> set pis. list_at (keys_of V m1) (process_key agentID m1 pi) \<noteq> None"
    using Cons.prems(2) by (simp add: same)
  from Cons.IH [OF m1(2) this] obtain m' where m': "save_process_infos E (to_string agentID) pis m1 = Some (True, m')"
    "idle V m'" "\<forall>k. list_at (keys_of V m') k =
       map_option (\<lambda>xs. rev (concat (map (process_logs E m) (filter (\<lambda>pi. process_key agentID m pi = k) pis))) @ xs)
         (list_at (keys_of V m1) k)"
    unfolding same by blast
  have "save_process_infos E (to_string agentID) (pi # pis) m = Some (True, m')"
    using m1(1) m'(1) by (simp add: process_key_def Let_def)
  with m'(2,3) show ?case
    by (auto simp: at option.map_comp o_def intro!: option.map_cong)
qed

text \<open>
  C19. \<open>SaveProcessInfo\<close> stores what the message reports and nothing else: each key's list gets in front
  of it the logs of the entries for that key, the newest first; a key without an entry keeps its
  list.
\<close>

theorem SaveProcessInfo_appends:
  assumes "store_laws E V" and "idle V m"
    and "csTotalProcessInfoSend_parse (wire E) (payload packet) = Some msg"
    and "\<forall>pi \<in> set (tpi_info msg). list_at (keys_of V m) (process_key agentID m pi) \<noteq> None"
  shows "\<exists>m'. SaveProcessInfo E agentID packet m = Some (True, m') \<and> idle V m' \<and>
    (\<forall>k. list_at (keys_of V m') k =
       map_option (\<lambda>xs. rev (concat (map (process_logs E m)
           (filter (\<lambda>pi. process_key agentID m pi = k) (tpi_info msg)))) @ xs)
         (list_at (keys_of V m) k))"
  using save_process_infos_lists [OF _ assms(2,4)] assms(1,3)
  by (simp add: SaveProcessInfo_def store_laws_def)

definition demo_info_msg :: csTotalProcessInfoSend where
  "demo_info_msg = \<lparr>tpi_info =
     [\<lparr>pi_counterName = Some ''c'', pi_processName = Some ''p'', pi_processID = Some 7,
       pi_logs = [\<lparr>log_timeStamp = Some 1, log_value = Some 0\<rparr>,
                  \<lparr>log_timeStamp = Some 2, log_value = Some 0\<rparr>]\<rparr>]\<rparr>"

lemma demo_info_parse:
  "csTotalProcessInfoSend_parse (wire demo_E)
     (payload (demo_packet (csTotalProcessInfoSend_serialize proto_wire demo_info_msg))) =
   Some demo_info_msg"
proof -
  have "length (csTotalProcessInfoSend_serialize proto_wire demo_info_msg) < 32768" by code_simp
  moreover have "wire demo_E = proto_wire" by (simp add: demo_E_def)
  moreover have "csTotalProcessInfoSend_initialized demo_info_msg" by code_simp
  ultimately show ?thesis
    by (simp add: demo_packet_payload csTotalProcessInfoSend_roundtrip proto_wire_ok)
qed

theorem SaveProcessInfo_appends_witness:
  "\<exists>m'. SaveProcessInfo demo_E 3
        (demo_packet (csTotalProcessInfoSend_serialize proto_wire demo_info_msg)) demo_manager =
      Some (True, m') \<and>
    list_at (keys_of demo_V m') ''3:etc:p:7'' = Some [''2 0'', ''1 0'']"
proof -
  have idle: "idle demo_V demo_manager"
    by (simp add: idle_def demo_manager_def RedisManager.RedisManager_def demo_empty_def demo_V_def)
  have empty: "list_at (keys_of demo_V demo_manager) k = Some []" for k
    by (simp add: demo_manager_def RedisManager.RedisManager_def demo_empty_def demo_V_def demo_views
        dlist_def)
  have key: "process_key 3 demo_manager pi = ''3:etc:p:7''"
    and logs: "process_logs demo_E demo_manager pi = [''1 0'', ''2 0'']"
    if "pi \<in> set (tpi_info demo_info_msg)" for pi
  proof -
    have texts: "to_string 3 = ''3''" "to_string 7 = ''7''" "nat_to_dec 0 = ''0''"
      "int_to_dec (sint (1 :: int64)) = ''1''" "int_to_dec (sint (2 :: int64)) = ''2''"
      by code_simp+
    have "counterNameMap demo_manager = Map.empty"
      by (simp add: demo_manager_def RedisManager.RedisManager_def)
    with that texts show "process_key 3 demo_manager pi = ''3:etc:p:7''"
      and "process_logs demo_E demo_manager pi = [''1 0'', ''2 0'']"
      by (simp_all add: demo_info_msg_def process_key_def process_logs_def log_text_def
          CounterNameToNewName_def demo_E_def)
  qed
  have "filter (\<lambda>pi. process_key 3 demo_manager pi = ''3:etc:p:7'') (tpi_info demo_info_msg) =
      tpi_info demo_info_msg"
    using key by (simp add: filter_id_conv)
  moreover have "map (process_logs demo_E demo_manager) (tpi_info demo_info_msg) =
      map (\<lambda>_. [''1 0'', ''2 0'']) (tpi_info demo_info_msg)"
    using logs by simp
  moreover have "\<forall>pi \<in> set (tpi_info demo_info_msg).
      list_at (keys_of demo_V demo_manager) (process_key 3 demo_manager pi) \<noteq> None"
    by (simp add: empty)
  from SaveProcessInfo_appends [OF demo_laws idle demo_info_parse this] obtain m' where m':
    "SaveProcessInfo demo_E 3
       (demo_packet (csTotalProcessInfoSend_serialize proto_wire demo_info_msg)) demo_manager =
     Some (True, m')"
    "\<And>k. list_at (keys_of demo_V m') k =
       Some (rev (concat (map (process_logs demo_E demo_manager)
           (filter (\<lambda>pi. process_key 3 demo_manager pi = k) (tpi_info demo_info_msg)))))"
    by (auto simp: empty)
  ultimately have "list_at (keys_of demo_V m') ''3:etc:p:7'' =
      Some (rev (concat (map (\<lambda>_. [''1 0'', ''2 0'']) (tpi_info demo_info_msg))))"
    by (simp only: m'(2))
  with m'(1) show ?thesis by (simp add: demo_info_msg_def)
qed

end
