(* ===== verification/WebProtocol.thy ===== *)
theory WebProtocol imports Wire begin

text \<open>
  The messages between server and web front end, \<open>src/lib/WebProtocol.pb.cc\<close>, in the form of
  \<open>AgentProtocol\<close>.
\<close>

subsection \<open>Enumerations\<close>

datatype psmType =
    ProcessCommandRequest
  | ProcessCommandResponse
  | CounterCommandRequest
  | CounterCommandResponse
  | HealthCheck
  | HealthAck

definition psmType_value :: "psmType \<Rightarrow> int16" where
  "psmType_value t =
     (case t of ProcessCommandRequest \<Rightarrow> 0
      | ProcessCommandResponse \<Rightarrow> 1
      | CounterCommandRequest \<Rightarrow> 2
      | CounterCommandResponse \<Rightarrow> 3
      | HealthCheck \<Rightarrow> 8
      | HealthAck \<Rightarrow> 9)"

text \<open>\<open>psmType_IsValid\<close>, with the enumerator a valid number stands for.\<close>

definition psmType_of :: "int16 \<Rightarrow> psmType option" where
  "psmType_of n =
     (if n = 0 then Some ProcessCommandRequest
      else if n = 1 then Some ProcessCommandResponse
      else if n = 2 then Some CounterCommandRequest
      else if n = 3 then Some CounterCommandResponse
      else if n = 8 then Some HealthCheck
      else if n = 9 then Some HealthAck
      else None)"

lemma Web_psmType_of_value [simp]: "psmType_of (psmType_value t) = Some t"
  by (cases t) (simp_all add: psmType_of_def psmType_value_def)

datatype ProcessCommandType =
    START
  | RESTART
  | STOP
  | ADDLIST
  | DELETELIST
  | ALLSTOP

definition ProcessCommandType_value :: "ProcessCommandType \<Rightarrow> int32" where
  "ProcessCommandType_value t =
     (case t of START \<Rightarrow> 0
      | RESTART \<Rightarrow> 1
      | STOP \<Rightarrow> 2
      | ADDLIST \<Rightarrow> 3
      | DELETELIST \<Rightarrow> 4
      | ALLSTOP \<Rightarrow> 5)"

text \<open>\<open>ProcessCommandType_IsValid\<close>, with the enumerator a valid number stands for.\<close>

definition ProcessCommandType_of :: "int32 \<Rightarrow> ProcessCommandType option" where
  "ProcessCommandType_of n =
     (if n = 0 then Some START
      else if n = 1 then Some RESTART
      else if n = 2 then Some STOP
      else if n = 3 then Some ADDLIST
      else if n = 4 then Some DELETELIST
      else if n = 5 then Some ALLSTOP
      else None)"

lemma Web_ProcessCommandType_of_value [simp]: "ProcessCommandType_of (ProcessCommandType_value t) = Some t"
  by (cases t) (simp_all add: ProcessCommandType_of_def ProcessCommandType_value_def)

definition put_ProcessCommandType :: "ProcessCommandType \<Rightarrow> wire_value" where
  "put_ProcessCommandType t = put_int32 (ProcessCommandType_value t)"

datatype Result =
    SUCCESS
  | FAILURE

definition Result_value :: "Result \<Rightarrow> int32" where
  "Result_value t =
     (case t of SUCCESS \<Rightarrow> 0
      | FAILURE \<Rightarrow> 1)"

text \<open>\<open>Result_IsValid\<close>, with the enumerator a valid number stands for.\<close>

definition Result_of :: "int32 \<Rightarrow> Result option" where
  "Result_of n =
     (if n = 0 then Some SUCCESS
      else if n = 1 then Some FAILURE
      else None)"

lemma Web_Result_of_value [simp]: "Result_of (Result_value t) = Some t"
  by (cases t) (simp_all add: Result_of_def Result_value_def)

definition put_Result :: "Result \<Rightarrow> wire_value" where
  "put_Result t = put_int32 (Result_value t)"

datatype CounterCommandType =
    CADDLIST
  | CDELETELIST

definition CounterCommandType_value :: "CounterCommandType \<Rightarrow> int32" where
  "CounterCommandType_value t =
     (case t of CADDLIST \<Rightarrow> 1
      | CDELETELIST \<Rightarrow> 2)"

text \<open>\<open>CounterCommandType_IsValid\<close>, with the enumerator a valid number stands for.\<close>

definition CounterCommandType_of :: "int32 \<Rightarrow> CounterCommandType option" where
  "CounterCommandType_of n =
     (if n = 1 then Some CADDLIST
      else if n = 2 then Some CDELETELIST
      else None)"

lemma Web_CounterCommandType_of_value [simp]: "CounterCommandType_of (CounterCommandType_value t) = Some t"
  by (cases t) (simp_all add: CounterCommandType_of_def CounterCommandType_value_def)

definition put_CounterCommandType :: "CounterCommandType \<Rightarrow> wire_value" where
  "put_CounterCommandType t = put_int32 (CounterCommandType_value t)"

lemmas Web_put_enum_defs = put_ProcessCommandType_def put_Result_def put_CounterCommandType_def

subsection \<open>\<open>wsProcessCommandRequest\<close>\<close>

record wsProcessCommandRequest =
  wpcmd_token :: "int32 option"
  wpcmd_type :: "ProcessCommandType option"
  wpcmd_processName :: "string option"

definition wsProcessCommandRequest_empty :: wsProcessCommandRequest where
  "wsProcessCommandRequest_empty = \<lparr>wpcmd_token = None, wpcmd_type = None, wpcmd_processName = None\<rparr>"

definition wsProcessCommandRequest_fields :: "wsProcessCommandRequest \<Rightarrow> field list" where
  "wsProcessCommandRequest_fields m =
     opt_field 1 put_int32 (wpcmd_token m) @
     opt_field 2 put_ProcessCommandType (wpcmd_type m) @
     opt_field 3 put_string (wpcmd_processName m)"

definition wsProcessCommandRequest_step :: "field \<Rightarrow> wsProcessCommandRequest \<Rightarrow> wsProcessCommandRequest option" where
  "wsProcessCommandRequest_step f m =
     (case snd f of
        Varint v \<Rightarrow>
          if fst f = 1 then Some (m\<lparr>wpcmd_token := Some (get_int32 v)\<rparr>)
          else if fst f = 2 then Some (case ProcessCommandType_of (get_int32 v) of None \<Rightarrow> m | Some t \<Rightarrow> m\<lparr>wpcmd_type := Some t\<rparr>)
          else Some m
      | Len bs \<Rightarrow>
          if fst f = 3 then Some (m\<lparr>wpcmd_processName := Some (get_string bs)\<rparr>)
          else Some m
      | _ \<Rightarrow> Some m)"

definition wsProcessCommandRequest_initialized :: "wsProcessCommandRequest \<Rightarrow> bool" where
  "wsProcessCommandRequest_initialized m \<longleftrightarrow> wpcmd_token m \<noteq> None \<and> wpcmd_type m \<noteq> None \<and> wpcmd_processName m \<noteq> None"

definition wsProcessCommandRequest_parse :: "wire_lib \<Rightarrow> byte list \<Rightarrow> wsProcessCommandRequest option" where
  "wsProcessCommandRequest_parse W = parse_from W wsProcessCommandRequest_step wsProcessCommandRequest_initialized wsProcessCommandRequest_empty"

definition wsProcessCommandRequest_serialize :: "wire_lib \<Rightarrow> wsProcessCommandRequest \<Rightarrow> byte list" where
  "wsProcessCommandRequest_serialize W m = wire_join W (wsProcessCommandRequest_fields m)"

lemma wsProcessCommandRequest_step_put:
  "wsProcessCommandRequest_step (1, put_int32 x1) m = Some (m\<lparr>wpcmd_token := Some x1\<rparr>)"
  "wsProcessCommandRequest_step (2, put_ProcessCommandType x2) m = Some (m\<lparr>wpcmd_type := Some x2\<rparr>)"
  "wsProcessCommandRequest_step (3, put_string x3) m = Some (m\<lparr>wpcmd_processName := Some x3\<rparr>)"
  by (simp_all add: wsProcessCommandRequest_step_def put_int32_def put_bool_def put_string_def Web_put_enum_defs)

lemma wsProcessCommandRequest_merge:
  "merge_fields wsProcessCommandRequest_step (wsProcessCommandRequest_fields m) wsProcessCommandRequest_empty = Some m"
  by (cases m) (simp add: wsProcessCommandRequest_fields_def wsProcessCommandRequest_empty_def wsProcessCommandRequest_step_put
      del: One_nat_def split: option.splits)

lemma wsProcessCommandRequest_plain [simp]: "list_all plain (wsProcessCommandRequest_fields m)"
  by (simp add: wsProcessCommandRequest_fields_def Web_put_enum_defs)

lemma wsProcessCommandRequest_roundtrip:
  "wire_ok W \<Longrightarrow> wsProcessCommandRequest_initialized m \<Longrightarrow>
   wsProcessCommandRequest_parse W (wsProcessCommandRequest_serialize W m) = Some m"
  unfolding wsProcessCommandRequest_parse_def wsProcessCommandRequest_serialize_def
  by (rule parse_from_join) (simp_all add: wsProcessCommandRequest_merge)

subsection \<open>\<open>swProcessCommandResponse\<close>\<close>

record swProcessCommandResponse =
  wprsp_token :: "int32 option"
  wprsp_type :: "ProcessCommandType option"
  wprsp_result :: "Result option"
  wprsp_failReason :: "string option"

definition swProcessCommandResponse_empty :: swProcessCommandResponse where
  "swProcessCommandResponse_empty = \<lparr>wprsp_token = None, wprsp_type = None, wprsp_result = None, wprsp_failReason = None\<rparr>"

definition swProcessCommandResponse_fields :: "swProcessCommandResponse \<Rightarrow> field list" where
  "swProcessCommandResponse_fields m =
     opt_field 1 put_int32 (wprsp_token m) @
     opt_field 2 put_ProcessCommandType (wprsp_type m) @
     opt_field 3 put_Result (wprsp_result m) @
     opt_field 4 put_string (wprsp_failReason m)"

definition swProcessCommandResponse_step :: "field \<Rightarrow> swProcessCommandResponse \<Rightarrow> swProcessCommandResponse option" where
  "swProcessCommandResponse_step f m =
     (case snd f of
        Varint v \<Rightarrow>
          if fst f = 1 then Some (m\<lparr>wprsp_token := Some (get_int32 v)\<rparr>)
          else if fst f = 2 then Some (case ProcessCommandType_of (get_int32 v) of None \<Rightarrow> m | Some t \<Rightarrow> m\<lparr>wprsp_type := Some t\<rparr>)
          else if fst f = 3 then Some (case Result_of (get_int32 v) of None \<Rightarrow> m | Some t \<Rightarrow> m\<lparr>wprsp_result := Some t\<rparr>)
          else Some m
      | Len bs \<Rightarrow>
          if fst f = 4 then Some (m\<lparr>wprsp_failReason := Some (get_string bs)\<rparr>)
          else Some m
      | _ \<Rightarrow> Some m)"

definition swProcessCommandResponse_initialized :: "swProcessCommandResponse \<Rightarrow> bool" where
  "swProcessCommandResponse_initialized m \<longleftrightarrow> wprsp_token m \<noteq> None \<and> wprsp_type m \<noteq> None \<and> wprsp_result m \<noteq> None"

definition swProcessCommandResponse_parse :: "wire_lib \<Rightarrow> byte list \<Rightarrow> swProcessCommandResponse option" where
  "swProcessCommandResponse_parse W = parse_from W swProcessCommandResponse_step swProcessCommandResponse_initialized swProcessCommandResponse_empty"

definition swProcessCommandResponse_serialize :: "wire_lib \<Rightarrow> swProcessCommandResponse \<Rightarrow> byte list" where
  "swProcessCommandResponse_serialize W m = wire_join W (swProcessCommandResponse_fields m)"

lemma swProcessCommandResponse_step_put:
  "swProcessCommandResponse_step (1, put_int32 x1) m = Some (m\<lparr>wprsp_token := Some x1\<rparr>)"
  "swProcessCommandResponse_step (2, put_ProcessCommandType x2) m = Some (m\<lparr>wprsp_type := Some x2\<rparr>)"
  "swProcessCommandResponse_step (3, put_Result x3) m = Some (m\<lparr>wprsp_result := Some x3\<rparr>)"
  "swProcessCommandResponse_step (4, put_string x4) m = Some (m\<lparr>wprsp_failReason := Some x4\<rparr>)"
  by (simp_all add: swProcessCommandResponse_step_def put_int32_def put_bool_def put_string_def Web_put_enum_defs)

lemma swProcessCommandResponse_merge:
  "merge_fields swProcessCommandResponse_step (swProcessCommandResponse_fields m) swProcessCommandResponse_empty = Some m"
  by (cases m) (simp add: swProcessCommandResponse_fields_def swProcessCommandResponse_empty_def swProcessCommandResponse_step_put
      del: One_nat_def split: option.splits)

lemma swProcessCommandResponse_plain [simp]: "list_all plain (swProcessCommandResponse_fields m)"
  by (simp add: swProcessCommandResponse_fields_def Web_put_enum_defs)

lemma swProcessCommandResponse_roundtrip:
  "wire_ok W \<Longrightarrow> swProcessCommandResponse_initialized m \<Longrightarrow>
   swProcessCommandResponse_parse W (swProcessCommandResponse_serialize W m) = Some m"
  unfolding swProcessCommandResponse_parse_def swProcessCommandResponse_serialize_def
  by (rule parse_from_join) (simp_all add: swProcessCommandResponse_merge)

subsection \<open>\<open>wsCounterCommandRequest\<close>\<close>

record wsCounterCommandRequest =
  wccmd_token :: "int32 option"
  wccmd_type :: "CounterCommandType option"
  wccmd_countername :: "string list"
  wccmd_ismachine :: "bool option"

definition wsCounterCommandRequest_empty :: wsCounterCommandRequest where
  "wsCounterCommandRequest_empty = \<lparr>wccmd_token = None, wccmd_type = None, wccmd_countername = [], wccmd_ismachine = None\<rparr>"

definition wsCounterCommandRequest_fields :: "wsCounterCommandRequest \<Rightarrow> field list" where
  "wsCounterCommandRequest_fields m =
     opt_field 1 put_CounterCommandType (wccmd_type m) @
     rep_field 2 put_string (wccmd_countername m) @
     opt_field 3 put_bool (wccmd_ismachine m) @
     opt_field 4 put_int32 (wccmd_token m)"

definition wsCounterCommandRequest_step :: "field \<Rightarrow> wsCounterCommandRequest \<Rightarrow> wsCounterCommandRequest option" where
  "wsCounterCommandRequest_step f m =
     (case snd f of
        Varint v \<Rightarrow>
          if fst f = 1 then Some (case CounterCommandType_of (get_int32 v) of None \<Rightarrow> m | Some t \<Rightarrow> m\<lparr>wccmd_type := Some t\<rparr>)
          else if fst f = 3 then Some (m\<lparr>wccmd_ismachine := Some (get_bool v)\<rparr>)
          else if fst f = 4 then Some (m\<lparr>wccmd_token := Some (get_int32 v)\<rparr>)
          else Some m
      | Len bs \<Rightarrow>
          if fst f = 2 then Some (m\<lparr>wccmd_countername := wccmd_countername m @ [(get_string bs)]\<rparr>)
          else Some m
      | _ \<Rightarrow> Some m)"

definition wsCounterCommandRequest_initialized :: "wsCounterCommandRequest \<Rightarrow> bool" where
  "wsCounterCommandRequest_initialized m \<longleftrightarrow> wccmd_token m \<noteq> None \<and> wccmd_type m \<noteq> None \<and> wccmd_ismachine m \<noteq> None"

definition wsCounterCommandRequest_parse :: "wire_lib \<Rightarrow> byte list \<Rightarrow> wsCounterCommandRequest option" where
  "wsCounterCommandRequest_parse W = parse_from W wsCounterCommandRequest_step wsCounterCommandRequest_initialized wsCounterCommandRequest_empty"

definition wsCounterCommandRequest_serialize :: "wire_lib \<Rightarrow> wsCounterCommandRequest \<Rightarrow> byte list" where
  "wsCounterCommandRequest_serialize W m = wire_join W (wsCounterCommandRequest_fields m)"

lemma wsCounterCommandRequest_step_put:
  "wsCounterCommandRequest_step (1, put_CounterCommandType x1) m = Some (m\<lparr>wccmd_type := Some x1\<rparr>)"
  "wsCounterCommandRequest_step (2, put_string x2) m = Some (m\<lparr>wccmd_countername := wccmd_countername m @ [x2]\<rparr>)"
  "wsCounterCommandRequest_step (3, put_bool x3) m = Some (m\<lparr>wccmd_ismachine := Some x3\<rparr>)"
  "wsCounterCommandRequest_step (4, put_int32 x4) m = Some (m\<lparr>wccmd_token := Some x4\<rparr>)"
  by (simp_all add: wsCounterCommandRequest_step_def put_int32_def put_bool_def put_string_def Web_put_enum_defs)

lemma wsCounterCommandRequest_merge:
  "merge_fields wsCounterCommandRequest_step (wsCounterCommandRequest_fields m) wsCounterCommandRequest_empty = Some m"
proof -
  have add: "fold (\<lambda>x m. m\<lparr>wccmd_countername := wccmd_countername m @ [x]\<rparr>) xs m = m\<lparr>wccmd_countername := wccmd_countername m @ xs\<rparr>" for xs m
    by (induction xs arbitrary: m) simp_all
  have rep: "merge_fields wsCounterCommandRequest_step (rep_field 2 put_string xs) m =
      Some (m\<lparr>wccmd_countername := wccmd_countername m @ xs\<rparr>)" for xs m
    by (subst merge_rep [where add = "\<lambda>x m. m\<lparr>wccmd_countername := wccmd_countername m @ [x]\<rparr>"])
       (simp_all add: add wsCounterCommandRequest_step_put del: One_nat_def)
  show ?thesis
    by (cases m) (simp add: wsCounterCommandRequest_fields_def wsCounterCommandRequest_empty_def rep wsCounterCommandRequest_step_put
        del: One_nat_def split: option.splits)
qed

lemma wsCounterCommandRequest_plain [simp]: "list_all plain (wsCounterCommandRequest_fields m)"
  by (simp add: wsCounterCommandRequest_fields_def Web_put_enum_defs)

lemma wsCounterCommandRequest_roundtrip:
  "wire_ok W \<Longrightarrow> wsCounterCommandRequest_initialized m \<Longrightarrow>
   wsCounterCommandRequest_parse W (wsCounterCommandRequest_serialize W m) = Some m"
  unfolding wsCounterCommandRequest_parse_def wsCounterCommandRequest_serialize_def
  by (rule parse_from_join) (simp_all add: wsCounterCommandRequest_merge)

subsection \<open>\<open>swCounterCommandResponse\<close>\<close>

record swCounterCommandResponse =
  wcrsp_token :: "int32 option"
  wcrsp_type :: "CounterCommandType option"
  wcrsp_result :: "Result option"
  wcrsp_failReason :: "string option"

definition swCounterCommandResponse_empty :: swCounterCommandResponse where
  "swCounterCommandResponse_empty = \<lparr>wcrsp_token = None, wcrsp_type = None, wcrsp_result = None, wcrsp_failReason = None\<rparr>"

definition swCounterCommandResponse_fields :: "swCounterCommandResponse \<Rightarrow> field list" where
  "swCounterCommandResponse_fields m =
     opt_field 1 put_int32 (wcrsp_token m) @
     opt_field 2 put_CounterCommandType (wcrsp_type m) @
     opt_field 3 put_Result (wcrsp_result m) @
     opt_field 4 put_string (wcrsp_failReason m)"

definition swCounterCommandResponse_step :: "field \<Rightarrow> swCounterCommandResponse \<Rightarrow> swCounterCommandResponse option" where
  "swCounterCommandResponse_step f m =
     (case snd f of
        Varint v \<Rightarrow>
          if fst f = 1 then Some (m\<lparr>wcrsp_token := Some (get_int32 v)\<rparr>)
          else if fst f = 2 then Some (case CounterCommandType_of (get_int32 v) of None \<Rightarrow> m | Some t \<Rightarrow> m\<lparr>wcrsp_type := Some t\<rparr>)
          else if fst f = 3 then Some (case Result_of (get_int32 v) of None \<Rightarrow> m | Some t \<Rightarrow> m\<lparr>wcrsp_result := Some t\<rparr>)
          else Some m
      | Len bs \<Rightarrow>
          if fst f = 4 then Some (m\<lparr>wcrsp_failReason := Some (get_string bs)\<rparr>)
          else Some m
      | _ \<Rightarrow> Some m)"

definition swCounterCommandResponse_initialized :: "swCounterCommandResponse \<Rightarrow> bool" where
  "swCounterCommandResponse_initialized m \<longleftrightarrow> wcrsp_token m \<noteq> None \<and> wcrsp_type m \<noteq> None \<and> wcrsp_result m \<noteq> None"

definition swCounterCommandResponse_parse :: "wire_lib \<Rightarrow> byte list \<Rightarrow> swCounterCommandResponse option" where
  "swCounterCommandResponse_parse W = parse_from W swCounterCommandResponse_step swCounterCommandResponse_initialized swCounterCommandResponse_empty"

definition swCounterCommandResponse_serialize :: "wire_lib \<Rightarrow> swCounterCommandResponse \<Rightarrow> byte list" where
  "swCounterCommandResponse_serialize W m = wire_join W (swCounterCommandResponse_fields m)"

lemma swCounterCommandResponse_step_put:
  "swCounterCommandResponse_step (1, put_int32 x1) m = Some (m\<lparr>wcrsp_token := Some x1\<rparr>)"
  "swCounterCommandResponse_step (2, put_CounterCommandType x2) m = Some (m\<lparr>wcrsp_type := Some x2\<rparr>)"
  "swCounterCommandResponse_step (3, put_Result x3) m = Some (m\<lparr>wcrsp_result := Some x3\<rparr>)"
  "swCounterCommandResponse_step (4, put_string x4) m = Some (m\<lparr>wcrsp_failReason := Some x4\<rparr>)"
  by (simp_all add: swCounterCommandResponse_step_def put_int32_def put_bool_def put_string_def Web_put_enum_defs)

lemma swCounterCommandResponse_merge:
  "merge_fields swCounterCommandResponse_step (swCounterCommandResponse_fields m) swCounterCommandResponse_empty = Some m"
  by (cases m) (simp add: swCounterCommandResponse_fields_def swCounterCommandResponse_empty_def swCounterCommandResponse_step_put
      del: One_nat_def split: option.splits)

lemma swCounterCommandResponse_plain [simp]: "list_all plain (swCounterCommandResponse_fields m)"
  by (simp add: swCounterCommandResponse_fields_def Web_put_enum_defs)

lemma swCounterCommandResponse_roundtrip:
  "wire_ok W \<Longrightarrow> swCounterCommandResponse_initialized m \<Longrightarrow>
   swCounterCommandResponse_parse W (swCounterCommandResponse_serialize W m) = Some m"
  unfolding swCounterCommandResponse_parse_def swCounterCommandResponse_serialize_def
  by (rule parse_from_join) (simp_all add: swCounterCommandResponse_merge)

subsection \<open>\<open>wsHealthCheck\<close>\<close>

datatype wsHealthCheck = wsHealthCheck

definition wsHealthCheck_fields :: "wsHealthCheck \<Rightarrow> field list" where
  "wsHealthCheck_fields m = []"

text \<open>Every field is unknown to it.\<close>

definition wsHealthCheck_step :: "field \<Rightarrow> wsHealthCheck \<Rightarrow> wsHealthCheck option" where
  "wsHealthCheck_step f m = Some m"

definition wsHealthCheck_initialized :: "wsHealthCheck \<Rightarrow> bool" where
  "wsHealthCheck_initialized m = True"

definition wsHealthCheck_parse :: "wire_lib \<Rightarrow> byte list \<Rightarrow> wsHealthCheck option" where
  "wsHealthCheck_parse W = parse_from W wsHealthCheck_step wsHealthCheck_initialized wsHealthCheck"

definition wsHealthCheck_serialize :: "wire_lib \<Rightarrow> wsHealthCheck \<Rightarrow> byte list" where
  "wsHealthCheck_serialize W m = wire_join W (wsHealthCheck_fields m)"

lemma wsHealthCheck_roundtrip:
  "wire_ok W \<Longrightarrow> wsHealthCheck_parse W (wsHealthCheck_serialize W m) = Some m"
  unfolding wsHealthCheck_parse_def wsHealthCheck_serialize_def
  by (rule parse_from_join; cases m) (simp_all add: wsHealthCheck_fields_def wsHealthCheck_initialized_def)

subsection \<open>\<open>swHealthAck\<close>\<close>

datatype swHealthAck = swHealthAck

definition swHealthAck_fields :: "swHealthAck \<Rightarrow> field list" where
  "swHealthAck_fields m = []"

text \<open>Every field is unknown to it.\<close>

definition swHealthAck_step :: "field \<Rightarrow> swHealthAck \<Rightarrow> swHealthAck option" where
  "swHealthAck_step f m = Some m"

definition swHealthAck_initialized :: "swHealthAck \<Rightarrow> bool" where
  "swHealthAck_initialized m = True"

definition swHealthAck_parse :: "wire_lib \<Rightarrow> byte list \<Rightarrow> swHealthAck option" where
  "swHealthAck_parse W = parse_from W swHealthAck_step swHealthAck_initialized swHealthAck"

definition swHealthAck_serialize :: "wire_lib \<Rightarrow> swHealthAck \<Rightarrow> byte list" where
  "swHealthAck_serialize W m = wire_join W (swHealthAck_fields m)"

lemma swHealthAck_roundtrip:
  "wire_ok W \<Longrightarrow> swHealthAck_parse W (swHealthAck_serialize W m) = Some m"
  unfolding swHealthAck_parse_def swHealthAck_serialize_def
  by (rule parse_from_join; cases m) (simp_all add: swHealthAck_fields_def swHealthAck_initialized_def)

end
