(* ===== verification/ProtocolProperties.thy ===== *)
theory ProtocolProperties imports AgentProtocol WebProtocol ProtoWire begin

text \<open>
  Round trips of the messages, and a pair of messages that the code mixes up.
\<close>

text \<open>
  C24. Every message that the agent sends to the server reads back there as what was written, provided
  that its required fields are set.
\<close>

theorem agent_messages_roundtrip:
  assumes "wire_ok W"
  shows "(\<forall>m. csAgentIDRequest_initialized m \<longrightarrow>
       csAgentIDRequest_parse W (csAgentIDRequest_serialize W m) = Some m) \<and>
    (\<forall>m. csCounterListRequest_initialized m \<longrightarrow>
       csCounterListRequest_parse W (csCounterListRequest_serialize W m) = Some m) \<and>
    (\<forall>m. csCurrentProcessListSend_initialized m \<longrightarrow>
       csCurrentProcessListSend_parse W (csCurrentProcessListSend_serialize W m) = Some m) \<and>
    (\<forall>m. csTotalProcessInfoSend_initialized m \<longrightarrow>
       csTotalProcessInfoSend_parse W (csTotalProcessInfoSend_serialize W m) = Some m) \<and>
    (\<forall>m. csTotalMachineInfoSend_initialized m \<longrightarrow>
       csTotalMachineInfoSend_parse W (csTotalMachineInfoSend_serialize W m) = Some m) \<and>
    (\<forall>m. csRecordResponse_initialized m \<longrightarrow>
       csRecordResponse_parse W (csRecordResponse_serialize W m) = Some m)"
  using assms
  by (simp add: csAgentIDRequest_roundtrip csCounterListRequest_roundtrip
      csCurrentProcessListSend_roundtrip csTotalProcessInfoSend_roundtrip
      csTotalMachineInfoSend_roundtrip csRecordResponse_roundtrip)

theorem agent_messages_roundtrip_witness:
  "csCounterListRequest_parse proto_wire
     (csCounterListRequest_serialize proto_wire \<lparr>clreq_isMachine = Some True\<rparr>) =
   Some \<lparr>clreq_isMachine = Some True\<rparr>"
proof -
  have "csCounterListRequest_initialized \<lparr>clreq_isMachine = Some True\<rparr>"
    by (simp add: csCounterListRequest_initialized_def)
  then show ?thesis using agent_messages_roundtrip [OF proto_wire_ok] by blast
qed

text \<open>
  C25. Every message that the server sends to the agents, and every one between server and web front
  end, reads back as what was written, provided that its required fields are set.
\<close>

theorem server_messages_roundtrip:
  assumes "wire_ok W"
  shows "(\<forall>m. scAgentIDResponse_initialized m \<longrightarrow>
       scAgentIDResponse_parse W (scAgentIDResponse_serialize W m) = Some m) \<and>
    (\<forall>m. scProcessListResponse_parse W (scProcessListResponse_serialize W m) = Some m) \<and>
    (\<forall>m. scCounterListResponse_initialized m \<longrightarrow>
       scCounterListResponse_parse W (scCounterListResponse_serialize W m) = Some m) \<and>
    (\<forall>m. scStartRecord_initialized m \<longrightarrow>
       scStartRecord_parse W (scStartRecord_serialize W m) = Some m) \<and>
    (\<forall>m. scProcessCommandRequest_initialized m \<longrightarrow>
       scProcessCommandRequest_parse W (scProcessCommandRequest_serialize W m) = Some m) \<and>
    (\<forall>m. scCounterCommandRequest_initialized m \<longrightarrow>
       scCounterCommandRequest_parse W (scCounterCommandRequest_serialize W m) = Some m) \<and>
    (\<forall>m. wsProcessCommandRequest_initialized m \<longrightarrow>
       wsProcessCommandRequest_parse W (wsProcessCommandRequest_serialize W m) = Some m) \<and>
    (\<forall>m. wsCounterCommandRequest_initialized m \<longrightarrow>
       wsCounterCommandRequest_parse W (wsCounterCommandRequest_serialize W m) = Some m) \<and>
    (\<forall>m. swProcessCommandResponse_initialized m \<longrightarrow>
       swProcessCommandResponse_parse W (swProcessCommandResponse_serialize W m) = Some m) \<and>
    (\<forall>m. swCounterCommandResponse_initialized m \<longrightarrow>
       swCounterCommandResponse_parse W (swCounterCommandResponse_serialize W m) = Some m)"
  using assms
  by (simp add: scAgentIDResponse_roundtrip scProcessListResponse_roundtrip
      scProcessListResponse_initialized_def
      scCounterListResponse_roundtrip scStartRecord_roundtrip scProcessCommandRequest_roundtrip
      scCounterCommandRequest_roundtrip wsProcessCommandRequest_roundtrip
      wsCounterCommandRequest_roundtrip swProcessCommandResponse_roundtrip
      swCounterCommandResponse_roundtrip)

theorem server_messages_roundtrip_witness:
  "scProcessListResponse_parse proto_wire
     (scProcessListResponse_serialize proto_wire \<lparr>plrsp_processName = [''calc'', ''Melon'']\<rparr>) =
   Some \<lparr>plrsp_processName = [''calc'', ''Melon'']\<rparr>"
  using server_messages_roundtrip [OF proto_wire_ok] by simp

text \<open>
  C23. The agent reads a \<open>StopRecord\<close> packet as a message \<open>scStartRecord\<close>. The two have the same name
  for their flag, but not the same number, so what the server writes never parses there: a request
  to stop recording has no effect on the agent.
\<close>

theorem stop_record_unreadable:
  assumes "wire_ok W"
  shows "scStartRecord_parse W (scStopRecord_serialize W m) = None"
  using assms
  by (auto simp: scStartRecord_parse_def scStopRecord_serialize_def parse_from_def merge_from_join
      scStopRecord_fields_def scStartRecord_step_def scStartRecord_empty_def
      scStartRecord_initialized_def put_bool_def split: option.splits)

theorem stop_record_unreadable_witness:
  "scStartRecord_parse proto_wire (scStopRecord_serialize proto_wire \<lparr>stop_isMachine = Some True\<rparr>) = None"
  by (rule stop_record_unreadable [OF proto_wire_ok])

end
