(* ===== verification/ServerState.thy ===== *)
theory ServerState imports RedisManager RecvFraming begin

text \<open>
  The state of the server process: the socket objects of the agents and of the web front end, the two
  lists of connected sockets (\<open>TcpAgentServer.cpp\<close>, \<open>TcpWebCommandServer.cpp\<close>), and the two
  \<open>RedisManager\<close>s, one per server, on the one Redis server. \<open>calls\<close> is the history of the calls made
  to the system. An operation returns \<open>None\<close> where the process dies or its behaviour is undefined: an
  exception escapes from the store, a message does not fit into a packet, an assertion fails.
\<close>

subsection \<open>Sockets and servers\<close>

record agent_socket = packet_socket +
  agentID :: int32
  hostIP :: int32
  token :: int32
  healthCheck :: bool
  isReady :: bool

record web_socket = packet_socket +
  webHealthCheck :: bool

datatype server_call = ToAgent sid os_call | ToWeb sid os_call | CloseListenSocket

text \<open>A heartbeat thread is about to ask its sockets, or asleep before it looks for answers.\<close>

datatype heartbeat = Asking | Sleeping | Ended

record 's server =
  agents :: "sid \<Rightarrow> agent_socket"
  webs :: "sid \<Rightarrow> web_socket"
  agentList :: "sid list"
  webCommandList :: "sid list"
  agentRedis :: "'s manager"
  webRedis :: "'s manager"
  db :: 's
  agentHeartbeat :: heartbeat
  webHeartbeat :: heartbeat
  appIsEnd :: bool
  calls :: "server_call list"

text \<open>
  A manager sees the database of the moment. \<open>on_store\<close> runs a method of it and hands back its result,
  the manager and the database.
\<close>

definition on_store ::
  "('s manager \<Rightarrow> ('a \<times> 's manager) option) \<Rightarrow> 's manager \<Rightarrow> 's \<Rightarrow> ('a \<times> 's manager \<times> 's) option" where
  "on_store f m s = map_option (\<lambda>(x, m). (x, m, store m)) (f (m\<lparr>store := s\<rparr>))"

definition on_agentRedis ::
  "('s manager \<Rightarrow> ('a \<times> 's manager) option) \<Rightarrow> 's server \<Rightarrow> ('a \<times> 's server) option" where
  "on_agentRedis f srv =
     map_option (\<lambda>(x, m, s). (x, srv\<lparr>agentRedis := m, db := s\<rparr>)) (on_store f (agentRedis srv) (db srv))"

definition on_webRedis ::
  "('s manager \<Rightarrow> ('a \<times> 's manager) option) \<Rightarrow> 's server \<Rightarrow> ('a \<times> 's server) option" where
  "on_webRedis f srv =
     map_option (\<lambda>(x, m, s). (x, srv\<lparr>webRedis := m, db := s\<rparr>)) (on_store f (webRedis srv) (db srv))"

text \<open>A method with an output parameter returns it beside its result.\<close>

definition with_output ::
  "('m \<Rightarrow> (bool \<times> 'a \<times> 'm) option) \<Rightarrow> 'm \<Rightarrow> ((bool \<times> 'a) \<times> 'm) option" where
  "with_output f m = map_option (\<lambda>(ok, x, m). ((ok, x), m)) (f m)"

subsection \<open>Sending\<close>

definition agent_send :: "sid \<Rightarrow> int16 \<Rightarrow> byte list \<Rightarrow> 's server \<Rightarrow> 's server option" where
  "agent_send i t ser srv =
     (case SendPacket t ser of
        BufferOverrun \<Rightarrow> None
      | Sent bs \<Rightarrow>
          (let (s, cs, _) = Send bs (agents srv i)
           in Some (srv\<lparr>agents := (agents srv)(i := s), calls := calls srv @ map (ToAgent i) cs\<rparr>)))"

definition web_send :: "sid \<Rightarrow> int16 \<Rightarrow> byte list \<Rightarrow> 's server \<Rightarrow> 's server option" where
  "web_send i t ser srv =
     (case SendPacket t ser of
        BufferOverrun \<Rightarrow> None
      | Sent bs \<Rightarrow>
          (let (s, cs, _) = Send bs (webs srv i)
           in Some (srv\<lparr>webs := (webs srv)(i := s), calls := calls srv @ map (ToWeb i) cs\<rparr>)))"

definition disconnect_agent :: "sid \<Rightarrow> 's server \<Rightarrow> 's server" where
  "disconnect_agent i srv =
     (let (s, cs) = Disconnect (agents srv i)
      in srv\<lparr>agents := (agents srv)(i := s), calls := calls srv @ map (ToAgent i) cs\<rparr>)"

definition disconnect_web :: "sid \<Rightarrow> 's server \<Rightarrow> 's server" where
  "disconnect_web i srv =
     (let (s, cs) = Disconnect (webs srv i)
      in srv\<lparr>webs := (webs srv)(i := s), calls := calls srv @ map (ToWeb i) cs\<rparr>)"

subsection \<open>The lists of connected sockets\<close>

text \<open>Each of these runs under the lock of its list. \<open>list::remove\<close> takes out all copies.\<close>

definition AddAgent :: "sid \<Rightarrow> 's server \<Rightarrow> 's server" where
  "AddAgent agent srv = srv\<lparr>agentList := agentList srv @ [agent]\<rparr>"

definition DeleteAgent :: "sid \<Rightarrow> 's server \<Rightarrow> 's server" where
  "DeleteAgent agent srv = srv\<lparr>agentList := removeAll agent (agentList srv)\<rparr>"

definition GetAgentSocketByAgentID :: "int32 \<Rightarrow> 's server \<Rightarrow> sid option" where
  "GetAgentSocketByAgentID n srv = find (\<lambda>ag. agentID (agents srv ag) = n) (agentList srv)"

definition GetAgentSocketByToken :: "int32 \<Rightarrow> 's server \<Rightarrow> sid option" where
  "GetAgentSocketByToken t srv = find (\<lambda>ag. token (agents srv ag) = t) (agentList srv)"

definition AddSocket :: "sid \<Rightarrow> 's server \<Rightarrow> 's server" where
  "AddSocket i srv = srv\<lparr>webCommandList := webCommandList srv @ [i]\<rparr>"

definition DeleteSocket :: "sid \<Rightarrow> 's server \<Rightarrow> 's server" where
  "DeleteSocket i srv = srv\<lparr>webCommandList := removeAll i (webCommandList srv)\<rparr>"

subsection \<open>Facts\<close>

lemma by_token_Some:
  "GetAgentSocketByToken t srv = Some i \<Longrightarrow> i \<in> set (agentList srv) \<and> token (agents srv i) = t"
  by (auto simp: GetAgentSocketByToken_def find_Some_iff)

lemma by_token_None:
  "GetAgentSocketByToken t srv = None \<longleftrightarrow> (\<forall>i \<in> set (agentList srv). token (agents srv i) \<noteq> t)"
  by (auto simp: GetAgentSocketByToken_def find_None_iff)

end
