(* ===== verification/AgentSocket.thy ===== *)
theory AgentSocket imports ServerState begin

text \<open>
  The server's side of an agent, \<open>AgentServer/AgentSocket.cpp\<close>: accepting and losing a connection, the
  handling of each packet of an agent, and the packets sent to it. \<open>this\<close> is the socket object.
  \<open>SendProcess\<close> and \<open>ConnProcess\<close> only print errors and are left out.
\<close>

subsection \<open>Construction\<close>

text \<open>
  \<open>new AgentSocket\<close> with the pool of ten packets, then \<open>Init\<close> and \<open>InitAct\<close>, as \<open>Start\<close> of the
  server calls them; \<open>raw\<close> is the memory of the fields that no constructor writes.
\<close>

definition AgentSocket :: "sid \<Rightarrow> TcpSocket \<Rightarrow> agent_socket option" where
  "AgentSocket this raw =
     map_option (\<lambda>pool.
       \<lparr>socket = INVALID_SOCKET, disconnectCall = disconnectCall raw, acceptBuf = acceptBuf raw,
        recvBuf = recvBuf raw, sendBuf = sendBuf raw, wsaRecvBuf = wsaRecvBuf raw,
        wsaSendBuf = wsaSendBuf raw, act = act raw,
        position = 0, remainBytes = int HEADER_SIZE, packetPoolManager = pool,
        agentID = -1, hostIP = -1, token = -1, healthCheck = True, isReady = False\<rparr>)
       (MemPooler (Pair this) 10)"

definition agent_update :: "sid \<Rightarrow> (agent_socket \<Rightarrow> agent_socket) \<Rightarrow> 's server \<Rightarrow> 's server" where
  "agent_update this f srv = srv\<lparr>agents := (agents srv)(this := f (agents srv this))\<rparr>"

subsection \<open>Packets to an agent\<close>

definition SendHealthCheck ::
  "('s, 'j) platform \<Rightarrow> sid \<Rightarrow> 's server \<Rightarrow> 's server option" where
  "SendHealthCheck E this =
     agent_send this (agentType_value HealthCheck) (scHealthCheck_serialize (wire E) scHealthCheck)"

definition SendAgentIDResponse ::
  "('s, 'j) platform \<Rightarrow> sid \<Rightarrow> int32 \<Rightarrow> bool \<Rightarrow> 's server \<Rightarrow> 's server option" where
  "SendAgentIDResponse E this n alreadyRunning =
     agent_send this (agentType_value AgentIDResponse)
       (scAgentIDResponse_serialize (wire E)
          (scAgentIDResponse_empty\<lparr>idrsp_agentID := Some n,
             idrsp_alreadyRunning := Some alreadyRunning\<rparr>))"

definition SendProcessListResponse ::
  "('s, 'j) platform \<Rightarrow> sid \<Rightarrow> 's server \<Rightarrow> 's server option" where
  "SendProcessListResponse E this srv =
     do {
       ((ok, processList), srv) \<leftarrow>
         on_agentRedis (with_output (GetProcessList E (agentID (agents srv this)))) srv;
       if ok
       then agent_send this (agentType_value ProcessListResponse)
              (scProcessListResponse_serialize (wire E)
                 (scProcessListResponse_empty\<lparr>plrsp_processName := processList\<rparr>)) srv
       else Some srv
     }"

definition SendCounterListResponse ::
  "('s, 'j) platform \<Rightarrow> sid \<Rightarrow> bool \<Rightarrow> 's server \<Rightarrow> 's server option" where
  "SendCounterListResponse E this isMachine srv =
     do {
       ((ok, counterList), srv) \<leftarrow>
         on_agentRedis (with_output (GetCounterList E (agentID (agents srv this)) isMachine)) srv;
       if ok
       then agent_send this (agentType_value CounterListResponse)
              (scCounterListResponse_serialize (wire E)
                 (scCounterListResponse_empty\<lparr>clrsp_isMachine := Some isMachine,
                    clrsp_counterName := counterList\<rparr>)) srv
       else Some srv
     }"

definition SendStartRecord ::
  "('s, 'j) platform \<Rightarrow> sid \<Rightarrow> bool \<Rightarrow> int32 \<Rightarrow> int32 \<Rightarrow> int32 \<Rightarrow> int64 \<Rightarrow> 's server \<Rightarrow> 's server option" where
  "SendStartRecord E this isMachine totalRecordTime responseTime interval delay =
     agent_send this (agentType_value StartRecord)
       (scStartRecord_serialize (wire E)
          (scStartRecord_empty\<lparr>start_isMachine := Some isMachine,
             start_totalRecordTime := Some totalRecordTime, start_interval := Some interval,
             start_responseTime := Some responseTime, start_delay := Some delay\<rparr>))"

definition SendStopRecord :: "('s, 'j) platform \<Rightarrow> sid \<Rightarrow> bool \<Rightarrow> 's server \<Rightarrow> 's server option" where
  "SendStopRecord E this isMachine =
     agent_send this (agentType_value StopRecord)
       (scStopRecord_serialize (wire E) (scStopRecord_empty\<lparr>stop_isMachine := Some isMachine\<rparr>))"

definition SendProcessCommand ::
  "('s, 'j) platform \<Rightarrow> sid \<Rightarrow> ProcessCommandType \<Rightarrow> string \<Rightarrow> 's server \<Rightarrow> 's server option" where
  "SendProcessCommand E this type processName =
     agent_send this (agentType_value ProcessCommandRequest)
       (scProcessCommandRequest_serialize (wire E)
          (scProcessCommandRequest_empty\<lparr>pcmd_type := Some type, pcmd_processName := Some processName\<rparr>))"

definition SendCounterCommand ::
  "('s, 'j) platform \<Rightarrow> sid \<Rightarrow> CounterCommandType \<Rightarrow> string \<Rightarrow> bool \<Rightarrow> 's server \<Rightarrow> 's server option" where
  "SendCounterCommand E this type counterName isMachine =
     agent_send this (agentType_value CounterCommandRequest)
       (scCounterCommandRequest_serialize (wire E)
          (scCounterCommandRequest_empty\<lparr>ccmd_isMachine := Some isMachine, ccmd_type := Some type,
             ccmd_counterName := Some counterName\<rparr>))"

definition AddProcessName :: "('s, 'j) platform \<Rightarrow> sid \<Rightarrow> string \<Rightarrow> 's server \<Rightarrow> 's server option" where
  "AddProcessName E this = SendProcessCommand E this ADDLIST"

definition DeleteProcessName :: "('s, 'j) platform \<Rightarrow> sid \<Rightarrow> string \<Rightarrow> 's server \<Rightarrow> 's server option" where
  "DeleteProcessName E this = SendProcessCommand E this DELETELIST"

definition AddCounterName :: "('s, 'j) platform \<Rightarrow> sid \<Rightarrow> string \<Rightarrow> bool \<Rightarrow> 's server \<Rightarrow> 's server option" where
  "AddCounterName E this = SendCounterCommand E this CADDLIST"

definition DeleteCounterName :: "('s, 'j) platform \<Rightarrow> sid \<Rightarrow> string \<Rightarrow> bool \<Rightarrow> 's server \<Rightarrow> 's server option" where
  "DeleteCounterName E this = SendCounterCommand E this CDELETELIST"

subsection \<open>Connections\<close>

definition AcceptProcess :: "bool \<Rightarrow> sid \<Rightarrow> 's server \<Rightarrow> 's server" where
  "AcceptProcess isErr this srv =
     (if isErr then srv
      else
        let srv = AddAgent this srv;
            srv = agent_update this (\<lambda>s. s\<lparr>healthCheck := True, position := 0,
                    remainBytes := int HEADER_SIZE, isReady := False,
                    agentID := -1, hostIP := -1, token := -1\<rparr>) srv;
            (s, cs, _) = Recv 0 (int HEADER_SIZE) (agents srv this)
        in srv\<lparr>agents := (agents srv)(this := s), calls := calls srv @ map (ToAgent this) cs\<rparr>)"

definition DisconnProcess ::
  "('s, 'j) platform \<Rightarrow> bool \<Rightarrow> sid \<Rightarrow> 's server \<Rightarrow> 's server option" where
  "DisconnProcess E isErr this srv =
     (if isErr then Some srv
      else do {
        let t = token (agents srv this);
        (_, srv) \<leftarrow> on_agentRedis (ChangeAgentState_isOn E t False) srv;
        (_, srv) \<leftarrow> on_agentRedis (ChangeAgentState_stopRecording E t) srv;
        Some (DeleteAgent this srv)
      })"

subsection \<open>Packets from an agent\<close>

definition ValidPacket :: "CPacket \<Rightarrow> bool" where "ValidPacket packet = True"

definition FindAgentID ::
  "('s, 'j) platform \<Rightarrow> int32 \<Rightarrow> 's server \<Rightarrow> (int32 \<times> 's server) option" where
  "FindAgentID E t = on_agentRedis (GetAgentID E t)"

text \<open>A token that a connected agent uses already is refused; the result of \<open>InitAgent\<close> is not looked at.\<close>

definition handle_AgentIDRequest ::
  "('s, 'j) platform \<Rightarrow> sid \<Rightarrow> CPacket \<Rightarrow> 's server \<Rightarrow> 's server option" where
  "handle_AgentIDRequest E this packet srv =
     (case csAgentIDRequest_parse (wire E) (payload packet) of
        None \<Rightarrow> Some srv
      | Some msg \<Rightarrow>
         let t = get_or 0 (idreq_token msg); ip = get_or 0 (idreq_hostIP msg) in
         if GetAgentSocketByToken t srv \<noteq> None then SendAgentIDResponse E this (-1) True srv
         else do {
           let srv = agent_update this (\<lambda>s. s\<lparr>token := t, hostIP := ip\<rparr>) srv;
           (_, srv) \<leftarrow> on_agentRedis (InitAgent E t ip (get_or 0 (idreq_ramSize msg))) srv;
           (n, srv) \<leftarrow> FindAgentID E t srv;
           let srv = agent_update this (\<lambda>s. s\<lparr>agentID := n\<rparr>) srv;
           SendAgentIDResponse E this n False srv
         })"

definition handle_CounterListRequest ::
  "('s, 'j) platform \<Rightarrow> sid \<Rightarrow> CPacket \<Rightarrow> 's server \<Rightarrow> 's server option" where
  "handle_CounterListRequest E this packet srv =
     (case csCounterListRequest_parse (wire E) (payload packet) of
        None \<Rightarrow> Some srv
      | Some msg \<Rightarrow> SendCounterListResponse E this (get_or False (clreq_isMachine msg)) srv)"

text \<open>
  A ready agent is told to record processes and machine for an unlimited time, with a sample every
  second and a report every ten.
\<close>

definition handle_AgentReady ::
  "('s, 'j) platform \<Rightarrow> int64 \<Rightarrow> sid \<Rightarrow> 's server \<Rightarrow> 's server option" where
  "handle_AgentReady E now this srv =
     do {
       (_, srv) \<leftarrow> on_agentRedis
          (ChangeAgentState_startRecording E now (token (agents srv this)) (-1) 10 1 0) srv;
       srv \<leftarrow> SendStartRecord E this True (-1) 10 1 0 srv;
       SendStartRecord E this False (-1) 10 1 0 srv
     }"

definition handle_report ::
  "(int32 \<Rightarrow> CPacket \<Rightarrow> 's manager \<Rightarrow> (bool \<times> 's manager) option) \<Rightarrow> sid \<Rightarrow> CPacket \<Rightarrow>
   's server \<Rightarrow> 's server option" where
  "handle_report save this packet srv =
     map_option snd (on_agentRedis (save (agentID (agents srv this)) packet) srv)"

text \<open>The switch on the packet type; every other type is only reported.\<close>

definition handle_packet ::
  "('s, 'j) platform \<Rightarrow> int64 \<Rightarrow> sid \<Rightarrow> CPacket \<Rightarrow> 's server \<Rightarrow> 's server option" where
  "handle_packet E now this packet srv =
     (case agentType_of (ptype packet) of
        Some AgentIDRequest \<Rightarrow> handle_AgentIDRequest E this packet srv
      | Some ProcessListRequest \<Rightarrow> SendProcessListResponse E this srv
      | Some CounterListRequest \<Rightarrow> handle_CounterListRequest E this packet srv
      | Some CurrentProcessListSend \<Rightarrow> handle_report (SaveCurrentProcessList E) this packet srv
      | Some RecordResponse \<Rightarrow> Some srv
      | Some AgentReady \<Rightarrow> handle_AgentReady E now this srv
      | Some ProcessInfoSend \<Rightarrow> handle_report (SaveProcessInfo E) this packet srv
      | Some MachineInfoSend \<Rightarrow> handle_report (SaveMachineInfo E) this packet srv
      | Some HealthAck \<Rightarrow> Some (agent_update this (\<lambda>s. s\<lparr>healthCheck := True\<rparr>) srv)
      | _ \<Rightarrow> Some srv)"

text \<open>\<open>block\<close> is the block the packet lies in; it goes back to the pool on every path.\<close>

definition free_packet :: "sid \<Rightarrow> addr \<Rightarrow> 's server \<Rightarrow> 's server" where
  "free_packet this block =
     agent_update this (\<lambda>s. s\<lparr>packetPoolManager := snd (Free block (packetPoolManager s))\<rparr>)"

definition PacketHandling ::
  "('s, 'j) platform \<Rightarrow> int64 \<Rightarrow> sid \<Rightarrow> addr \<Rightarrow> CPacket \<Rightarrow> 's server \<Rightarrow> 's server option" where
  "PacketHandling E now this block packet srv =
     (if socket (agents srv this) = 0 then None
      else map_option (free_packet this block) (handle_packet E now this packet srv))"

end
