(* ===== verification/WebCommandSocket.thy ===== *)
theory WebCommandSocket imports AgentSocket WebProtocol begin

text \<open>
  The server's side of the web front end, \<open>AgentServer/WebCommandSocket.cpp\<close>: the commands that change
  the lists of watched processes and counters of an agent. The number of the agent is looked up with
  the agent server's manager, the lists are changed with the web server's.
\<close>

subsection \<open>Construction\<close>

definition WebCommandSocket :: "sid \<Rightarrow> TcpSocket \<Rightarrow> web_socket option" where
  "WebCommandSocket this raw =
     map_option (\<lambda>pool.
       \<lparr>socket = INVALID_SOCKET, disconnectCall = disconnectCall raw, acceptBuf = acceptBuf raw,
        recvBuf = recvBuf raw, sendBuf = sendBuf raw, wsaRecvBuf = wsaRecvBuf raw,
        wsaSendBuf = wsaSendBuf raw, act = act raw,
        position = 0, remainBytes = int HEADER_SIZE, packetPoolManager = pool,
        webHealthCheck = True\<rparr>)
       (MemPooler (Pair this) 10)"

definition web_update :: "sid \<Rightarrow> (web_socket \<Rightarrow> web_socket) \<Rightarrow> 's server \<Rightarrow> 's server" where
  "web_update this f srv = srv\<lparr>webs := (webs srv)(this := f (webs srv this))\<rparr>"

subsection \<open>Packets to the web front end\<close>

text \<open>\<open>wsHealthCheck\<close> has no fields.\<close>

definition SendHealthCheck ::
  "('s, 'j) platform \<Rightarrow> sid \<Rightarrow> 's server \<Rightarrow> 's server option" where
  "SendHealthCheck E this =
     web_send this (psmType_value HealthCheck) (wsHealthCheck_serialize (wire E) wsHealthCheck)"

definition success_result :: "bool \<Rightarrow> Result" where
  "success_result success = (if success then SUCCESS else FAILURE)"

definition SendProcessCommandResponse ::
  "('s, 'j) platform \<Rightarrow> sid \<Rightarrow> int32 \<Rightarrow> ProcessCommandType \<Rightarrow> bool \<Rightarrow> string \<Rightarrow> 's server \<Rightarrow> 's server option" where
  "SendProcessCommandResponse E this t type success reason =
     web_send this (psmType_value ProcessCommandResponse)
       (swProcessCommandResponse_serialize (wire E)
          (swProcessCommandResponse_empty\<lparr>wprsp_token := Some t, wprsp_type := Some type,
             wprsp_failReason := (if reason \<noteq> [] then Some reason else None),
             wprsp_result := Some (success_result success)\<rparr>))"

definition SendCounterCommandResponse ::
  "('s, 'j) platform \<Rightarrow> sid \<Rightarrow> int32 \<Rightarrow> CounterCommandType \<Rightarrow> bool \<Rightarrow> string \<Rightarrow> 's server \<Rightarrow> 's server option" where
  "SendCounterCommandResponse E this t type success reason =
     web_send this (psmType_value CounterCommandResponse)
       (swCounterCommandResponse_serialize (wire E)
          (swCounterCommandResponse_empty\<lparr>wcrsp_token := Some t, wcrsp_type := Some type,
             wcrsp_failReason := (if reason \<noteq> [] then Some reason else None),
             wcrsp_result := Some (success_result success)\<rparr>))"

subsection \<open>Connections\<close>

definition AcceptProcess :: "bool \<Rightarrow> sid \<Rightarrow> 's server \<Rightarrow> 's server" where
  "AcceptProcess isErr this srv =
     (if isErr then srv
      else
        let srv = AddSocket this srv;
            srv = web_update this (\<lambda>s. s\<lparr>webHealthCheck := True, position := 0,
                    remainBytes := int HEADER_SIZE\<rparr>) srv;
            (s, cs, _) = Recv 0 (int HEADER_SIZE) (webs srv this)
        in srv\<lparr>webs := (webs srv)(this := s), calls := calls srv @ map (ToWeb this) cs\<rparr>)"

definition DisconnProcess :: "bool \<Rightarrow> sid \<Rightarrow> 's server \<Rightarrow> 's server" where
  "DisconnProcess isErr this srv = (if isErr then srv else DeleteSocket this srv)"

subsection \<open>Commands\<close>

definition ValidPacket :: "CPacket \<Rightarrow> bool" where "ValidPacket packet = True"

text \<open>
  A change of the stored list is passed on to the agent of that token, if one is connected; the
  answer tells whether the list changed.
\<close>

definition tell_agent ::
  "(sid \<Rightarrow> 's server \<Rightarrow> 's server option) \<Rightarrow> sid option \<Rightarrow> 's server \<Rightarrow> 's server option" where
  "tell_agent f agent srv = (case agent of None \<Rightarrow> Some srv | Some ag \<Rightarrow> f ag srv)"

definition process_command ::
  "('s, 'j) platform \<Rightarrow> int32 \<Rightarrow> int32 \<Rightarrow> ProcessCommandType \<Rightarrow> string \<Rightarrow> 's server \<Rightarrow> (bool \<times> 's server) option" where
  "process_command E n t type name srv =
     (if type = ADDLIST
      then do {
        (ok, srv) \<leftarrow> on_webRedis (SetProcessName E n name) srv;
        srv \<leftarrow> (if ok then tell_agent (\<lambda>ag. AddProcessName E ag name) (GetAgentSocketByToken t srv) srv
                else Some srv);
        Some (ok, srv)
      }
      else if type = DELETELIST
      then do {
        (ok, srv) \<leftarrow> on_webRedis (RemProcessName E n name) srv;
        srv \<leftarrow> (if ok then tell_agent (\<lambda>ag. DeleteProcessName E ag name) (GetAgentSocketByToken t srv) srv
                else Some srv);
        Some (ok, srv)
      }
      else Some (False, srv))"

definition handle_ProcessCommandRequest ::
  "('s, 'j) platform \<Rightarrow> sid \<Rightarrow> CPacket \<Rightarrow> 's server \<Rightarrow> 's server option" where
  "handle_ProcessCommandRequest E this packet srv =
     (case wsProcessCommandRequest_parse (wire E) (payload packet) of
        None \<Rightarrow> Some srv
      | Some msg \<Rightarrow>
         let t = get_or 0 (wpcmd_token msg); type = get_or START (wpcmd_type msg) in
         do {
           (n, srv) \<leftarrow> on_agentRedis (GetAgentID E t) srv;
           (result, srv) \<leftarrow> process_command E n t type (get_or [] (wpcmd_processName msg)) srv;
           SendProcessCommandResponse E this t type result [] srv
         })"

text \<open>The loop over the counters of a request; the answer tells whether one of them changed the list.\<close>

definition counter_command ::
  "('s, 'j) platform \<Rightarrow> int32 \<Rightarrow> CounterCommandType \<Rightarrow> bool \<Rightarrow> sid option \<Rightarrow> string \<Rightarrow>
   's server \<Rightarrow> (bool \<times> 's server) option" where
  "counter_command E n type isMachine agent name srv =
     (if type = CADDLIST
      then do {
        (result, srv) \<leftarrow> on_webRedis (SetCounterName E n name isMachine) srv;
        case result of
          None \<Rightarrow> Some (False, srv)
        | Some counter \<Rightarrow>
            map_option (Pair True) (tell_agent (\<lambda>ag. AddCounterName E ag counter isMachine) agent srv)
      }
      else if type = CDELETELIST
      then do {
        (result, srv) \<leftarrow> on_webRedis (RemCounterName E n name isMachine) srv;
        case result of
          None \<Rightarrow> Some (False, srv)
        | Some counter \<Rightarrow>
            map_option (Pair True) (tell_agent (\<lambda>ag. DeleteCounterName E ag counter isMachine) agent srv)
      }
      else Some (False, srv))"

fun counter_commands ::
  "('s, 'j) platform \<Rightarrow> int32 \<Rightarrow> CounterCommandType \<Rightarrow> bool \<Rightarrow> sid option \<Rightarrow> string list \<Rightarrow> bool \<Rightarrow>
   's server \<Rightarrow> (bool \<times> 's server) option" where
  "counter_commands E n type isMachine agent [] resultv srv = Some (resultv, srv)"
| "counter_commands E n type isMachine agent (name # names) resultv srv =
     do {
       (changed, srv) \<leftarrow> counter_command E n type isMachine agent name srv;
       counter_commands E n type isMachine agent names (resultv \<or> changed) srv
     }"

definition handle_CounterCommandRequest ::
  "('s, 'j) platform \<Rightarrow> sid \<Rightarrow> CPacket \<Rightarrow> 's server \<Rightarrow> 's server option" where
  "handle_CounterCommandRequest E this packet srv =
     (case wsCounterCommandRequest_parse (wire E) (payload packet) of
        None \<Rightarrow> Some srv
      | Some msg \<Rightarrow>
         let t = get_or 0 (wccmd_token msg); type = get_or CADDLIST (wccmd_type msg) in
         do {
           (n, srv) \<leftarrow> on_agentRedis (GetAgentID E t) srv;
           (resultv, srv) \<leftarrow> counter_commands E n type (get_or False (wccmd_ismachine msg))
              (GetAgentSocketByToken t srv) (wccmd_countername msg) False srv;
           SendCounterCommandResponse E this t type resultv [] srv
         })"

definition handle_packet ::
  "('s, 'j) platform \<Rightarrow> sid \<Rightarrow> CPacket \<Rightarrow> 's server \<Rightarrow> 's server option" where
  "handle_packet E this packet srv =
     (case psmType_of (ptype packet) of
        Some HealthAck \<Rightarrow> Some (web_update this (\<lambda>s. s\<lparr>webHealthCheck := True\<rparr>) srv)
      | Some ProcessCommandRequest \<Rightarrow> handle_ProcessCommandRequest E this packet srv
      | Some CounterCommandRequest \<Rightarrow> handle_CounterCommandRequest E this packet srv
      | _ \<Rightarrow> Some srv)"

definition free_packet :: "sid \<Rightarrow> addr \<Rightarrow> 's server \<Rightarrow> 's server" where
  "free_packet this block =
     web_update this (\<lambda>s. s\<lparr>packetPoolManager := snd (Free block (packetPoolManager s))\<rparr>)"

definition PacketHandling ::
  "('s, 'j) platform \<Rightarrow> sid \<Rightarrow> addr \<Rightarrow> CPacket \<Rightarrow> 's server \<Rightarrow> 's server option" where
  "PacketHandling E this block packet srv =
     (if socket (webs srv this) = 0 then None
      else map_option (free_packet this block) (handle_packet E this packet srv))"

end
