(* ===== verification/Server.thy ===== *)
theory Server imports WebCommandSocket begin

text \<open>
  The server as a whole: the start of the two TCP servers (\<open>TcpAgentServer.cpp\<close>,
  \<open>TcpWebCommandServer.cpp\<close>), their heartbeats, the console loop of \<open>AgentApp.cpp\<close>, and the events that
  drive the process. An event is what one thread does under its lock: a completion, a packet handled
  by the logic thread, a turn of a heartbeat, a line of the console.
\<close>

subsection \<open>Start\<close>

definition POOL_SIZE :: nat where "POOL_SIZE = 100"

text \<open>
  \<open>raw\<close> is the memory a socket object is built in, \<open>handle\<close> what \<open>WSASocket\<close> returns for it; the
  servers pass no connector.
\<close>

definition start_agent_socket ::
  "(sid \<Rightarrow> TcpSocket) \<Rightarrow> (sid \<Rightarrow> int) \<Rightarrow> sid \<Rightarrow> 's server \<Rightarrow> 's server option" where
  "start_agent_socket raw handle i srv =
     map_option (\<lambda>s.
       let s = InitAct (Some Acceptor) (Some Disconnector) None (Some Sender) (Some Receiver)
                 (TcpSocket.Init (handle i) s)
       in srv\<lparr>agents := (agents srv)(i := s), calls := calls srv @ map (ToAgent i) (Acceptor_Register s)\<rparr>)
       (AgentSocket.AgentSocket i (raw i))"

definition start_web_socket ::
  "(sid \<Rightarrow> TcpSocket) \<Rightarrow> (sid \<Rightarrow> int) \<Rightarrow> sid \<Rightarrow> 's server \<Rightarrow> 's server option" where
  "start_web_socket raw handle i srv =
     map_option (\<lambda>s.
       let s = InitAct (Some Acceptor) (Some Disconnector) None (Some Sender) (Some Receiver)
                 (TcpSocket.Init (handle i) s)
       in srv\<lparr>webs := (webs srv)(i := s), calls := calls srv @ map (ToWeb i) (Acceptor_Register s)\<rparr>)
       (WebCommandSocket.WebCommandSocket i (raw i))"

fun start_all :: "(sid \<Rightarrow> 's server \<Rightarrow> 's server option) \<Rightarrow> sid list \<Rightarrow> 's server \<Rightarrow> 's server option" where
  "start_all create [] srv = Some srv"
| "start_all create (i # is) srv = Option.bind (create i srv) (start_all create is)"

definition init_manager ::
  "('s, 'j) platform \<Rightarrow> bool \<Rightarrow> 's manager \<Rightarrow> (unit \<times> 's manager) option" where
  "init_manager E connected m = map_option (Pair ()) (RedisManager.Init E connected m)"

definition TcpAgentServer_Start ::
  "('s, 'j) platform \<Rightarrow> bool \<Rightarrow> (sid \<Rightarrow> TcpSocket) \<Rightarrow> (sid \<Rightarrow> int) \<Rightarrow> 's server \<Rightarrow> 's server option" where
  "TcpAgentServer_Start E connected raw handle srv =
     do {
       (_, srv) \<leftarrow> on_agentRedis (init_manager E connected) srv;
       srv \<leftarrow> start_all (start_agent_socket raw handle) [0..<POOL_SIZE] srv;
       Some (srv\<lparr>agentHeartbeat := Asking\<rparr>)
     }"

definition TcpWebCommandServer_Start ::
  "('s, 'j) platform \<Rightarrow> bool \<Rightarrow> (sid \<Rightarrow> TcpSocket) \<Rightarrow> (sid \<Rightarrow> int) \<Rightarrow> 's server \<Rightarrow> 's server option" where
  "TcpWebCommandServer_Start E connected raw handle srv =
     do {
       (_, srv) \<leftarrow> on_webRedis (init_manager E connected) srv;
       srv \<leftarrow> start_all (start_web_socket raw handle) [0..<POOL_SIZE] srv;
       Some (srv\<lparr>webHeartbeat := Asking\<rparr>)
     }"

text \<open>
  The application object after \<open>Init\<close>: both servers exist, each with a manager that has a connection
  of its own. \<open>agents0\<close> and \<open>webs0\<close> stand for the memory in which the socket objects are built later.
\<close>

definition AgentApp_Init ::
  "nat \<Rightarrow> nat \<Rightarrow> (sid \<Rightarrow> agent_socket) \<Rightarrow> (sid \<Rightarrow> web_socket) \<Rightarrow> 's \<Rightarrow> 's server" where
  "AgentApp_Init c d agents0 webs0 s =
     \<lparr>agents = agents0, webs = webs0, agentList = [], webCommandList = [],
      agentRedis = RedisManager.RedisManager c s, webRedis = RedisManager.RedisManager d s, db = s,
      agentHeartbeat = Ended, webHeartbeat = Ended, appIsEnd = False, calls = []\<rparr>"

definition AgentApp_Start ::
  "('s, 'j) platform \<Rightarrow> bool \<Rightarrow> bool \<Rightarrow> (sid \<Rightarrow> TcpSocket) \<Rightarrow> (sid \<Rightarrow> int) \<Rightarrow> (sid \<Rightarrow> int) \<Rightarrow>
   's server \<Rightarrow> 's server option" where
  "AgentApp_Start E aconn wconn raw ahandle whandle srv =
     Option.bind (TcpAgentServer_Start E aconn raw ahandle srv)
       (TcpWebCommandServer_Start E wconn raw whandle)"

subsection \<open>Heartbeats\<close>

fun ask_agents :: "('s, 'j) platform \<Rightarrow> sid list \<Rightarrow> 's server \<Rightarrow> 's server option" where
  "ask_agents E [] srv = Some srv"
| "ask_agents E (i # is) srv =
     Option.bind (AgentSocket.SendHealthCheck E i (agent_update i (\<lambda>s. s\<lparr>healthCheck := False\<rparr>) srv))
       (ask_agents E is)"

fun reap_agents :: "sid list \<Rightarrow> 's server \<Rightarrow> 's server" where
  "reap_agents [] srv = srv"
| "reap_agents (i # is) srv =
     reap_agents is (if \<not> healthCheck (agents srv i) then disconnect_agent i srv else srv)"

text \<open>The loop of \<open>HeartbeatCheck\<close>, cut at its sleep.\<close>

definition TcpAgentServer_HeartbeatCheck ::
  "('s, 'j) platform \<Rightarrow> 's server \<Rightarrow> 's server option" where
  "TcpAgentServer_HeartbeatCheck E srv =
     (case agentHeartbeat srv of
        Ended \<Rightarrow> Some srv
      | Asking \<Rightarrow>
          if appIsEnd srv then Some (srv\<lparr>agentHeartbeat := Ended\<rparr>)
          else map_option (\<lambda>srv. srv\<lparr>agentHeartbeat := Sleeping\<rparr>) (ask_agents E (agentList srv) srv)
      | Sleeping \<Rightarrow>
          if appIsEnd srv then Some (srv\<lparr>agentHeartbeat := Ended\<rparr>)
          else Some ((reap_agents (agentList srv) srv)\<lparr>agentHeartbeat := Asking\<rparr>))"

fun ask_webs :: "('s, 'j) platform \<Rightarrow> sid list \<Rightarrow> 's server \<Rightarrow> 's server option" where
  "ask_webs E [] srv = Some srv"
| "ask_webs E (i # is) srv =
     Option.bind (WebCommandSocket.SendHealthCheck E i (web_update i (\<lambda>s. s\<lparr>webHealthCheck := False\<rparr>) srv))
       (ask_webs E is)"

fun reap_webs :: "sid list \<Rightarrow> 's server \<Rightarrow> 's server" where
  "reap_webs [] srv = srv"
| "reap_webs (i # is) srv =
     reap_webs is (if \<not> webHealthCheck (webs srv i) then disconnect_web i srv else srv)"

definition TcpWebCommandServer_HeartbeatCheck ::
  "('s, 'j) platform \<Rightarrow> 's server \<Rightarrow> 's server option" where
  "TcpWebCommandServer_HeartbeatCheck E srv =
     (case webHeartbeat srv of
        Ended \<Rightarrow> Some srv
      | Asking \<Rightarrow>
          if appIsEnd srv then Some (srv\<lparr>webHeartbeat := Ended\<rparr>)
          else map_option (\<lambda>srv. srv\<lparr>webHeartbeat := Sleeping\<rparr>) (ask_webs E (webCommandList srv) srv)
      | Sleeping \<Rightarrow>
          if appIsEnd srv then Some (srv\<lparr>webHeartbeat := Ended\<rparr>)
          else Some ((reap_webs (webCommandList srv) srv)\<lparr>webHeartbeat := Asking\<rparr>))"

subsection \<open>The console\<close>

text \<open>\<open>End\<close> closes the listening socket; what it does to the logic thread is in \<open>LogicHandle\<close>.\<close>

definition AgentApp_End :: "'s server \<Rightarrow> 's server" where
  "AgentApp_End srv = srv\<lparr>appIsEnd := True, calls := calls srv @ [CloseListenSocket]\<rparr>"

fun AgentApp_Process :: "string list \<Rightarrow> 's server \<Rightarrow> 's server" where
  "AgentApp_Process [] srv = srv"
| "AgentApp_Process (input # inputs) srv =
     (if appIsEnd srv then srv
      else if input = ''End'' then AgentApp_End srv
      else AgentApp_Process inputs srv)"

subsection \<open>Events\<close>

text \<open>The logic thread hands a packet to the socket it came from.\<close>

definition dispatch_packet ::
  "('s, 'j) platform \<Rightarrow> int64 \<Rightarrow> addr \<Rightarrow> CPacket \<Rightarrow> 's server \<Rightarrow> 's server option" where
  "dispatch_packet E now block packet =
     (case pownert packet of
        AGENT \<Rightarrow> AgentSocket.PacketHandling E now (powner packet) block packet
      | WEBCOMMAND \<Rightarrow> WebCommandSocket.PacketHandling E (powner packet) block packet)"

text \<open>The flag of a completion is its error flag; \<open>Packet now block packet\<close> is handled at the time \<open>now\<close>.\<close>

datatype event =
    AgentAccept bool sid
  | AgentDisconn bool sid
  | WebAccept bool sid
  | WebDisconn bool sid
  | Packet int64 addr CPacket
  | AgentBeat
  | WebBeat
  | Console string

fun server_step :: "('s, 'j) platform \<Rightarrow> event \<Rightarrow> 's server \<Rightarrow> 's server option" where
  "server_step E (AgentAccept isErr i) srv = Some (AgentSocket.AcceptProcess isErr i srv)"
| "server_step E (AgentDisconn isErr i) srv = AgentSocket.DisconnProcess E isErr i srv"
| "server_step E (WebAccept isErr i) srv = Some (WebCommandSocket.AcceptProcess isErr i srv)"
| "server_step E (WebDisconn isErr i) srv = Some (WebCommandSocket.DisconnProcess isErr i srv)"
| "server_step E (Packet now block packet) srv = dispatch_packet E now block packet srv"
| "server_step E AgentBeat srv = TcpAgentServer_HeartbeatCheck E srv"
| "server_step E WebBeat srv = TcpWebCommandServer_HeartbeatCheck E srv"
| "server_step E (Console line) srv = Some (AgentApp_Process [line] srv)"

fun server_run :: "('s, 'j) platform \<Rightarrow> event list \<Rightarrow> 's server \<Rightarrow> 's server option" where
  "server_run E [] srv = Some srv"
| "server_run E (e # es) srv = Option.bind (server_step E e srv) (server_run E es)"

text \<open>The sockets on which an accept succeeds in a run.\<close>

fun accepted :: "event list \<Rightarrow> sid list" where
  "accepted [] = []"
| "accepted (AgentAccept False i # es) = i # accepted es"
| "accepted (_ # es) = accepted es"

end
