(* ===== verification/StoreFrame.thy ===== *)
theory StoreFrame imports StoreProperties begin

text \<open>
  What the methods of \<open>RedisManager\<close> leave alone: except for the registration and the state changes of
  an agent, no method touches the registry of agents, whatever the keys hold and whether or not the
  method succeeds.
\<close>

named_theorems kept_rules "methods of the store that leave the registry alone"

definition kept :: "('s, 'j) laws \<Rightarrow> 's manager \<Rightarrow> 's manager \<Rightarrow> bool" where
  "kept V m m' \<longleftrightarrow>
     conn m' = conn m \<and> opened V (store m') = opened V (store m) \<and>
     keys_of V m' ''AgentList'' = keys_of V m ''AgentList''"

lemma kept_refl [simp]: "kept V m m"
  by (simp add: kept_def)

lemma kept_trans: "kept V m m' \<Longrightarrow> kept V m' m'' \<Longrightarrow> kept V m m''"
  by (simp add: kept_def)

lemma kept_idle: "kept V m m' \<Longrightarrow> idle V m \<Longrightarrow> idle V m'"
  by (simp add: kept_def idle_def)

lemma kept_insert_name [simp]:
  "kept V m (insert_name k v m)" "kept V (insert_name k v m) m' \<longleftrightarrow> kept V m m'"
  "idle V (insert_name k v m) \<longleftrightarrow> idle V m"
  by (simp_all add: insert_name_def kept_def idle_def)

lemma kept_registry: "kept V m m' \<Longrightarrow> registry E V h m \<Longrightarrow> registry E V h m'"
  by (auto simp: kept_def registry_def idle_def hash_at_def)

text \<open>Every key but the registry contains a colon.\<close>

lemma colon_key [simp]: "xs @ CHR '':'' # ys \<noteq> ''AgentList''"
proof
  assume "xs @ CHR '':'' # ys = ''AgentList''"
  then have "CHR '':'' \<in> set ''AgentList''" by (metis in_set_conv_decomp)
  then show False by simp
qed

lemma counter_key_other [simp]: "counter_key n b \<noteq> ''AgentList''"
  by (simp add: counter_key_def)

lemma kept_command:
  assumes "frame_laws E V" "idle V m" "redis_command E (cmd # k # args) m = Some (v, m')"
    and "cmd \<in> {''smembers'', ''sadd'', ''srem'', ''lpush''}" "k \<noteq> ''AgentList''"
  shows "kept V m m'"
proof -
  obtain s' where "redis E (conn m) (store m) (cmd # k # args) = Some (v, s')" "m' = m\<lparr>store := s'\<rparr>"
    using assms(3) by (auto simp: redis_command_def)
  moreover have "(\<forall>k'. k' \<noteq> k \<longrightarrow> keys V s' k' = keys_of V m k') \<and> opened V s' = opened V (store m)"
    using assms(1) [unfolded frame_laws_def, rule_format, OF assms(2) [unfolded idle_def] assms(4) calculation(1)]
    by blast
  ultimately show ?thesis using assms(5) by (simp add: kept_def)
qed

lemmas kept_sadd = kept_command [where cmd = "''sadd''", simplified]
lemmas kept_srem = kept_command [where cmd = "''srem''", simplified]
lemmas kept_lpush = kept_command [where cmd = "''lpush''", simplified]
lemmas kept_smembers = kept_command [where cmd = "''smembers''", simplified]

lemma kept_sadd_all:
  assumes "frame_laws E V" "k \<noteq> ''AgentList''"
  shows "sadd_all E k ss rs m = Some (r, xs, m') \<Longrightarrow> idle V m \<Longrightarrow> kept V m m'"
proof (induction ss arbitrary: rs m)
  case (Cons s ss)
  then obtain v m1 where "redis_command E [''sadd'', k, s] m = Some (v, m1)"
    by (auto split: bind_splits)
  with Cons kept_sadd [OF assms(1) Cons.prems(2) this assms(2)] show ?case
    by (auto split: if_splits intro: kept_trans dest: kept_idle)
qed simp

lemma kept_sadd_counters:
  assumes "frame_laws E V" "k \<noteq> ''AgentList''"
  shows "sadd_counters E k ss rs m = Some (r, xs, m') \<Longrightarrow> idle V m \<Longrightarrow> kept V m m'"
proof (induction ss arbitrary: rs m)
  case (Cons s ss)
  then obtain v m1 where "redis_command E [''sadd'', k, s] m = Some (v, m1)"
    by (auto split: bind_splits)
  with Cons kept_sadd [OF assms(1) Cons.prems(2) this assms(2)] show ?case
    by (auto split: if_splits bind_splits intro: kept_trans dest: kept_idle)
qed simp

lemma kept_read_counters:
  "read_counters E vs rs m = Some (r, xs, m') \<Longrightarrow> kept V m m'"
proof (induction vs arbitrary: rs m)
  case (Cons v vs)
  then obtain c n where "read_counters E vs (rs @ [c]) (insert_name c n m) = Some (r, xs, m')"
    by (auto split: bind_splits)
  from Cons.IH [OF this] show ?case by simp
qed simp

lemma kept_push_logs:
  assumes "frame_laws E V" "k \<noteq> ''AgentList''"
  shows "push_logs E k scale ls m = Some (r, m') \<Longrightarrow> idle V m \<Longrightarrow> kept V m m'"
proof (induction ls arbitrary: m)
  case (Cons l ls)
  then obtain x v m1 where "redis_command E [''lpush'', k, x] m = Some (v, m1)"
    "\<not> isOk v \<and> m' = m1 \<or> push_logs E k scale ls m1 = Some (r, m')"
    by (auto simp: Let_def split: bind_splits if_splits)
  with Cons kept_lpush [OF assms(1) Cons.prems(2) this(1) assms(2)] show ?case
    by (auto intro: kept_trans dest: kept_idle)
qed simp

lemma kept_changes_set:
  assumes "frame_laws E V" "changes_set E (cmd # k # args) m = Some (r, m')" "idle V m"
    and "cmd \<in> {''sadd'', ''srem''}" "k \<noteq> ''AgentList''"
  shows "kept V m m'"
  using assms kept_command [OF assms(1,3), of cmd k args]
  by (auto simp: changes_set_def split: bind_splits)

subsection \<open>The methods\<close>

lemma kept_GetProcessList [kept_rules]:
  assumes "frame_laws E V" "GetProcessList E n m = Some (r, xs, m')" "idle V m"
  shows "kept V m m'"
proof -
  let ?k = "to_string n @ '':ProcessList''"
  obtain v m1 where c: "redis_command E [''smembers'', ?k] m = Some (v, m1)"
    using assms(2) by (auto simp: GetProcessList_def Let_def split: bind_splits)
  have m1: "kept V m m1" by (rule kept_smembers [OF assms(1,3) c]) simp
  have "m' = m1 \<or> sadd_all E ?k (defaultProcessList m1) [] m1 = Some (r, xs, m')"
    using assms(2) c by (auto simp: GetProcessList_def Let_def split: if_splits)
  then show ?thesis
    using m1 kept_sadd_all [OF assms(1), of ?k] kept_idle [OF m1 assms(3)] by (auto intro: kept_trans)
qed

lemma kept_GetCounterList [kept_rules]:
  assumes "frame_laws E V" "GetCounterList E n b m = Some (r, xs, m')" "idle V m"
  shows "kept V m m'"
proof -
  obtain v m1 where c: "redis_command E [''smembers'', counter_key n b] m = Some (v, m1)"
    using assms(2) by (auto simp: GetCounterList_def Let_def split: bind_splits)
  have m1: "kept V m m1" by (rule kept_smembers [OF assms(1,3) c]) simp
  have "m' = m1 \<or> read_counters E (toArray v) [] m1 = Some (r, xs, m') \<or>
      (\<exists>ss. sadd_counters E (counter_key n b) ss [] m1 = Some (r, xs, m'))"
    using assms(2) c by (auto simp: GetCounterList_def Let_def split: if_splits)
  then show ?thesis
    using m1 kept_sadd_counters [OF assms(1) counter_key_other] kept_read_counters
      kept_idle [OF m1 assms(3)] by (metis kept_trans)
qed

lemma kept_process_name [kept_rules]:
  assumes "frame_laws E V" "idle V m"
  shows "SetProcessName E n name m = Some (r, m') \<Longrightarrow> kept V m m'"
    and "RemProcessName E n name m = Some (r, m') \<Longrightarrow> kept V m m'"
  unfolding SetProcessName_def RemProcessName_def
  by (erule kept_changes_set [OF assms(1) _ assms(2)]; simp)+

lemma kept_SetCounterName [kept_rules]:
  assumes "frame_laws E V" "idle V m" "SetCounterName E n text b m = Some (r, m')"
  shows "kept V m m'"
proof (cases "StrToJson E text = json_NULL E")
  case False
  then obtain k v ch where
    "changes_set E [''sadd'', counter_key n b, text] (insert_name k v m) = Some (ch, m')"
    using assms(3) by (auto simp: SetCounterName_def Let_def split: bind_splits)
  from kept_changes_set [OF assms(1) this] assms(2) show ?thesis by simp
qed (use assms(3) in \<open>simp add: SetCounterName_def\<close>)

lemma kept_rem_counter:
  assumes "frame_laws E V" "k \<noteq> ''AgentList''" "idle V m"
  shows "rem_counter E k name vs m = Some (r, m') \<Longrightarrow> kept V m m'"
proof (induction vs)
  case (Cons v vs)
  then show ?case
    using kept_changes_set [OF assms(1) _ assms(3) _ assms(2), of "''srem''" "[toString v]"]
    by (auto simp: Let_def split: bind_splits if_splits)
qed simp

lemma kept_RemCounterName [kept_rules]:
  assumes "frame_laws E V" "idle V m" "RemCounterName E n name b m = Some (r, m')"
  shows "kept V m m'"
proof -
  obtain v m1 where c: "redis_command E [''smembers'', counter_key n b] m = Some (v, m1)"
    using assms(3) by (auto simp: RemCounterName_def Let_def split: bind_splits)
  have m1: "kept V m m1" by (rule kept_smembers [OF assms(1,2) c]) simp
  have "m' = m1 \<or> rem_counter E (counter_key n b) name (toArray v) m1 = Some (r, m')"
    using assms(3) c by (auto simp: RemCounterName_def Let_def split: if_splits)
  then show ?thesis
    using m1 kept_rem_counter [OF assms(1) counter_key_other kept_idle [OF m1 assms(2)]]
    by (metis kept_trans)
qed

lemma kept_SaveCurrentProcessList [kept_rules]:
  assumes "store_laws E V" "idle V m" "SaveCurrentProcessList E n packet m = Some (r, m')"
  shows "kept V m m'"
proof -
  obtain m2 where "SaveCurrentProcessList E n packet m = Some (True, m2)"
    "conn m2 = conn m" "opened V (store m2) = opened V (store m)"
    "keys_of V m2 = (keys_of V m)(to_string n @ '':CurrentProcessList'' :=
      (case csCurrentProcessListSend_parse (wire E) (payload packet) of
         None \<Rightarrow> None
       | Some msg \<Rightarrow>
           if cpl_processInfo msg = [] then None
           else Some (Hash (map_of (rev (process_fields (cpl_processInfo msg)))))))"
    using SaveCurrentProcessList_done [OF assms(1,2)] .
  with assms(3) show ?thesis by (simp add: kept_def)
qed

lemma kept_save_process_infos:
  assumes "frame_laws E V"
  shows "save_process_infos E t pis m = Some (r, m') \<Longrightarrow> idle V m \<Longrightarrow> kept V m m'"
proof (induction pis arbitrary: m)
  case (Cons pi pis)
  then obtain rest scale ok m1 where p: "push_logs E (t @ CHR '':'' # rest) scale (pi_logs pi) m = Some (ok, m1)"
    "m' = m1 \<or> save_process_infos E t pis m1 = Some (r, m')"
    by (auto simp: Let_def split: bind_splits if_splits)
  with Cons kept_push_logs [OF assms colon_key p(1) Cons.prems(2)] show ?case
    by (auto intro: kept_trans dest: kept_idle)
qed simp

lemma kept_save_machine_infos:
  assumes "frame_laws E V"
  shows "save_machine_infos E t mis m = Some (r, m') \<Longrightarrow> idle V m \<Longrightarrow> kept V m m'"
proof (induction mis arbitrary: m)
  case (Cons mi mis)
  then obtain rest scale ok m1 where p: "push_logs E (t @ CHR '':'' # rest) scale (mi_logs mi) m = Some (ok, m1)"
    "m' = m1 \<or> save_machine_infos E t mis m1 = Some (r, m')"
    by (auto simp: Let_def split: bind_splits if_splits)
  with Cons kept_push_logs [OF assms colon_key p(1) Cons.prems(2)] show ?case
    by (auto intro: kept_trans dest: kept_idle)
qed simp

lemma kept_reports [kept_rules]:
  assumes "frame_laws E V" "idle V m"
  shows "SaveProcessInfo E n packet m = Some (r, m') \<Longrightarrow> kept V m m'"
    and "SaveMachineInfo E n packet m = Some (r, m') \<Longrightarrow> kept V m m'"
  using kept_save_process_infos [OF assms(1) _ assms(2)] kept_save_machine_infos [OF assms(1) _ assms(2)]
  by (auto simp: SaveProcessInfo_def SaveMachineInfo_def split: option.splits)

end
