(* ===== verification/ServerInvariant.thy ===== *)
theory ServerInvariant imports Server StoreFrame begin

text \<open>
  The invariant of the server: the registry in the store and the connected agents agree, and no token
  and no number belongs to two connected agents. A step that is \<open>quiet\<close> leaves all the parts alone that
  the invariant speaks of; most are.
\<close>

subsection \<open>Quiet steps\<close>

definition agent_store :: "'s server \<Rightarrow> 's manager" where
  "agent_store srv = (agentRedis srv)\<lparr>store := db srv\<rparr>"

definition web_store :: "'s server \<Rightarrow> 's manager" where
  "web_store srv = (webRedis srv)\<lparr>store := db srv\<rparr>"

lemma store_simps [simp]:
  "conn (agent_store srv) = conn (agentRedis srv)" "store (agent_store srv) = db srv"
  "conn (web_store srv) = conn (webRedis srv)" "store (web_store srv) = db srv"
  by (simp_all add: agent_store_def web_store_def)

definition calm :: "('s, 'j) laws \<Rightarrow> 's server \<Rightarrow> bool" where
  "calm V srv \<longleftrightarrow> idle V (agent_store srv) \<and> idle V (web_store srv) \<and>
     hash_at (keys V (db srv)) ''AgentList'' \<noteq> None"

definition quiet :: "('s, 'j) laws \<Rightarrow> 's server \<Rightarrow> 's server \<Rightarrow> bool" where
  "quiet V srv srv' \<longleftrightarrow>
     agentList srv' = agentList srv \<and>
     (\<forall>i. token (agents srv' i) = token (agents srv i) \<and> agentID (agents srv' i) = agentID (agents srv i)) \<and>
     conn (agentRedis srv') = conn (agentRedis srv) \<and> conn (webRedis srv') = conn (webRedis srv) \<and>
     opened V (db srv') = opened V (db srv) \<and> keys V (db srv') ''AgentList'' = keys V (db srv) ''AgentList''"

lemma quiet_refl [simp]: "quiet V srv srv"
  by (simp add: quiet_def)

lemma quiet_trans: "quiet V srv srv' \<Longrightarrow> quiet V srv' srv'' \<Longrightarrow> quiet V srv srv''"
  by (simp add: quiet_def)

lemma quiet_calm: "quiet V srv srv' \<Longrightarrow> calm V srv \<Longrightarrow> calm V srv'"
  by (simp add: quiet_def calm_def idle_def hash_at_def)

lemma quiet_registry:
  "quiet V srv srv' \<Longrightarrow> registry E V h (agent_store srv) \<Longrightarrow> registry E V h (agent_store srv')"
  by (auto simp: quiet_def registry_def idle_def hash_at_def)

named_theorems quiet_rules "operations that leave the invariant's parts alone"

lemma quiet_send [quiet_rules]:
  "agent_send i t ser srv = Some srv' \<Longrightarrow> quiet V srv srv'"
  "web_send i t ser srv = Some srv' \<Longrightarrow> quiet V srv srv'"
  by (auto simp: agent_send_def web_send_def Send_def quiet_def split: send_result.splits if_splits)

lemma quiet_disconnect [simp]: "quiet V srv (disconnect_agent i srv)" "quiet V srv (disconnect_web i srv)"
  by (simp_all add: disconnect_agent_def disconnect_web_def Disconnect_def quiet_def)

lemma quiet_update [simp]:
  "quiet V srv (web_update i f srv)"
  "quiet V srv (agent_update i (\<lambda>s. s\<lparr>healthCheck := g s\<rparr>) srv)"
  "quiet V srv (agent_update i (\<lambda>s. s\<lparr>packetPoolManager := p s\<rparr>) srv)"
  by (simp_all add: web_update_def agent_update_def quiet_def)

lemma quiet_web_list [simp]: "quiet V srv (AddSocket i srv)" "quiet V srv (DeleteSocket i srv)"
  by (simp_all add: AddSocket_def DeleteSocket_def quiet_def)

lemma quiet_fields [simp]:
  "quiet V srv (srv\<lparr>agentHeartbeat := a\<rparr>)" "quiet V srv (srv\<lparr>webHeartbeat := a\<rparr>)"
  "quiet V srv (srv\<lparr>appIsEnd := b\<rparr>)" "quiet V srv (srv\<lparr>calls := cs\<rparr>)"
  "quiet V srv (srv'\<lparr>agentHeartbeat := a\<rparr>) \<longleftrightarrow> quiet V srv srv'"
  "quiet V srv (srv'\<lparr>webHeartbeat := a\<rparr>) \<longleftrightarrow> quiet V srv srv'"
  by (simp_all add: quiet_def)

text \<open>What a method of a manager does to the server.\<close>

lemma on_agentRedis_Some:
  "on_agentRedis f srv = Some (x, srv') \<longleftrightarrow>
     (\<exists>m'. f (agent_store srv) = Some (x, m') \<and> srv' = srv\<lparr>agentRedis := m', db := store m'\<rparr>)"
  by (auto simp: on_agentRedis_def on_store_def agent_store_def)

lemma on_webRedis_Some:
  "on_webRedis f srv = Some (x, srv') \<longleftrightarrow>
     (\<exists>m'. f (web_store srv) = Some (x, m') \<and> srv' = srv\<lparr>webRedis := m', db := store m'\<rparr>)"
  by (auto simp: on_webRedis_def on_store_def web_store_def)

lemma agent_store_upd [simp]: "agent_store (srv\<lparr>agentRedis := m, db := store m\<rparr>) = m"
  by (simp add: agent_store_def)

lemma quiet_kept:
  "kept V (agent_store srv) m \<Longrightarrow> quiet V srv (srv\<lparr>agentRedis := m, db := store m\<rparr>)"
  "kept V (web_store srv) m \<Longrightarrow> quiet V srv (srv\<lparr>webRedis := m, db := store m\<rparr>)"
  by (simp_all add: kept_def quiet_def)

lemma quiet_on_agentRedis:
  assumes "on_agentRedis f srv = Some (x, srv')" "calm V srv"
    and "\<And>m m'. f m = Some (x, m') \<Longrightarrow> idle V m \<Longrightarrow> kept V m m'"
  shows "quiet V srv srv'"
  using assms by (auto simp: on_agentRedis_Some calm_def intro: quiet_kept)

lemma quiet_on_webRedis:
  assumes "on_webRedis f srv = Some (x, srv')" "calm V srv"
    and "\<And>m m'. f m = Some (x, m') \<Longrightarrow> idle V m \<Longrightarrow> kept V m m'"
  shows "quiet V srv srv'"
  using assms by (auto simp: on_webRedis_Some calm_def intro: quiet_kept)

lemma kept_GetAgentID:
  assumes "store_laws E V" "idle V m" "hash_at (keys_of V m) ''AgentList'' \<noteq> None"
    "GetAgentID E t m = Some (n, m')"
  shows "m' = m"
proof -
  obtain h where "hash_at (keys_of V m) ''AgentList'' = Some h" using assms(3) by blast
  with assms(1,2,4) cmd_hmget [of E V m "''AgentList''" h "to_string t"] show ?thesis
    by (auto simp: GetAgentID_def store_laws_def redis_observers split: bind_splits if_splits)
qed

subsection \<open>The packets an agent sends\<close>

lemma quiet_SendProcessListResponse [quiet_rules]:
  assumes "frame_laws E V" "calm V srv" "SendProcessListResponse E i srv = Some srv'"
  shows "quiet V srv srv'"
proof -
  obtain ok xs srv1 where f: "on_agentRedis (with_output (GetProcessList E (agentID (agents srv i)))) srv =
      Some ((ok, xs), srv1)"
    using assms(3) by (auto simp: SendProcessListResponse_def split: bind_splits)
  have "quiet V srv srv1"
    using kept_GetProcessList [OF assms(1)]
    by (intro quiet_on_agentRedis [OF f assms(2)]) (auto simp: with_output_def)
  with f assms(3) show ?thesis
    by (auto simp: SendProcessListResponse_def split: if_splits intro: quiet_trans quiet_send)
qed

lemma quiet_SendCounterListResponse [quiet_rules]:
  assumes "frame_laws E V" "calm V srv" "SendCounterListResponse E i b srv = Some srv'"
  shows "quiet V srv srv'"
proof -
  obtain ok xs srv1 where f: "on_agentRedis (with_output (GetCounterList E (agentID (agents srv i)) b)) srv =
      Some ((ok, xs), srv1)"
    using assms(3) by (auto simp: SendCounterListResponse_def split: bind_splits)
  have "quiet V srv srv1"
    using kept_GetCounterList [OF assms(1)]
    by (intro quiet_on_agentRedis [OF f assms(2)]) (auto simp: with_output_def)
  with f assms(3) show ?thesis
    by (auto simp: SendCounterListResponse_def split: if_splits intro: quiet_trans quiet_send)
qed

lemma quiet_handle_report [quiet_rules]:
  assumes "calm V srv" "handle_report save i p srv = Some srv'"
    and "\<And>n m r m'. save n p m = Some (r, m') \<Longrightarrow> idle V m \<Longrightarrow> kept V m m'"
  shows "quiet V srv srv'"
  using assms by (auto simp: handle_report_def intro: quiet_on_agentRedis)

lemma quiet_commands [quiet_rules]:
  "AgentSocket.SendHealthCheck E i srv = Some srv' \<Longrightarrow> quiet V srv srv'"
  "SendAgentIDResponse E i n b srv = Some srv' \<Longrightarrow> quiet V srv srv'"
  "SendStartRecord E i b t r v d srv = Some srv' \<Longrightarrow> quiet V srv srv'"
  "AddProcessName E i s srv = Some srv' \<Longrightarrow> quiet V srv srv'"
  "DeleteProcessName E i s srv = Some srv' \<Longrightarrow> quiet V srv srv'"
  "AddCounterName E i s b srv = Some srv' \<Longrightarrow> quiet V srv srv'"
  "DeleteCounterName E i s b srv = Some srv' \<Longrightarrow> quiet V srv srv'"
  "WebCommandSocket.SendHealthCheck E i srv = Some srv' \<Longrightarrow> quiet V srv srv'"
  "SendProcessCommandResponse E i n pt b s srv = Some srv' \<Longrightarrow> quiet V srv srv'"
  "SendCounterCommandResponse E i n ct b s srv = Some srv' \<Longrightarrow> quiet V srv srv'"
  by (simp_all add: AgentSocket.SendHealthCheck_def SendAgentIDResponse_def SendStartRecord_def
      AddProcessName_def DeleteProcessName_def AddCounterName_def DeleteCounterName_def
      SendProcessCommand_def SendCounterCommand_def WebCommandSocket.SendHealthCheck_def
      SendProcessCommandResponse_def SendCounterCommandResponse_def quiet_send)

lemma quiet_ask_agents: "ask_agents E is srv = Some srv' \<Longrightarrow> quiet V srv srv'"
proof (induction "is" arbitrary: srv)
  case (Cons i "is")
  then obtain srv1 where "AgentSocket.SendHealthCheck E i (agent_update i (\<lambda>s. s\<lparr>healthCheck := False\<rparr>) srv) = Some srv1"
    "ask_agents E is srv1 = Some srv'" by (auto split: bind_splits)
  from quiet_trans [OF quiet_trans [OF quiet_update(2) quiet_commands(1) [OF this(1)]] Cons.IH [OF this(2)]]
  show ?case .
qed simp

lemma quiet_ask_webs: "ask_webs E is srv = Some srv' \<Longrightarrow> quiet V srv srv'"
proof (induction "is" arbitrary: srv)
  case (Cons i "is")
  then obtain srv1 where "WebCommandSocket.SendHealthCheck E i (web_update i (\<lambda>s. s\<lparr>webHealthCheck := False\<rparr>) srv) = Some srv1"
    "ask_webs E is srv1 = Some srv'" by (auto split: bind_splits)
  from quiet_trans [OF quiet_trans [OF quiet_update(1) quiet_commands(8) [OF this(1)]] Cons.IH [OF this(2)]]
  show ?case .
qed simp

lemma quiet_reap: "quiet V srv (reap_agents is srv)" "quiet V srv (reap_webs js srv)"
proof -
  show "quiet V srv (reap_agents is srv)"
    by (induction "is" arbitrary: srv) (auto intro: quiet_trans quiet_disconnect)
  show "quiet V srv (reap_webs js srv)"
    by (induction js arbitrary: srv) (auto intro: quiet_trans quiet_disconnect)
qed

lemma quiet_heartbeat [quiet_rules]:
  "TcpAgentServer_HeartbeatCheck E srv = Some srv' \<Longrightarrow> quiet V srv srv'"
  "TcpWebCommandServer_HeartbeatCheck E srv = Some srv' \<Longrightarrow> quiet V srv srv'"
  by (auto simp: TcpAgentServer_HeartbeatCheck_def TcpWebCommandServer_HeartbeatCheck_def
      quiet_reap quiet_ask_agents quiet_ask_webs split: heartbeat.splits if_splits)

subsection \<open>The commands of the web front end\<close>

lemma quiet_GetAgentID:
  assumes "store_laws E V" "calm V srv" "on_agentRedis (GetAgentID E t) srv = Some (n, srv')"
  shows "quiet V srv srv'"
proof -
  obtain m' where m': "GetAgentID E t (agent_store srv) = Some (n, m')"
    "srv' = srv\<lparr>agentRedis := m', db := store m'\<rparr>"
    using assms(3) by (auto simp: on_agentRedis_Some)
  have "m' = agent_store srv"
    using assms(2) by (intro kept_GetAgentID [OF assms(1) _ _ m'(1)]) (simp_all add: calm_def)
  then have "kept V (agent_store srv) m'" by simp
  from quiet_kept(1) [OF this] show ?thesis unfolding m'(2) .
qed

lemma quiet_tell:
  "tell_agent (\<lambda>ag. AddProcessName E ag name) ag srv = Some srv' \<Longrightarrow> quiet V srv srv'"
  "tell_agent (\<lambda>ag. DeleteProcessName E ag name) ag srv = Some srv' \<Longrightarrow> quiet V srv srv'"
  "tell_agent (\<lambda>ag. AddCounterName E ag name b) ag srv = Some srv' \<Longrightarrow> quiet V srv srv'"
  "tell_agent (\<lambda>ag. DeleteCounterName E ag name b) ag srv = Some srv' \<Longrightarrow> quiet V srv srv'"
  by (auto simp: tell_agent_def split: option.splits intro: quiet_commands)

lemma quiet_process_command:
  assumes "frame_laws E V" "calm V srv" "process_command E n t ty name srv = Some (r, srv')"
  shows "quiet V srv srv'"
proof -
  consider srv1 where "on_webRedis (SetProcessName E n name) srv = Some (r, srv1)"
      "srv1 = srv' \<or> tell_agent (\<lambda>ag. AddProcessName E ag name) (GetAgentSocketByToken t srv1) srv1 = Some srv'"
    | srv1 where "on_webRedis (RemProcessName E n name) srv = Some (r, srv1)"
      "srv1 = srv' \<or> tell_agent (\<lambda>ag. DeleteProcessName E ag name) (GetAgentSocketByToken t srv1) srv1 = Some srv'"
    | "srv' = srv"
    using assms(3) by (auto simp: process_command_def split: if_splits bind_splits)
  then show ?thesis
  proof cases
    case 1
    have "quiet V srv srv1"
      using kept_process_name(1) [OF assms(1)] by (intro quiet_on_webRedis [OF 1(1) assms(2)])
    with 1(2) show ?thesis
      using quiet_tell(1) by (blast intro: quiet_trans)
  next
    case 2
    have "quiet V srv srv1"
      using kept_process_name(2) [OF assms(1)] by (intro quiet_on_webRedis [OF 2(1) assms(2)])
    with 2(2) show ?thesis
      using quiet_tell(2) by (blast intro: quiet_trans)
  qed simp
qed

lemma quiet_ProcessCommandRequest [quiet_rules]:
  assumes "store_laws E V" "calm V srv" "handle_ProcessCommandRequest E i p srv = Some srv'"
  shows "quiet V srv srv'"
proof (cases "wsProcessCommandRequest_parse (RedisManager.wire E) (payload p)")
  case (Some msg)
  obtain t n ty name r srv1 srv2 where "on_agentRedis (GetAgentID E t) srv = Some (n, srv1)"
    and c: "process_command E n t ty name srv1 = Some (r, srv2)"
    and s: "SendProcessCommandResponse E i t ty r [] srv2 = Some srv'"
    using assms(3) Some by (auto simp: handle_ProcessCommandRequest_def Let_def split: bind_splits)
  then have q1: "quiet V srv srv1" using quiet_GetAgentID [OF assms(1,2)] by blast
  have "quiet V srv1 srv2"
    using assms(1) by (intro quiet_process_command [OF _ quiet_calm [OF q1 assms(2)] c]) (simp add: store_laws_def)
  from quiet_trans [OF quiet_trans [OF q1 this] quiet_commands(9) [OF s]] show ?thesis .
qed (use assms(3) in \<open>simp add: handle_ProcessCommandRequest_def\<close>)

lemma quiet_counter_command:
  assumes "frame_laws E V" "calm V srv" "counter_command E n ty b ag name srv = Some (r, srv')"
  shows "quiet V srv srv'"
proof -
  consider x srv1 where "on_webRedis (SetCounterName E n name b) srv = Some (x, srv1)"
      "srv1 = srv' \<or> (\<exists>c. tell_agent (\<lambda>ag. AddCounterName E ag c b) ag srv1 = Some srv')"
    | x srv1 where "on_webRedis (RemCounterName E n name b) srv = Some (x, srv1)"
      "srv1 = srv' \<or> (\<exists>c. tell_agent (\<lambda>ag. DeleteCounterName E ag c b) ag srv1 = Some srv')"
    | "srv' = srv"
    using assms(3) by (auto simp: counter_command_def split: if_splits bind_splits option.splits) blast+
  then show ?thesis
  proof cases
    case 1
    have "quiet V srv srv1"
      using kept_SetCounterName [OF assms(1)] by (intro quiet_on_webRedis [OF 1(1) assms(2)])
    with 1(2) show ?thesis
      using quiet_tell(3) by (blast intro: quiet_trans)
  next
    case 2
    have "quiet V srv srv1"
      using kept_RemCounterName [OF assms(1)] by (intro quiet_on_webRedis [OF 2(1) assms(2)])
    with 2(2) show ?thesis
      using quiet_tell(4) by (blast intro: quiet_trans)
  qed simp
qed

lemma quiet_counter_commands:
  assumes "frame_laws E V"
  shows "counter_commands E n ty b ag names r0 srv = Some (r, srv') \<Longrightarrow> calm V srv \<Longrightarrow> quiet V srv srv'"
proof (induction names arbitrary: r0 srv)
  case (Cons name names)
  then obtain c srv1 where c: "counter_command E n ty b ag name srv = Some (c, srv1)"
    "counter_commands E n ty b ag names (r0 \<or> c) srv1 = Some (r, srv')"
    by (auto split: bind_splits)
  have q: "quiet V srv srv1" by (rule quiet_counter_command [OF assms Cons.prems(2) c(1)])
  from quiet_trans [OF q Cons.IH [OF c(2) quiet_calm [OF q Cons.prems(2)]]] show ?case .
qed simp

lemma quiet_CounterCommandRequest [quiet_rules]:
  assumes "store_laws E V" "calm V srv" "handle_CounterCommandRequest E i p srv = Some srv'"
  shows "quiet V srv srv'"
proof (cases "wsCounterCommandRequest_parse (RedisManager.wire E) (payload p)")
  case (Some msg)
  obtain t n ty b ag names r srv1 srv2 where "on_agentRedis (GetAgentID E t) srv = Some (n, srv1)"
    and c: "counter_commands E n ty b ag names False srv1 = Some (r, srv2)"
    and s: "SendCounterCommandResponse E i t ty r [] srv2 = Some srv'"
    using assms(3) Some by (auto simp: handle_CounterCommandRequest_def Let_def split: bind_splits)
  then have q1: "quiet V srv srv1" using quiet_GetAgentID [OF assms(1,2)] by blast
  have "quiet V srv1 srv2"
    using assms(1) by (intro quiet_counter_commands [OF _ c quiet_calm [OF q1 assms(2)]]) (simp add: store_laws_def)
  from quiet_trans [OF quiet_trans [OF q1 this] quiet_commands(10) [OF s]] show ?thesis .
qed (use assms(3) in \<open>simp add: handle_CounterCommandRequest_def\<close>)

lemma quiet_web_packet [quiet_rules]:
  assumes "store_laws E V" "calm V srv" "WebCommandSocket.PacketHandling E i b p srv = Some srv'"
  shows "quiet V srv srv'"
proof -
  obtain srv1 where h: "WebCommandSocket.handle_packet E i p srv = Some srv1"
    and s: "srv' = WebCommandSocket.free_packet i b srv1"
    using assms(3) by (auto simp: WebCommandSocket.PacketHandling_def split: if_splits)
  have "quiet V srv srv1"
    using h quiet_ProcessCommandRequest [OF assms(1,2)] quiet_CounterCommandRequest [OF assms(1,2)]
    by (auto simp: WebCommandSocket.handle_packet_def split: option.splits psmType.splits)
  then show ?thesis unfolding s WebCommandSocket.free_packet_def by (rule quiet_trans) simp
qed

end
