(* ===== verification/ServerRun.thy ===== *)
theory ServerRun imports ServerInvariant begin

text \<open>
  The invariant of the server along its runs: the store and the connected agents agree.
\<close>

subsection \<open>The invariant\<close>

text \<open>The number under which a registry knows a token.\<close>

definition number :: "('s, 'j) platform \<Rightarrow> (string \<Rightarrow> string option) \<Rightarrow> int32 \<Rightarrow> int32 option" where
  "number E h t = Option.bind (h (to_string t)) (entry_number E)"

definition agrees :: "(int32 \<Rightarrow> int32 option) \<Rightarrow> 's server \<Rightarrow> bool" where
  "agrees num srv \<longleftrightarrow>
     distinct (agentList srv) \<and>
     (\<forall>i \<in> set (agentList srv). token (agents srv i) \<noteq> -1 \<longrightarrow>
        num (token (agents srv i)) = Some (agentID (agents srv i))) \<and>
     (\<forall>i \<in> set (agentList srv). \<forall>j \<in> set (agentList srv).
        token (agents srv i) \<noteq> -1 \<longrightarrow> token (agents srv i) = token (agents srv j) \<longrightarrow> i = j)"

definition server_inv ::
  "('s, 'j) platform \<Rightarrow> ('s, 'j) laws \<Rightarrow> (string \<Rightarrow> string option) \<Rightarrow> 's server \<Rightarrow> bool" where
  "server_inv E V h srv \<longleftrightarrow>
     registry E V h (agent_store srv) \<and> idle V (web_store srv) \<and> agrees (number E h) srv"

lemma server_inv_calm: "server_inv E V h srv \<Longrightarrow> calm V srv"
  by (simp add: server_inv_def calm_def registry_def)

lemma quiet_agrees: "quiet V srv srv' \<Longrightarrow> agrees num srv \<Longrightarrow> agrees num srv'"
  by (simp add: quiet_def agrees_def)

lemma quiet_inv: "quiet V srv srv' \<Longrightarrow> server_inv E V h srv \<Longrightarrow> server_inv E V h srv'"
  using quiet_registry quiet_agrees unfolding server_inv_def
  by (metis quiet_calm calm_def server_inv_calm server_inv_def)

text \<open>
  A step keeps the invariant with a registry that has at most \<open>k\<close> tokens more, and connects no agent
  outside of \<open>A\<close>.
\<close>

definition keeps_inv ::
  "('s, 'j) platform \<Rightarrow> ('s, 'j) laws \<Rightarrow> nat \<Rightarrow> sid set \<Rightarrow> (string \<Rightarrow> string option) \<Rightarrow> 's server \<Rightarrow> bool" where
  "keeps_inv E V k A h srv' \<longleftrightarrow>
     (\<exists>h'. server_inv E V h' srv' \<and> card (dom h') \<le> card (dom h) + k) \<and> set (agentList srv') \<subseteq> A"

lemma keeps_invI: "server_inv E V h srv' \<Longrightarrow> set (agentList srv') \<subseteq> A \<Longrightarrow> keeps_inv E V k A h srv'"
  by (auto simp: keeps_inv_def)

lemma quiet_keeps:
  "quiet V srv srv' \<Longrightarrow> server_inv E V h srv \<Longrightarrow> set (agentList srv) \<subseteq> A \<Longrightarrow> keeps_inv E V k A h srv'"
  by (rule keeps_invI [OF quiet_inv]) (auto simp: quiet_def)

subsection \<open>Changes of the state of an agent\<close>

lemma change_agent_inv:
  assumes "store_laws E V" "server_inv E V h srv" "\<forall>kv \<in> set updates. scalar E (snd kv)"
    and "''agentNumber'' \<notin> fst ` set updates"
    and "on_agentRedis (change_agent E updates t) srv = Some (r, srv')"
  obtains h' where "server_inv E V h' srv'" "card (dom h') = card (dom h)"
    "agents srv' = agents srv" "agentList srv' = agentList srv"
proof -
  have reg: "registry E V h (agent_store srv)" using assms(2) by (simp add: server_inv_def)
  note change = change_agent_registry [OF assms(1) reg assms(3,4), of t]
  obtain m' where m': "change_agent E updates t (agent_store srv) = Some (r, m')"
    "srv' = srv\<lparr>agentRedis := m', db := store m'\<rparr>"
    using assms(5) by (auto simp: on_agentRedis_Some)
  show thesis
  proof (cases "h (to_string t)")
    case None
    with change(1) m' have "srv' = srv\<lparr>agentRedis := agent_store srv, db := db srv\<rparr>" by simp
    then have "quiet V srv srv'" by (simp add: quiet_def agent_store_def)
    from quiet_inv [OF this assms(2)] show thesis using m'(2) by (intro that [of h]) simp_all
  next
    case (Some w)
    from change(2) [OF Some] obtain v where v: "registry E V (h(to_string t \<mapsto> v)) m'"
      "entry_number E v = entry_number E w"
      "wrote V (agent_store srv) ''AgentList'' (Some (Hash (h(to_string t \<mapsto> v)))) m'"
      using m'(1) by auto
    have "number E (h(to_string t \<mapsto> v)) = number E h"
      using Some v(2) by (auto simp: number_def fun_eq_iff)
    moreover have "idle V (web_store srv')"
      using assms(2) v(3) m'(2) by (simp add: server_inv_def idle_def wrote_def becomes_def)
    moreover have "agrees (number E h) srv'"
      using assms(2) m'(2) by (simp add: server_inv_def agrees_def)
    ultimately have "server_inv E V (h(to_string t \<mapsto> v)) srv'"
      using v(1) m'(2) by (simp add: server_inv_def)
    moreover have "dom (h(to_string t \<mapsto> v)) = dom h" using Some by auto
    ultimately show thesis using m'(2) by (intro that [of "h(to_string t \<mapsto> v)"]) simp_all
  qed
qed

lemma change_state_inv:
  assumes "store_laws E V" "server_inv E V h srv"
    and "on_agentRedis f srv = Some (r, srv')"
    and "f \<in> {ChangeAgentState_isOn E t b, ChangeAgentState_stopRecording E t,
              ChangeAgentState_startRecording E now t total_time response interval delay}"
  obtains h' where "server_inv E V h' srv'" "card (dom h') = card (dom h)"
    "agents srv' = agents srv" "agentList srv' = agentList srv"
proof -
  obtain updates where "f = change_agent E updates t" "\<forall>kv \<in> set updates. scalar E (snd kv)"
    "''agentNumber'' \<notin> fst ` set updates"
    using assms(4)
    by (auto simp: ChangeAgentState_isOn_def ChangeAgentState_stopRecording_def
        ChangeAgentState_startRecording_def Let_def)
  with change_agent_inv [OF assms(1,2) this(2,3)] assms(3) that show thesis by metis
qed

subsection \<open>Connections\<close>

lemma accept_inv:
  assumes "server_inv E V h srv" "i \<notin> set (agentList srv)"
  shows "server_inv E V h (AgentSocket.AcceptProcess isErr i srv)"
proof (cases isErr)
  case False
  let ?srv = "AgentSocket.AcceptProcess isErr i srv"
  have "agentRedis ?srv = agentRedis srv" "webRedis ?srv = webRedis srv" "db ?srv = db srv"
    "agentList ?srv = agentList srv @ [i]" "token (agents ?srv i) = -1"
    "\<forall>j \<in> set (agentList srv). agents ?srv j = agents srv j"
    using False assms(2) by (simp_all add: AgentSocket.AcceptProcess_def AddAgent_def agent_update_def
        TcpSocket.Recv_def Let_def)
  then show ?thesis
    using assms by (auto simp: server_inv_def agent_store_def web_store_def agrees_def)
qed (use assms(1) in \<open>simp add: AgentSocket.AcceptProcess_def\<close>)

lemma delete_agent_inv: "server_inv E V h srv \<Longrightarrow> server_inv E V h (DeleteAgent i srv)"
  by (auto simp: server_inv_def DeleteAgent_def agent_store_def web_store_def agrees_def distinct_removeAll)

lemma disconn_inv:
  assumes "store_laws E V" "server_inv E V h srv"
    and "AgentSocket.DisconnProcess E isErr i srv = Some srv'"
  shows "keeps_inv E V 0 (set (agentList srv)) h srv'"
proof (cases isErr)
  case False
  then obtain r1 r2 srv1 srv2 where
    d: "on_agentRedis (ChangeAgentState_isOn E (token (agents srv i)) False) srv = Some (r1, srv1)"
      "on_agentRedis (ChangeAgentState_stopRecording E (token (agents srv i))) srv1 = Some (r2, srv2)"
      "srv' = DeleteAgent i srv2"
    using assms(3) by (auto simp: AgentSocket.DisconnProcess_def Let_def split: bind_splits)
  obtain h1 where h1: "server_inv E V h1 srv1" "card (dom h1) = card (dom h)"
    "agentList srv1 = agentList srv"
    using change_state_inv [OF assms(1,2) d(1)] by blast
  obtain h2 where h2: "server_inv E V h2 srv2" "card (dom h2) = card (dom h1)"
    "agentList srv2 = agentList srv1"
    using change_state_inv [OF assms(1) h1(1) d(2)] by blast
  have "set (agentList srv') \<subseteq> set (agentList srv)" using h1(3) h2(3) d(3) by (auto simp: DeleteAgent_def)
  with h1(2) h2(2) d(3) delete_agent_inv [OF h2(1)] show ?thesis
    unfolding keeps_inv_def by (intro conjI exI [of _ h2]) simp_all
qed (use assms(2,3) in \<open>simp add: AgentSocket.DisconnProcess_def keeps_invI\<close>)

subsection \<open>Packets of an agent\<close>

lemma agent_ready_inv:
  assumes "store_laws E V" "server_inv E V h srv" "handle_AgentReady E now i srv = Some srv'"
  shows "keeps_inv E V 0 (set (agentList srv)) h srv'"
proof -
  obtain r srv1 srv2 where
    d: "on_agentRedis (ChangeAgentState_startRecording E now (token (agents srv i)) (-1) 10 1 0) srv = Some (r, srv1)"
      "SendStartRecord E i True (-1) 10 1 0 srv1 = Some srv2"
      "SendStartRecord E i False (-1) 10 1 0 srv2 = Some srv'"
    using assms(3) by (auto simp: handle_AgentReady_def split: bind_splits)
  obtain h1 where h1: "server_inv E V h1 srv1" "card (dom h1) = card (dom h)"
    "agentList srv1 = agentList srv"
    using change_state_inv [OF assms(1,2) d(1)] by blast
  have q: "quiet V srv1 srv'"
    by (rule quiet_trans [OF quiet_commands(3) [OF d(2)] quiet_commands(3) [OF d(3)]])
  from quiet_inv [OF this h1(1)] h1(2,3) q show ?thesis by (auto simp: keeps_inv_def quiet_def)
qed

text \<open>A token no connected agent uses is given to a socket.\<close>

lemma agrees_register:
  assumes "agrees num srv" "\<forall>j \<in> set (agentList srv). token (agents srv j) \<noteq> t"
    and "agentList srv' = agentList srv" "\<And>j. j \<noteq> i \<Longrightarrow> agents srv' j = agents srv j"
    and "token (agents srv' i) = t" "agentID (agents srv' i) = n"
  shows "agrees (num(t := Some n)) srv'"
proof -
  have "token (agents srv' j) = (if j = i then t else token (agents srv j))"
    "agentID (agents srv' j) = (if j = i then n else agentID (agents srv j))" for j
    using assms(4-6) by simp_all
  with assms(1-3) show ?thesis unfolding agrees_def by (simp split: if_splits) metis
qed

lemma agent_id_inv:
  assumes "store_laws E V" "server_inv E V h srv" "card (dom h) < 2 ^ 31"
    and "handle_AgentIDRequest E i packet srv = Some srv'"
  shows "keeps_inv E V 1 (set (agentList srv)) h srv'"
proof (cases "csAgentIDRequest_parse (RedisManager.wire E) (payload packet)")
  case (Some msg)
  let ?t = "get_or 0 (idreq_token msg)" and ?ip = "get_or 0 (idreq_hostIP msg)"
    and ?ram = "get_or 0 (idreq_ramSize msg)"
  let ?srv = "agent_update i (\<lambda>s. s\<lparr>token := ?t, hostIP := ?ip\<rparr>) srv"
  show ?thesis
  proof (cases "GetAgentSocketByToken ?t srv")
    case None
    have reg: "registry E V h (agent_store srv)" using assms(2) by (simp add: server_inv_def)
    obtain m1 n v where m1: "InitAgent E ?t ?ip ?ram (agent_store srv) = Some (True, m1)"
      "registry E V (h(to_string ?t \<mapsto> v)) m1" "entry_number E v = Some n"
      "wrote V (agent_store srv) ''AgentList'' (Some (Hash (h(to_string ?t \<mapsto> v)))) m1"
      by (rule InitAgent_registry [OF assms(1) reg assms(3), of ?t ?ip ?ram]) (rule that)
    let ?srv1 = "?srv\<lparr>agentRedis := m1, db := store m1\<rparr>"
    have i: "on_agentRedis (InitAgent E ?t ?ip ?ram) ?srv = Some (True, ?srv1)"
      using m1(1) by (simp add: on_agentRedis_Some agent_update_def agent_store_def)
    have "GetAgentID E ?t m1 = Some (n, m1)"
      by (rule GetAgentID_known [OF assms(1) m1(2) _ m1(3)]) simp
    then have f: "FindAgentID E ?t ?srv1 = Some (n, ?srv1)"
      by (simp add: FindAgentID_def on_agentRedis_Some)
    let ?srv2 = "agent_update i (\<lambda>s. s\<lparr>agentID := n\<rparr>) ?srv1"
    have "SendAgentIDResponse E i n False ?srv2 = Some srv'"
      using assms(4) Some None i f by (simp add: handle_AgentIDRequest_def Let_def)
    then have q: "quiet V ?srv2 srv'" by (rule quiet_commands(2))
    have "number E (h(to_string ?t \<mapsto> v)) = (number E h)(?t := Some n)"
      using m1(3) by (auto simp: number_def fun_eq_iff)
    moreover have "agrees ((number E h)(?t := Some n)) ?srv2"
      using assms(2) None
      by (intro agrees_register [where srv = srv and i = i])
        (auto simp: server_inv_def agent_update_def by_token_None)
    ultimately have "server_inv E V (h(to_string ?t \<mapsto> v)) ?srv2"
      using m1(2,4) assms(2)
      by (simp add: server_inv_def agent_update_def idle_def wrote_def becomes_def web_store_def agent_store_def)
    moreover have "card (dom (h(to_string ?t \<mapsto> v))) \<le> card (dom h) + 1"
      using reg by (simp add: registry_def card_insert_if)
    moreover have "agentList srv' = agentList srv" using q by (simp add: quiet_def agent_update_def)
    ultimately show ?thesis using quiet_inv [OF q] unfolding keeps_inv_def by fastforce
  next
    case (Some j)
    then have "SendAgentIDResponse E i (-1) True srv = Some srv'"
      using assms(4) \<open>_ = Some msg\<close> by (simp add: handle_AgentIDRequest_def)
    from quiet_keeps [OF quiet_commands(2) [OF this] assms(2)] show ?thesis by simp
  qed
qed (use assms(2,4) in \<open>simp add: handle_AgentIDRequest_def keeps_invI\<close>)

lemma agent_packet_inv:
  assumes "store_laws E V" "server_inv E V h srv" "card (dom h) < 2 ^ 31"
    and "AgentSocket.PacketHandling E now i b packet srv = Some srv'"
  shows "keeps_inv E V 1 (set (agentList srv)) h srv'"
proof -
  obtain srv1 where h: "AgentSocket.handle_packet E now i packet srv = Some srv1"
    and s: "srv' = AgentSocket.free_packet i b srv1"
    using assms(4) by (auto simp: AgentSocket.PacketHandling_def split: if_splits)
  note calm = server_inv_calm [OF assms(2)]
  have frame: "frame_laws E V" using assms(1) by (simp add: store_laws_def)
  have reports: "quiet V srv srv1" if "handle_report f i packet srv = Some srv1"
    and "f \<in> {SaveCurrentProcessList E, SaveProcessInfo E, SaveMachineInfo E}" for f
    using that(2) kept_SaveCurrentProcessList [OF assms(1)] kept_reports [OF frame]
    by (intro quiet_handle_report [OF calm that(1)]) auto
  have counters: "quiet V srv srv1" if "handle_CounterListRequest E i packet srv = Some srv1"
    using that quiet_SendCounterListResponse [OF frame calm]
    by (auto simp: handle_CounterListRequest_def split: option.splits)
  consider "quiet V srv srv1" | "handle_AgentIDRequest E i packet srv = Some srv1"
    | "handle_AgentReady E now i srv = Some srv1"
    using h reports counters quiet_SendProcessListResponse [OF frame calm]
    by (auto simp: AgentSocket.handle_packet_def split: option.splits agentType.splits)
  then have "keeps_inv E V 1 (set (agentList srv)) h srv1"
  proof cases
    case 1
    from quiet_keeps [OF this assms(2)] show ?thesis by simp
  next
    case 2
    then show ?thesis by (rule agent_id_inv [OF assms(1-3)])
  next
    case 3
    from agent_ready_inv [OF assms(1,2) this] show ?thesis by (auto simp: keeps_inv_def)
  qed
  moreover have "quiet V srv1 srv'" by (simp add: s AgentSocket.free_packet_def)
  ultimately show ?thesis by (auto simp: keeps_inv_def quiet_def dest: quiet_inv [rotated])
qed

subsection \<open>Runs\<close>

lemma console_quiet: "quiet V srv (AgentApp_Process inputs srv)"
  by (induction inputs) (auto simp: AgentApp_End_def quiet_def)

lemma web_accept_quiet: "quiet V srv (WebCommandSocket.AcceptProcess isErr i srv)"
  by (simp add: WebCommandSocket.AcceptProcess_def AddSocket_def web_update_def TcpSocket.Recv_def
      Let_def quiet_def)

lemma step_inv:
  assumes "store_laws E V" "server_inv E V h srv" "card (dom h) < 2 ^ 31"
    and "set (accepted [e]) \<inter> set (agentList srv) = {}" "server_step E e srv = Some srv'"
  shows "keeps_inv E V 1 (set (agentList srv) \<union> set (accepted [e])) h srv'"
proof -
  let ?A = "set (agentList srv) \<union> set (accepted [e])"
  have quiet: "keeps_inv E V 1 ?A h srv'" if "quiet V srv srv'"
    by (rule quiet_keeps [OF that assms(2)]) simp
  note calm = server_inv_calm [OF assms(2)]
  show ?thesis
  proof (cases e)
    case (AgentAccept isErr i)
    show ?thesis
    proof (cases isErr)
      case False
      then have "agentList srv' = agentList srv @ [i]" "i \<notin> set (agentList srv)"
        using assms(4,5) AgentAccept
        by (auto simp: AgentSocket.AcceptProcess_def AddAgent_def agent_update_def TcpSocket.Recv_def Let_def)
      then show ?thesis
        using assms(5) AgentAccept False accept_inv [OF assms(2), of i isErr] by (auto intro: keeps_invI)
    qed (use assms(5) AgentAccept quiet in \<open>simp add: AgentSocket.AcceptProcess_def\<close>)
  next
    case (AgentDisconn isErr i)
    then show ?thesis
      using disconn_inv [OF assms(1,2), of isErr i] assms(5) by (auto simp: keeps_inv_def)
  next
    case (Packet now b p)
    then show ?thesis
      using assms(5) agent_packet_inv [OF assms(1-3)] quiet_web_packet [OF assms(1) calm] quiet
      by (auto simp: dispatch_packet_def split: ownerType.splits)
  next
    case (WebDisconn isErr i)
    then show ?thesis
      using assms(5) by (intro quiet) (auto simp: WebCommandSocket.DisconnProcess_def)
  next
    case (WebAccept isErr i)
    then show ?thesis using assms(5) web_accept_quiet [of V srv isErr i] by (intro quiet) auto
  next
    case (Console line)
    then show ?thesis
      using assms(5) console_quiet [of V srv "[line]"] by (intro quiet) auto
  next
    case AgentBeat
    then show ?thesis using assms(5) by (intro quiet quiet_heartbeat(1)) simp
  next
    case WebBeat
    then show ?thesis using assms(5) by (intro quiet quiet_heartbeat(2)) simp
  qed
qed

lemma accepted_Cons: "accepted (e # es) = accepted [e] @ accepted es"
proof (cases e)
  case (AgentAccept isErr i)
  then show ?thesis by (cases isErr) simp_all
qed simp_all

text \<open>
  A run from a state that meets the invariant keeps it, as long as no socket accepts twice and the
  registry stays below \<open>2 ^ 31\<close> tokens.
\<close>

lemma run_inv:
  assumes "store_laws E V"
  shows "server_run E es srv = Some srv' \<Longrightarrow> server_inv E V h srv \<Longrightarrow>
    card (dom h) + length es < 2 ^ 31 \<Longrightarrow> distinct (accepted es) \<Longrightarrow>
    set (accepted es) \<inter> set (agentList srv) = {} \<Longrightarrow> \<exists>h'. server_inv E V h' srv'"
proof (induction es arbitrary: srv h)
  case (Cons e es)
  obtain srv1 where s: "server_step E e srv = Some srv1" "server_run E es srv1 = Some srv'"
    using Cons.prems(1) by (auto split: bind_splits)
  have acc: "accepted (e # es) = accepted [e] @ accepted es" by (rule accepted_Cons)
  have "keeps_inv E V 1 (set (agentList srv) \<union> set (accepted [e])) h srv1"
    using Cons.prems(3,5) acc by (intro step_inv [OF assms Cons.prems(2) _ _ s(1)]) auto
  then obtain h1 where h1: "server_inv E V h1 srv1" "card (dom h1) \<le> card (dom h) + 1"
    "set (agentList srv1) \<subseteq> set (agentList srv) \<union> set (accepted [e])"
    by (auto simp: keeps_inv_def)
  have "set (accepted es) \<inter> set (agentList srv1) = {}"
    using h1(3) Cons.prems(4,5) unfolding acc by auto
  then show ?case
    using Cons.prems(3,4) h1(2) acc by (intro Cons.IH [OF s(2) h1(1)]) auto
qed auto

end
