(* ===== verification/ServerFrame.thy ===== *)
theory ServerFrame imports Server begin

text \<open>
  What the handlers of the server leave alone: the health flags of the agents, the phase of their
  heartbeat, and the accepts that are posted. No law of the store is needed for this.
\<close>

definition accept_calls :: "'s server \<Rightarrow> server_call list" where
  "accept_calls srv =
     filter (\<lambda>c. (\<exists>i s. c = ToAgent i (AcceptEx s)) \<or> (\<exists>i s. c = ToWeb i (AcceptEx s))) (calls srv)"

definition untouched :: "'s server \<Rightarrow> 's server \<Rightarrow> bool" where
  "untouched srv srv' \<longleftrightarrow>
     (\<forall>i. healthCheck (agents srv' i) = healthCheck (agents srv i)) \<and>
     agentHeartbeat srv' = agentHeartbeat srv \<and> appIsEnd srv' = appIsEnd srv \<and>
     accept_calls srv' = accept_calls srv \<and> set (agentList srv') \<subseteq> set (agentList srv)"

lemma untouched_refl [simp]: "untouched srv srv"
  by (simp add: untouched_def)

lemma untouched_trans: "untouched srv srv' \<Longrightarrow> untouched srv' srv'' \<Longrightarrow> untouched srv srv''"
  by (auto simp: untouched_def)

named_theorems untouched_rules "operations that leave the health of the agents alone"

lemma untouched_send [untouched_rules]:
  "agent_send i t ser srv = Some srv' \<Longrightarrow> untouched srv srv'"
  "web_send i t ser srv = Some srv' \<Longrightarrow> untouched srv srv'"
  by (auto simp: agent_send_def web_send_def Send_def untouched_def accept_calls_def
      split: send_result.splits if_splits)

lemma untouched_disconnect [simp]:
  "untouched srv (disconnect_agent i srv)" "untouched srv (disconnect_web i srv)"
  by (simp_all add: disconnect_agent_def disconnect_web_def Disconnect_def untouched_def accept_calls_def)

lemma untouched_store [untouched_rules]:
  "on_agentRedis f srv = Some (x, srv') \<Longrightarrow> untouched srv srv'"
  "on_webRedis f srv = Some (y, srv') \<Longrightarrow> untouched srv srv'"
  by (auto simp: on_agentRedis_def on_webRedis_def untouched_def accept_calls_def)

lemma untouched_update [simp]:
  "untouched srv (web_update i f srv)"
  "(\<And>s. healthCheck (g s) = healthCheck s) \<Longrightarrow> untouched srv (agent_update i g srv)"
  by (simp_all add: web_update_def agent_update_def untouched_def accept_calls_def)

lemma untouched_lists [simp]:
  "untouched srv (DeleteAgent i srv)" "untouched srv (AddSocket i srv)" "untouched srv (DeleteSocket i srv)"
  by (auto simp: DeleteAgent_def AddSocket_def DeleteSocket_def untouched_def accept_calls_def)

text \<open>The packets the server sends are all sends.\<close>

lemma untouched_commands [untouched_rules]:
  "AgentSocket.SendHealthCheck E i srv = Some srv' \<Longrightarrow> untouched srv srv'"
  "SendAgentIDResponse E i n b srv = Some srv' \<Longrightarrow> untouched srv srv'"
  "SendStartRecord E i b t r v d srv = Some srv' \<Longrightarrow> untouched srv srv'"
  "AddProcessName E i s srv = Some srv' \<Longrightarrow> untouched srv srv'"
  "DeleteProcessName E i s srv = Some srv' \<Longrightarrow> untouched srv srv'"
  "AddCounterName E i s b srv = Some srv' \<Longrightarrow> untouched srv srv'"
  "DeleteCounterName E i s b srv = Some srv' \<Longrightarrow> untouched srv srv'"
  "WebCommandSocket.SendHealthCheck E i srv = Some srv' \<Longrightarrow> untouched srv srv'"
  "SendProcessCommandResponse E i n pt b s srv = Some srv' \<Longrightarrow> untouched srv srv'"
  "SendCounterCommandResponse E i n ct b s srv = Some srv' \<Longrightarrow> untouched srv srv'"
  by (simp_all add: AgentSocket.SendHealthCheck_def SendAgentIDResponse_def SendStartRecord_def
      AddProcessName_def DeleteProcessName_def AddCounterName_def DeleteCounterName_def
      SendProcessCommand_def SendCounterCommand_def WebCommandSocket.SendHealthCheck_def
      SendProcessCommandResponse_def SendCounterCommandResponse_def untouched_send)

text \<open>Two or three operations in sequence.\<close>

lemma untouched_bind:
  assumes "Option.bind (f srv) g = Some srv'" "\<And>x srv1. f srv = Some (x, srv1) \<Longrightarrow> untouched srv srv1"
    and "\<And>x srv1. g (x, srv1) = Some srv' \<Longrightarrow> untouched srv1 srv'"
  shows "untouched srv srv'"
  using assms by (cases "f srv") (auto intro: untouched_trans)

lemma untouched_lists_sent [untouched_rules]:
  "SendProcessListResponse E i srv = Some srv' \<Longrightarrow> untouched srv srv'"
  "SendCounterListResponse E i b srv = Some srv' \<Longrightarrow> untouched srv srv'"
  unfolding SendProcessListResponse_def SendCounterListResponse_def
  by (erule untouched_bind; auto intro: untouched_rules split: if_splits)+

lemma untouched_report [untouched_rules]:
  "handle_report save i p srv = Some srv' \<Longrightarrow> untouched srv srv'"
  by (auto simp: handle_report_def intro: untouched_rules)

lemma untouched_counter_request [untouched_rules]:
  "handle_CounterListRequest E i p srv = Some srv' \<Longrightarrow> untouched srv srv'"
  by (auto simp: handle_CounterListRequest_def intro: untouched_rules split: option.splits)

lemma untouched_ready [untouched_rules]:
  assumes "handle_AgentReady E now i srv = Some srv'"
  shows "untouched srv srv'"
proof -
  obtain x srv1 srv2 where "on_agentRedis
      (ChangeAgentState_startRecording E now (token (agents srv i)) (-1) 10 1 0) srv = Some (x, srv1)"
    and s: "SendStartRecord E i True (-1) 10 1 0 srv1 = Some srv2"
      "SendStartRecord E i False (-1) 10 1 0 srv2 = Some srv'"
    using assms by (auto simp: handle_AgentReady_def split: bind_splits)
  then have "untouched srv srv1" by (blast intro: untouched_rules)
  from untouched_trans [OF untouched_trans [OF this untouched_commands(3) [OF s(1)]]
      untouched_commands(3) [OF s(2)]] show ?thesis .
qed

lemma untouched_id_request [untouched_rules]:
  assumes "handle_AgentIDRequest E i p srv = Some srv'"
  shows "untouched srv srv'"
proof (cases "csAgentIDRequest_parse (RedisManager.wire E) (payload p)")
  case (Some msg)
  let ?t = "get_or 0 (idreq_token msg)" and ?ip = "get_or 0 (idreq_hostIP msg)"
  let ?f = "\<lambda>s. s\<lparr>token := ?t, hostIP := ?ip\<rparr>"
  show ?thesis
  proof (cases "GetAgentSocketByToken ?t srv")
    case None
    then obtain x n srv1 srv2 where
      "on_agentRedis (InitAgent E ?t ?ip (get_or 0 (idreq_ramSize msg))) (agent_update i ?f srv) = Some (x, srv1)"
      "FindAgentID E ?t srv1 = Some (n, srv2)"
      "SendAgentIDResponse E i n False (agent_update i (\<lambda>s. s\<lparr>agentID := n\<rparr>) srv2) = Some srv'"
      using assms Some by (auto simp: handle_AgentIDRequest_def Let_def split: bind_splits)
    note untouched_store(1) [OF this(1)] untouched_store(1) [OF this(2) [unfolded FindAgentID_def]]
      untouched_commands(2) [OF this(3)]
    moreover have "untouched srv (agent_update i ?f srv)"
      "untouched srv2 (agent_update i (\<lambda>s. s\<lparr>agentID := n\<rparr>) srv2)" by simp_all
    ultimately show ?thesis by (meson untouched_trans)
  next
    case (Some j)
    with assms \<open>_ = Some msg\<close> have "SendAgentIDResponse E i (-1) True srv = Some srv'"
      by (simp add: handle_AgentIDRequest_def)
    then show ?thesis by (rule untouched_commands(2))
  qed
qed (use assms in \<open>simp add: handle_AgentIDRequest_def\<close>)

lemma untouched_tell [untouched_rules]:
  "tell_agent (\<lambda>ag. AddProcessName E ag name) ag srv = Some srv' \<Longrightarrow> untouched srv srv'"
  "tell_agent (\<lambda>ag. DeleteProcessName E ag name) ag srv = Some srv' \<Longrightarrow> untouched srv srv'"
  "tell_agent (\<lambda>ag. AddCounterName E ag name b) ag srv = Some srv' \<Longrightarrow> untouched srv srv'"
  "tell_agent (\<lambda>ag. DeleteCounterName E ag name b) ag srv = Some srv' \<Longrightarrow> untouched srv srv'"
  by (auto simp: tell_agent_def split: option.splits intro: untouched_rules)

lemma untouched_process_command [untouched_rules]:
  "process_command E n t ty name srv = Some (r, srv') \<Longrightarrow> untouched srv srv'"
  by (auto simp: process_command_def split: if_splits bind_splits
      intro: untouched_store(2) untouched_trans [OF untouched_store(2) untouched_tell(1)]
        untouched_trans [OF untouched_store(2) untouched_tell(2)])

lemma untouched_counter_command [untouched_rules]:
  "counter_command E n ty b ag name srv = Some (r, srv') \<Longrightarrow> untouched srv srv'"
  by (auto simp: counter_command_def split: if_splits bind_splits option.splits
      intro: untouched_store(2) untouched_trans [OF untouched_store(2) untouched_tell(3)]
        untouched_trans [OF untouched_store(2) untouched_tell(4)])

lemma untouched_counter_commands [untouched_rules]:
  "counter_commands E n ty b ag names r0 srv = Some (r, srv') \<Longrightarrow> untouched srv srv'"
proof (induction names arbitrary: r0 srv)
  case (Cons name names)
  then obtain c srv1 where "counter_command E n ty b ag name srv = Some (c, srv1)"
    "counter_commands E n ty b ag names (r0 \<or> c) srv1 = Some (r, srv')"
    by (auto split: bind_splits)
  from untouched_trans [OF untouched_counter_command [OF this(1)] Cons.IH [OF this(2)]] show ?case .
qed simp

lemma untouched_web_requests [untouched_rules]:
  "handle_ProcessCommandRequest E i p srv = Some srv' \<Longrightarrow> untouched srv srv'"
  "handle_CounterCommandRequest E i p srv = Some srv' \<Longrightarrow> untouched srv srv'"
  by (auto simp: handle_ProcessCommandRequest_def handle_CounterCommandRequest_def Let_def
      split: option.splits bind_splits
      intro: untouched_trans [OF untouched_store(1)
                 untouched_trans [OF untouched_process_command untouched_commands(9)]]
             untouched_trans [OF untouched_store(1)
                 untouched_trans [OF untouched_counter_commands untouched_commands(10)]])

lemma untouched_web_packet [untouched_rules]:
  "WebCommandSocket.PacketHandling E i b p srv = Some srv' \<Longrightarrow> untouched srv srv'"
  by (auto simp: WebCommandSocket.PacketHandling_def WebCommandSocket.handle_packet_def
      WebCommandSocket.free_packet_def split: if_splits option.splits psmType.splits
      intro: untouched_trans [OF untouched_web_requests(1) untouched_update(1)]
        untouched_trans [OF untouched_web_requests(2) untouched_update(1)]
        untouched_trans [OF untouched_update(1) untouched_update(1)])

lemma untouched_ask_webs: "ask_webs E is srv = Some srv' \<Longrightarrow> untouched srv srv'"
proof (induction "is" arbitrary: srv)
  case (Cons i "is")
  then obtain srv1 where "WebCommandSocket.SendHealthCheck E i (web_update i (\<lambda>s. s\<lparr>webHealthCheck := False\<rparr>) srv) = Some srv1"
    "ask_webs E is srv1 = Some srv'" by (auto split: bind_splits)
  from untouched_trans [OF untouched_trans [OF untouched_update(1) untouched_commands(8) [OF this(1)]]
      Cons.IH [OF this(2)]]
  show ?case .
qed simp

lemma untouched_reap_webs: "untouched srv (reap_webs is srv)"
  by (induction "is" arbitrary: srv) (auto intro: untouched_trans untouched_disconnect)

lemma untouched_phase [simp]:
  "untouched srv (srv'\<lparr>webHeartbeat := x\<rparr>) \<longleftrightarrow> untouched srv srv'"
  by (simp add: untouched_def accept_calls_def)

subsection \<open>One step\<close>

lemma health_agent_packet:
  assumes "AgentSocket.PacketHandling E now i b p srv = Some srv'"
  shows "untouched (if agentType_of (ptype p) = Some agentType.HealthAck
    then agent_update i (\<lambda>s. s\<lparr>healthCheck := True\<rparr>) srv else srv) srv'"
proof -
  obtain srv1 where h: "AgentSocket.handle_packet E now i p srv = Some srv1"
    and s: "srv' = AgentSocket.free_packet i b srv1"
    using assms by (auto simp: AgentSocket.PacketHandling_def split: if_splits)
  have "untouched srv1 srv'" by (simp add: s AgentSocket.free_packet_def)
  moreover have "untouched (if agentType_of (ptype p) = Some agentType.HealthAck
    then agent_update i (\<lambda>s. s\<lparr>healthCheck := True\<rparr>) srv else srv) srv1"
    using h by (auto simp: AgentSocket.handle_packet_def split: option.splits agentType.splits
        intro: untouched_rules)
  ultimately show ?thesis by (metis untouched_trans)
qed

lemma untouched_disconn [untouched_rules]:
  assumes "AgentSocket.DisconnProcess E isErr i srv = Some srv'"
  shows "untouched srv srv'"
proof (cases isErr)
  case False
  then obtain x y srv1 srv2 where
    "on_agentRedis (ChangeAgentState_isOn E (token (agents srv i)) False) srv = Some (x, srv1)"
    "on_agentRedis (ChangeAgentState_stopRecording E (token (agents srv i))) srv1 = Some (y, srv2)"
    and s: "srv' = DeleteAgent i srv2"
    using assms by (auto simp: AgentSocket.DisconnProcess_def Let_def split: bind_splits)
  then have "untouched srv srv1" "untouched srv1 srv2" by (blast intro: untouched_rules)+
  then show ?thesis unfolding s by (metis untouched_trans untouched_lists(1))
qed (use assms in \<open>simp add: AgentSocket.DisconnProcess_def\<close>)

text \<open>The agents that an event gives a sign of life of.\<close>

definition answers :: "event \<Rightarrow> sid set" where
  "answers e =
     (case e of
        AgentAccept isErr i \<Rightarrow> if isErr then {} else {i}
      | Packet now b p \<Rightarrow>
          if pownert p = AGENT \<and> agentType_of (ptype p) = Some agentType.HealthAck then {powner p} else {}
      | _ \<Rightarrow> {})"

lemma step_health:
  assumes "server_step E e srv = Some srv'" "e \<noteq> AgentBeat"
  shows "healthCheck (agents srv' i) \<longleftrightarrow> healthCheck (agents srv i) \<or> i \<in> answers e"
    and "agentHeartbeat srv' = agentHeartbeat srv"
    and "set (agentList srv') \<subseteq> set (agentList srv) \<union> answers e"
proof -
  have "(healthCheck (agents srv' i) \<longleftrightarrow> healthCheck (agents srv i) \<or> i \<in> answers e) \<and>
    agentHeartbeat srv' = agentHeartbeat srv \<and> set (agentList srv') \<subseteq> set (agentList srv) \<union> answers e"
  proof (cases e)
    case (AgentAccept isErr j)
    then show ?thesis
      using assms(1)
      by (auto simp: AgentSocket.AcceptProcess_def AddAgent_def agent_update_def TcpSocket.Recv_def
          Let_def answers_def split: if_splits)
  next
    case (AgentDisconn isErr j)
    with assms(1) untouched_disconn [of E isErr j srv srv'] show ?thesis
      by (simp add: untouched_def answers_def)
  next
    case (WebAccept isErr j)
    with assms(1) show ?thesis
      by (auto simp: WebCommandSocket.AcceptProcess_def AddSocket_def web_update_def TcpSocket.Recv_def
          Let_def answers_def split: if_splits)
  next
    case (WebDisconn isErr j)
    with assms(1) show ?thesis
      by (auto simp: WebCommandSocket.DisconnProcess_def DeleteSocket_def answers_def split: if_splits)
  next
    case (Packet now b p)
    with assms(1) health_agent_packet [of E now "powner p" b p srv srv']
      untouched_web_packet [of E "powner p" b p srv srv'] show ?thesis
      by (auto simp: dispatch_packet_def untouched_def agent_update_def answers_def
          split: ownerType.splits if_splits)
  next
    case WebBeat
    have "untouched srv srv'"
      using assms(1) WebBeat untouched_ask_webs untouched_reap_webs
      by (auto simp: TcpWebCommandServer_HeartbeatCheck_def split: heartbeat.splits if_splits)
    with WebBeat show ?thesis by (simp add: untouched_def answers_def)
  next
    case (Console line)
    with assms(1) show ?thesis by (auto simp: AgentApp_End_def answers_def split: if_splits)
  qed (use assms(2) in simp)
  then show "healthCheck (agents srv' i) \<longleftrightarrow> healthCheck (agents srv i) \<or> i \<in> answers e"
    and "agentHeartbeat srv' = agentHeartbeat srv"
    and "set (agentList srv') \<subseteq> set (agentList srv) \<union> answers e" by blast+
qed

subsection \<open>The two halves of a heartbeat\<close>

lemma ask_health:
  "ask_agents E is srv = Some srv' \<Longrightarrow>
   (healthCheck (agents srv' i) \<longleftrightarrow> healthCheck (agents srv i) \<and> i \<notin> set is) \<and> agentList srv' = agentList srv"
proof (induction "is" arbitrary: srv)
  case (Cons j "is")
  let ?srv = "agent_update j (\<lambda>s. s\<lparr>healthCheck := False\<rparr>) srv"
  obtain srv1 where s: "AgentSocket.SendHealthCheck E j ?srv = Some srv1" "ask_agents E is srv1 = Some srv'"
    using Cons.prems by (auto split: bind_splits)
  have "agentList srv1 = agentList srv"
    using s(1) by (auto simp: AgentSocket.SendHealthCheck_def agent_send_def agent_update_def
        split: send_result.splits prod.splits)
  moreover have "healthCheck (agents srv1 i) \<longleftrightarrow> healthCheck (agents srv i) \<and> i \<noteq> j"
    using untouched_commands(1) [OF s(1)] by (simp add: untouched_def agent_update_def)
  ultimately show ?case using Cons.IH [OF s(2)] by auto
qed simp

lemma reap_calls:
  "distinct is \<Longrightarrow> calls (reap_agents is srv) =
     calls srv @ map (\<lambda>i. ToAgent i (TransmitFile (socket (agents srv i))))
       (filter (\<lambda>i. \<not> healthCheck (agents srv i) \<and> \<not> disconnectCall (agents srv i)) is)"
proof (induction "is" arbitrary: srv)
  case (Cons i "is")
  let ?srv = "if \<not> healthCheck (agents srv i) then disconnect_agent i srv else srv"
  have "agents ?srv j = agents srv j" if "j \<in> set is" for j
    using that Cons.prems by (auto simp: disconnect_agent_def Disconnect_def)
  then have "map (\<lambda>i. ToAgent i (TransmitFile (socket (agents ?srv i))))
       (filter (\<lambda>i. \<not> healthCheck (agents ?srv i) \<and> \<not> disconnectCall (agents ?srv i)) is) =
      map (\<lambda>i. ToAgent i (TransmitFile (socket (agents srv i))))
       (filter (\<lambda>i. \<not> healthCheck (agents srv i) \<and> \<not> disconnectCall (agents srv i)) is)"
    by (auto intro!: map_cong filter_cong)
  with Cons.IH [of ?srv] Cons.prems show ?case
    by (auto simp: disconnect_agent_def Disconnect_def)
qed simp

lemma run_health:
  "server_run E es srv = Some srv' \<Longrightarrow> AgentBeat \<notin> set es \<Longrightarrow>
   (healthCheck (agents srv' i) \<longleftrightarrow> healthCheck (agents srv i) \<or> i \<in> \<Union> (answers ` set es)) \<and>
   agentHeartbeat srv' = agentHeartbeat srv \<and>
   set (agentList srv') \<subseteq> set (agentList srv) \<union> \<Union> (answers ` set es)"
proof (induction es arbitrary: srv)
  case (Cons e es)
  obtain srv1 where s: "server_step E e srv = Some srv1" "server_run E es srv1 = Some srv'"
    using Cons.prems(1) by (auto split: bind_splits)
  have e: "e \<noteq> AgentBeat" using Cons.prems(2) by auto
  from step_health [OF s(1) e] Cons.IH [OF s(2)] Cons.prems(2) show ?case by auto
qed simp

subsection \<open>Accepts\<close>

lemma accepts_ask_agents: "ask_agents E is srv = Some srv' \<Longrightarrow> accept_calls srv' = accept_calls srv"
proof (induction "is" arbitrary: srv)
  case (Cons i "is")
  then obtain srv1 where s: "AgentSocket.SendHealthCheck E i (agent_update i (\<lambda>s. s\<lparr>healthCheck := False\<rparr>) srv) = Some srv1"
    "ask_agents E is srv1 = Some srv'" by (auto split: bind_splits)
  from untouched_commands(1) [OF s(1)] Cons.IH [OF s(2)] show ?case
    by (simp add: untouched_def accept_calls_def agent_update_def)
qed simp

lemma accepts_reap_agents: "accept_calls (reap_agents is srv) = accept_calls srv"
proof (induction "is" arbitrary: srv)
  case (Cons i "is")
  have "untouched srv (if \<not> healthCheck (agents srv i) then disconnect_agent i srv else srv)" by simp
  with Cons show ?case by (simp only: reap_agents.simps untouched_def)
qed simp

lemma step_accepts:
  assumes "server_step E e srv = Some srv'"
  shows "accept_calls srv' = accept_calls srv"
proof (cases e)
  case (AgentDisconn isErr j)
  with assms untouched_disconn [of E isErr j srv srv'] show ?thesis by (simp add: untouched_def)
next
  case (Packet now b p)
  with assms health_agent_packet [of E now "powner p" b p srv srv']
    untouched_web_packet [of E "powner p" b p srv srv'] show ?thesis
    by (auto simp: dispatch_packet_def untouched_def agent_update_def accept_calls_def
        split: ownerType.splits if_splits)
next
  case AgentBeat
  with assms accepts_ask_agents [of E "agentList srv" srv] accepts_reap_agents [of "agentList srv" srv]
  show ?thesis
    by (auto simp: TcpAgentServer_HeartbeatCheck_def accept_calls_def split: heartbeat.splits if_splits)
next
  case WebBeat
  with assms untouched_ask_webs [of E "webCommandList srv" srv]
    untouched_reap_webs [of srv "webCommandList srv"] show ?thesis
    by (auto simp: TcpWebCommandServer_HeartbeatCheck_def untouched_def accept_calls_def
        split: heartbeat.splits if_splits)
qed (use assms in \<open>auto simp: AgentSocket.AcceptProcess_def WebCommandSocket.AcceptProcess_def
       WebCommandSocket.DisconnProcess_def AgentApp_End_def AddAgent_def AddSocket_def DeleteSocket_def
       agent_update_def web_update_def TcpSocket.Recv_def Let_def accept_calls_def split: if_splits\<close>)

lemma run_accepts: "server_run E es srv = Some srv' \<Longrightarrow> accept_calls srv' = accept_calls srv"
proof (induction es arbitrary: srv)
  case (Cons e es)
  then obtain srv1 where "server_step E e srv = Some srv1" "server_run E es srv1 = Some srv'"
    by (auto split: bind_splits)
  with step_accepts [OF this(1)] Cons.IH [OF this(2)] show ?case by simp
qed simp

end
