(* ===== verification/ServerLemmas.thy ===== *)
theory ServerLemmas imports ServerRun ServerFrame begin

text \<open>
  The operations of the server step by step: the start, the registration of an agent, the packets sent,
  and the commands of the web front end.
\<close>

subsection \<open>The start\<close>

lemma init_manager_kept:
  assumes "RedisManager.Init E connected m = Some m'"
  shows "conn m' = conn m \<and> store m' = store m"
proof -
  have add: "conn m2 = conn m1 \<and> store m2 = store m1"
    if "add_counter E a b c (j, m1) = Some (k, m2)" for a b c j k m1 m2
    using that by (auto simp: add_counter_def insert_name_def split: if_splits)
  show ?thesis
    using assms by (auto simp: RedisManager.Init_def Let_def split: if_splits bind_splits dest!: add)
qed

definition started :: "'s server \<Rightarrow> 's server \<Rightarrow> bool" where
  "started srv srv' \<longleftrightarrow>
     agentList srv' = agentList srv \<and> db srv' = db srv \<and>
     conn (agentRedis srv') = conn (agentRedis srv) \<and> conn (webRedis srv') = conn (webRedis srv)"

lemma start_all_started:
  assumes "\<And>i srv srv'. f i srv = Some srv' \<Longrightarrow> started srv srv'"
  shows "start_all f is srv = Some srv' \<Longrightarrow> started srv srv'"
proof (induction "is" arbitrary: srv)
  case (Cons i "is")
  then obtain srv1 where "f i srv = Some srv1" "start_all f is srv1 = Some srv'"
    by (auto split: bind_splits)
  with assms [OF this(1)] Cons.IH [OF this(2)] show ?case by (simp add: started_def)
qed (simp add: started_def)

lemma start_sockets:
  "start_agent_socket raw handle i srv = Some srv' \<Longrightarrow> started srv srv'"
  "start_web_socket raw handle i srv = Some srv' \<Longrightarrow> started srv srv'"
  by (auto simp: start_agent_socket_def start_web_socket_def Let_def started_def)

lemma init_managers:
  "on_agentRedis (init_manager E b) srv = Some (x, srv') \<Longrightarrow> started srv srv'"
  "on_webRedis (init_manager E b) srv = Some (x, srv') \<Longrightarrow> started srv srv'"
  by (auto simp: on_agentRedis_def on_webRedis_def on_store_def init_manager_def started_def
      dest!: init_manager_kept)

lemma start_servers:
  "TcpAgentServer_Start E b raw handle srv = Some srv' \<Longrightarrow> started srv srv'"
  "TcpWebCommandServer_Start E b raw handle srv = Some srv' \<Longrightarrow> started srv srv'"
proof -
  assume "TcpAgentServer_Start E b raw handle srv = Some srv'"
  then obtain x srv1 srv2 where "on_agentRedis (init_manager E b) srv = Some (x, srv1)"
    "start_all (start_agent_socket raw handle) [0..<POOL_SIZE] srv1 = Some srv2"
    "srv' = srv2\<lparr>agentHeartbeat := Asking\<rparr>"
    by (auto simp: TcpAgentServer_Start_def split: bind_splits)
  with init_managers(1) [OF this(1)] start_all_started [OF start_sockets(1) this(2)]
  show "started srv srv'" by (simp add: started_def)
next
  assume "TcpWebCommandServer_Start E b raw handle srv = Some srv'"
  then obtain x srv1 srv2 where "on_webRedis (init_manager E b) srv = Some (x, srv1)"
    "start_all (start_web_socket raw handle) [0..<POOL_SIZE] srv1 = Some srv2"
    "srv' = srv2\<lparr>webHeartbeat := Asking\<rparr>"
    by (auto simp: TcpWebCommandServer_Start_def split: bind_splits)
  with init_managers(2) [OF this(1)] start_all_started [OF start_sockets(2) this(2)]
  show "started srv srv'" by (simp add: started_def)
qed

lemma start_inv:
  assumes "registry E V h (RedisManager.RedisManager c s)" "opened V s d = None"
    and "AgentApp_Start E b1 b2 raw ah wh (AgentApp_Init c d a0 w0 s) = Some srv"
  shows "server_inv E V h srv" "agentList srv = []" "db srv = s"
proof -
  obtain srv1 where "TcpAgentServer_Start E b1 raw ah (AgentApp_Init c d a0 w0 s) = Some srv1"
    "TcpWebCommandServer_Start E b2 raw wh srv1 = Some srv"
    using assms(3) by (auto simp: AgentApp_Start_def split: bind_splits)
  from start_servers(1) [OF this(1)] start_servers(2) [OF this(2)]
  have s: "agentList srv = []" "db srv = s" "conn (agentRedis srv) = c" "conn (webRedis srv) = d"
    by (simp_all add: started_def AgentApp_Init_def RedisManager.RedisManager_def)
  with assms(1,2) show "server_inv E V h srv"
    by (simp add: server_inv_def agrees_def registry_def idle_def RedisManager.RedisManager_def)
  show "agentList srv = []" "db srv = s" by fact+
qed

subsection \<open>Registration\<close>

definition platform_laws :: "('s, 'j) platform \<Rightarrow> ('s, 'j) laws \<Rightarrow> bool" where
  "platform_laws E V \<longleftrightarrow> store_laws E V \<and> wire_ok (RedisManager.wire E) \<and> wire_small (RedisManager.wire E)"

text \<open>The call that sends a packet to an agent or to the web front end.\<close>

definition to_agent :: "'s server \<Rightarrow> sid \<Rightarrow> int16 \<Rightarrow> byte list \<Rightarrow> server_call" where
  "to_agent srv i t ser = ToAgent i (WSASend (socket (agents srv i)) (CPacket.wire (t, ser)))"

definition to_web :: "'s server \<Rightarrow> sid \<Rightarrow> int16 \<Rightarrow> byte list \<Rightarrow> server_call" where
  "to_web srv i t ser = ToWeb i (WSASend (socket (webs srv i)) (CPacket.wire (t, ser)))"

lemma agent_send_fits:
  assumes "length ser \<le> BUFSIZE"
  shows "agent_send i t ser srv =
    Some (srv\<lparr>agents := (agents srv)(i := (agents srv i)\<lparr>wsaSendBuf := CPacket.wire (t, ser)\<rparr>),
              calls := calls srv @ [to_agent srv i t ser]\<rparr>)"
  using assms by (simp add: agent_send_def SendPacket_def Send_def to_agent_def CPacket.wire_def le16_def)

lemma web_send_fits:
  assumes "length ser \<le> BUFSIZE"
  shows "web_send i t ser srv =
    Some (srv\<lparr>webs := (webs srv)(i := (webs srv i)\<lparr>wsaSendBuf := CPacket.wire (t, ser)\<rparr>),
              calls := calls srv @ [to_web srv i t ser]\<rparr>)"
  using assms by (simp add: web_send_def SendPacket_def Send_def to_web_def CPacket.wire_def le16_def)

definition id_reply :: "('s, 'j) platform \<Rightarrow> int32 \<Rightarrow> bool \<Rightarrow> byte list" where
  "id_reply E n b =
     scAgentIDResponse_serialize (RedisManager.wire E)
       \<lparr>idrsp_agentID = Some n, idrsp_alreadyRunning = Some b\<rparr>"

lemma id_reply_sent:
  assumes "platform_laws E V"
  shows "SendAgentIDResponse E i n b srv =
    Some (srv\<lparr>agents := (agents srv)(i := (agents srv i)\<lparr>wsaSendBuf :=
                CPacket.wire (agentType_value AgentIDResponse, id_reply E n b)\<rparr>),
              calls := calls srv @ [to_agent srv i (agentType_value AgentIDResponse) (id_reply E n b)]\<rparr>)"
proof -
  have "length (id_reply E n b) \<le> BUFSIZE"
    using assms unfolding id_reply_def scAgentIDResponse_serialize_def platform_laws_def
    by (intro wire_smallD) (simp_all add: scAgentIDResponse_fields_def)
  then show ?thesis
    by (simp add: SendAgentIDResponse_def id_reply_def scAgentIDResponse_empty_def agent_send_fits)
qed

lemma health_check_sent:
  assumes "platform_laws E V"
  shows "AgentSocket.SendHealthCheck E i srv =
    Some (srv\<lparr>agents := (agents srv)(i := (agents srv i)\<lparr>wsaSendBuf := CPacket.wire
                (agentType_value agentType.HealthCheck, scHealthCheck_serialize (RedisManager.wire E) scHealthCheck)\<rparr>),
              calls := calls srv @ [to_agent srv i (agentType_value agentType.HealthCheck)
                (scHealthCheck_serialize (RedisManager.wire E) scHealthCheck)]\<rparr>)"
proof -
  have "length (scHealthCheck_serialize (RedisManager.wire E) scHealthCheck) \<le> BUFSIZE"
    using assms unfolding scHealthCheck_serialize_def platform_laws_def
    by (intro wire_smallD) (simp_all add: scHealthCheck_fields_def)
  then show ?thesis by (simp add: AgentSocket.SendHealthCheck_def agent_send_fits)
qed

lemma id_request_done:
  assumes "platform_laws E V" "registry E V h (agent_store srv)" "card (dom h) < 2 ^ 31"
    and "csAgentIDRequest_parse (RedisManager.wire E) (payload packet) = Some msg"
    and "idreq_token msg = Some t" "GetAgentSocketByToken t srv = None"
  obtains n v srv' where "handle_AgentIDRequest E i packet srv = Some srv'"
    "calls srv' = calls srv @ [to_agent srv i (agentType_value AgentIDResponse) (id_reply E n False)]"
    "token (agents srv' i) = t" "agentID (agents srv' i) = n" "agentList srv' = agentList srv"
    "\<And>j. socket (agents srv' j) = socket (agents srv j)"
    "entry_number E v = Some n" "h (to_string t) = None \<Longrightarrow> n = word_of_nat (card (dom h))"
    "\<And>w. h (to_string t) = Some w \<Longrightarrow> entry_number E w = Some n"
    "registry E V (h(to_string t \<mapsto> v)) (agent_store srv')"
    "wrote V (agent_store srv) ''AgentList'' (Some (Hash (h(to_string t \<mapsto> v)))) (agent_store srv')"
    "webs srv' = webs srv"
proof -
  have laws: "store_laws E V" using assms(1) by (simp add: platform_laws_def)
  let ?ip = "get_or 0 (idreq_hostIP msg)" and ?ram = "get_or 0 (idreq_ramSize msg)"
  let ?srv = "agent_update i (\<lambda>s. s\<lparr>token := t, hostIP := ?ip\<rparr>) srv"
  obtain m1 n v where m1: "InitAgent E t ?ip ?ram (agent_store srv) = Some (True, m1)"
    "registry E V (h(to_string t \<mapsto> v)) m1" "entry_number E v = Some n"
    "h (to_string t) = None \<Longrightarrow> n = word_of_nat (card (dom h))"
    "\<And>w. h (to_string t) = Some w \<Longrightarrow> entry_number E w = Some n"
    "wrote V (agent_store srv) ''AgentList'' (Some (Hash (h(to_string t \<mapsto> v)))) m1"
    by (rule InitAgent_registry [OF laws assms(2,3), of t ?ip ?ram]) (rule that)
  let ?srv1 = "?srv\<lparr>agentRedis := m1, db := store m1\<rparr>"
  have i: "on_agentRedis (InitAgent E t ?ip ?ram) ?srv = Some (True, ?srv1)"
    using m1(1) by (simp add: on_agentRedis_Some agent_update_def agent_store_def)
  have id: "GetAgentID E t m1 = Some (n, m1)"
    by (rule GetAgentID_known [OF laws m1(2) _ m1(3)]) simp
  then have f: "FindAgentID E t ?srv1 = Some (n, ?srv1)"
    by (simp add: FindAgentID_def on_agentRedis_Some)
  let ?srv2 = "agent_update i (\<lambda>s. s\<lparr>agentID := n\<rparr>) ?srv1"
  have "handle_AgentIDRequest E i packet srv = SendAgentIDResponse E i n False ?srv2"
    using assms(4-6) i f by (simp add: handle_AgentIDRequest_def Let_def)
  note sent = trans [OF this id_reply_sent [OF assms(1)]]
  show thesis
    by (rule that [OF sent _ _ _ _ _ m1(3-5)])
      (simp_all add: agent_update_def to_agent_def agent_store_def m1(2,6) [unfolded agent_store_def])
qed

lemma id_request_new:
  assumes "platform_laws E V" "server_inv E V h srv" "card (dom h) < 2 ^ 31"
    and "csAgentIDRequest_parse (RedisManager.wire E) (payload packet) = Some msg"
    and "idreq_token msg = Some t" "GetAgentSocketByToken t srv = None"
  obtains n srv' where "handle_AgentIDRequest E i packet srv = Some srv'"
    "calls srv' = calls srv @ [to_agent srv i (agentType_value AgentIDResponse) (id_reply E n False)]"
    "token (agents srv' i) = t" "agentID (agents srv' i) = n"
    "GetAgentID E t (agent_store srv') = Some (n, agent_store srv')"
    "agentList srv' = agentList srv"
proof -
  have laws: "store_laws E V" and reg: "registry E V h (agent_store srv)"
    using assms(1,2) by (simp_all add: platform_laws_def server_inv_def)
  obtain n v srv' where s: "handle_AgentIDRequest E i packet srv = Some srv'"
    "calls srv' = calls srv @ [to_agent srv i (agentType_value AgentIDResponse) (id_reply E n False)]"
    "token (agents srv' i) = t" "agentID (agents srv' i) = n" "agentList srv' = agentList srv"
    and v: "entry_number E v = Some n" "registry E V (h(to_string t \<mapsto> v)) (agent_store srv')"
    by (rule id_request_done [OF assms(1) reg assms(3-6), of i])
  have "GetAgentID E t (agent_store srv') = Some (n, agent_store srv')"
    by (rule GetAgentID_known [OF laws v(2) _ v(1)]) simp
  with s show thesis by (intro that)
qed

subsection \<open>The pool of sockets\<close>

lemma start_agents_done:
  "\<exists>srv'. start_all (start_agent_socket raw handle) is srv = Some srv' \<and>
     calls srv' = calls srv @ map (\<lambda>i. ToAgent i (AcceptEx (handle i))) is \<and>
     (\<forall>i. socket (agents srv' i) = (if i \<in> set is then handle i else socket (agents srv i)) \<and>
        disconnectCall (agents srv' i) = (i \<notin> set is \<and> disconnectCall (agents srv i))) \<and>
     agentHeartbeat srv' = agentHeartbeat srv \<and> webRedis srv' = webRedis srv \<and> appIsEnd srv' = appIsEnd srv"
proof (induction "is" arbitrary: srv)
  case (Cons i "is")
  obtain srv1 where s: "start_agent_socket raw handle i srv = Some srv1"
    and c: "calls srv1 = calls srv @ [ToAgent i (AcceptEx (handle i))]"
      "\<forall>j. socket (agents srv1 j) = (if j = i then handle i else socket (agents srv j)) \<and>
        disconnectCall (agents srv1 j) = (j \<noteq> i \<and> disconnectCall (agents srv j))"
      "agentHeartbeat srv1 = agentHeartbeat srv" "webRedis srv1 = webRedis srv" "appIsEnd srv1 = appIsEnd srv"
    by (auto simp: start_agent_socket_def AgentSocket.AgentSocket_def MemPooler_def InitAct_def
        TcpSocket.Init_def InitBuf_def Acceptor_Register_def Let_def)
  obtain srv' where s': "start_all (start_agent_socket raw handle) is srv1 = Some srv'"
    "calls srv' = calls srv1 @ map (\<lambda>i. ToAgent i (AcceptEx (handle i))) is"
    "\<forall>i. socket (agents srv' i) = (if i \<in> set is then handle i else socket (agents srv1 i)) \<and>
        disconnectCall (agents srv' i) = (i \<notin> set is \<and> disconnectCall (agents srv1 i))"
    "agentHeartbeat srv' = agentHeartbeat srv1" "webRedis srv' = webRedis srv1"
    "appIsEnd srv' = appIsEnd srv1"
    using Cons.IH [of srv1] by blast
  with s c show ?case by (intro exI [of _ srv']) auto
qed simp

lemma start_webs_done:
  "\<exists>srv'. start_all (start_web_socket raw handle) is srv = Some srv' \<and>
     calls srv' = calls srv @ map (\<lambda>i. ToWeb i (AcceptEx (handle i))) is \<and>
     (\<forall>i. socket (webs srv' i) = (if i \<in> set is then handle i else socket (webs srv i))) \<and>
     agents srv' = agents srv \<and> agentHeartbeat srv' = agentHeartbeat srv \<and> appIsEnd srv' = appIsEnd srv"
proof (induction "is" arbitrary: srv)
  case (Cons i "is")
  obtain srv1 where s: "start_web_socket raw handle i srv = Some srv1"
    and c: "calls srv1 = calls srv @ [ToWeb i (AcceptEx (handle i))]"
      "\<forall>j. socket (webs srv1 j) = (if j = i then handle i else socket (webs srv j))"
      "agents srv1 = agents srv" "agentHeartbeat srv1 = agentHeartbeat srv" "appIsEnd srv1 = appIsEnd srv"
    by (auto simp: start_web_socket_def WebCommandSocket.WebCommandSocket_def MemPooler_def InitAct_def
        TcpSocket.Init_def InitBuf_def Acceptor_Register_def Let_def)
  obtain srv' where s': "start_all (start_web_socket raw handle) is srv1 = Some srv'"
    "calls srv' = calls srv1 @ map (\<lambda>i. ToWeb i (AcceptEx (handle i))) is"
    "\<forall>i. socket (webs srv' i) = (if i \<in> set is then handle i else socket (webs srv1 i))"
    "agents srv' = agents srv1" "agentHeartbeat srv' = agentHeartbeat srv1"
    "appIsEnd srv' = appIsEnd srv1"
    using Cons.IH [of srv1] by blast
  with s c show ?case by (intro exI [of _ srv']) auto
qed simp

text \<open>The start fails only where the defaults cannot be set up.\<close>

lemma start_done:
  assumes "RedisManager.Init E b1 (agent_store srv) = Some m1"
    and "RedisManager.Init E b2 ((webRedis srv)\<lparr>store := store m1\<rparr>) = Some m2"
  shows "\<exists>srv'. AgentApp_Start E b1 b2 raw ah wh srv = Some srv' \<and>
    calls srv' = calls srv @ map (\<lambda>i. ToAgent i (AcceptEx (ah i))) [0..<POOL_SIZE] @
      map (\<lambda>i. ToWeb i (AcceptEx (wh i))) [0..<POOL_SIZE] \<and>
    (\<forall>i < POOL_SIZE. socket (agents srv' i) = ah i \<and> socket (webs srv' i) = wh i \<and>
       \<not> disconnectCall (agents srv' i)) \<and>
    agentHeartbeat srv' = Asking \<and> appIsEnd srv' = appIsEnd srv"
proof -
  let ?srv1 = "srv\<lparr>agentRedis := m1, db := store m1\<rparr>"
  have a: "on_agentRedis (init_manager E b1) srv = Some ((), ?srv1)"
    using assms(1) by (simp add: on_agentRedis_Some init_manager_def)
  obtain srv2 where s2: "start_all (start_agent_socket raw ah) [0..<POOL_SIZE] ?srv1 = Some srv2"
    "calls srv2 = calls srv @ map (\<lambda>i. ToAgent i (AcceptEx (ah i))) [0..<POOL_SIZE]"
    "\<forall>i < POOL_SIZE. socket (agents srv2 i) = ah i \<and> \<not> disconnectCall (agents srv2 i)" "webRedis srv2 = webRedis ?srv1"
    "appIsEnd srv2 = appIsEnd srv"
    using start_agents_done [of raw ah "[0..<POOL_SIZE]" ?srv1] by auto
  let ?srv2 = "srv2\<lparr>agentHeartbeat := Asking\<rparr>"
  have "started ?srv1 srv2" by (rule start_all_started [OF start_sockets(1) s2(1)])
  then have "db ?srv2 = store m1" by (simp add: started_def)
  with s2(4) have "web_store ?srv2 = (webRedis srv)\<lparr>store := store m1\<rparr>" by (simp add: web_store_def)
  then have w: "on_webRedis (init_manager E b2) ?srv2 = Some ((), ?srv2\<lparr>webRedis := m2, db := store m2\<rparr>)"
    using assms(2) by (simp add: on_webRedis_Some init_manager_def)
  show ?thesis
    using a s2 w start_webs_done [of raw wh "[0..<POOL_SIZE]" "?srv2\<lparr>webRedis := m2, db := store m2\<rparr>"]
    by (auto simp: AgentApp_Start_def TcpAgentServer_Start_def TcpWebCommandServer_Start_def)
qed

subsection \<open>Commands of the web front end\<close>

definition process_message :: "('s, 'j) platform \<Rightarrow> bool \<Rightarrow> string \<Rightarrow> byte list" where
  "process_message E add name =
     scProcessCommandRequest_serialize (RedisManager.wire E)
       \<lparr>pcmd_type = Some (if add then AgentProtocol.ADDLIST else AgentProtocol.DELETELIST),
        pcmd_processName = Some name\<rparr>"

definition process_answer ::
  "('s, 'j) platform \<Rightarrow> int32 \<Rightarrow> WebProtocol.ProcessCommandType \<Rightarrow> bool \<Rightarrow> byte list" where
  "process_answer E t ty success =
     swProcessCommandResponse_serialize (RedisManager.wire E)
       \<lparr>wprsp_token = Some t, wprsp_type = Some ty, wprsp_result = Some (success_result success),
        wprsp_failReason = None\<rparr>"

lemma process_message_sent:
  assumes "platform_laws E V" "length name \<le> 8000"
  shows "(if add then AddProcessName E ag name else DeleteProcessName E ag name) srv =
    Some (srv\<lparr>agents := (agents srv)(ag := (agents srv ag)\<lparr>wsaSendBuf :=
                CPacket.wire (agentType_value agentType.ProcessCommandRequest, process_message E add name)\<rparr>),
              calls := calls srv @ [to_agent srv ag (agentType_value agentType.ProcessCommandRequest)
                                      (process_message E add name)]\<rparr>)"
proof -
  have "length (process_message E add name) \<le> BUFSIZE"
    using assms unfolding process_message_def scProcessCommandRequest_serialize_def platform_laws_def
    by (intro wire_smallD) (simp_all add: scProcessCommandRequest_fields_def put_enum_defs)
  then show ?thesis
    by (cases add) (simp_all add: AddProcessName_def DeleteProcessName_def SendProcessCommand_def
        process_message_def scProcessCommandRequest_empty_def agent_send_fits)
qed

lemma process_answer_sent:
  assumes "platform_laws E V"
  shows "SendProcessCommandResponse E i t ty r [] srv =
    Some (srv\<lparr>webs := (webs srv)(i := (webs srv i)\<lparr>wsaSendBuf :=
                CPacket.wire (psmType_value ProcessCommandResponse, process_answer E t ty r)\<rparr>),
              calls := calls srv @ [to_web srv i (psmType_value ProcessCommandResponse) (process_answer E t ty r)]\<rparr>)"
proof -
  have "length (process_answer E t ty r) \<le> BUFSIZE"
    using assms unfolding process_answer_def swProcessCommandResponse_serialize_def platform_laws_def
    by (intro wire_smallD) (simp_all add: swProcessCommandResponse_fields_def
        WebProtocol.put_ProcessCommandType_def put_Result_def)
  then show ?thesis
    by (simp add: SendProcessCommandResponse_def process_answer_def swProcessCommandResponse_empty_def
        web_send_fits)
qed

text \<open>The number that commands for a token go to.\<close>

definition command_number :: "('s, 'j) platform \<Rightarrow> (string \<Rightarrow> string option) \<Rightarrow> int32 \<Rightarrow> int32" where
  "command_number E h t = (case number E h t of None \<Rightarrow> -1 | Some n \<Rightarrow> n)"

lemma GetAgentID_number:
  assumes "store_laws E V" "registry E V h m"
  shows "GetAgentID E t m = Some (command_number E h t, m)"
proof (cases "h (to_string t)")
  case None
  with lookup_unknown(2) [OF assms None] show ?thesis by (simp add: command_number_def number_def)
next
  case (Some v)
  then obtain n where "entry_number E v = Some n"
    using assms(2) numbered_number [of E h "to_string t" v] by (auto simp: registry_def)
  with GetAgentID_known [OF assms Some this] Some show ?thesis
    by (simp add: command_number_def number_def)
qed

text \<open>The change of a set of watched processes, by the manager of the web server.\<close>

lemma changed_processes:
  assumes "set_laws E V" "idle V m" "set_at (keys_of V m) (process_list n) = Some A"
  obtains m' where
    "(if add then SetProcessName E n name else RemProcessName E n name) m =
       Some (if add then name \<notin> A else name \<in> A, m')"
    "set_at (keys_of V m') (process_list n) = Some (if add then insert name A else A - {name})"
    "m' = m\<lparr>store := store m'\<rparr>"
proof (cases add)
  case True
  obtain m' where "redis_command E [''sadd'', process_list n, name] m =
      Some (RedisValue_int (if name \<in> A then 0 else 1), m')"
    "wrote V m (process_list n) (Some (Set (insert name A))) m'"
    using cmd_sadd [OF assms, of name] by blast
  with True show thesis
    by (intro that [of m'])
      (auto simp: SetProcessName_def changes_set_def redis_observers wrote_keys wrote_def)
next
  case False
  obtain m' where "redis_command E [''srem'', process_list n, name] m =
      Some (RedisValue_int (if name \<in> A then 1 else 0), m')"
    "wrote V m (process_list n) (if A - {name} = {} then None else Some (Set (A - {name}))) m'"
    using cmd_srem [OF assms, of name] by blast
  with False show thesis
    by (intro that [of m'])
      (auto simp: RemProcessName_def changes_set_def redis_observers wrote_keys wrote_def set_at_def)
qed

text \<open>The packets that a command causes: one to the agent, if the list changed, and the answer.\<close>

definition process_calls ::
  "('s, 'j) platform \<Rightarrow> 's server \<Rightarrow> sid \<Rightarrow> int32 \<Rightarrow> bool \<Rightarrow> string \<Rightarrow> bool \<Rightarrow> server_call list" where
  "process_calls E srv i t add name changed =
     (case GetAgentSocketByToken t srv of
        None \<Rightarrow> []
      | Some ag \<Rightarrow>
          if changed
          then [to_agent srv ag (agentType_value agentType.ProcessCommandRequest) (process_message E add name)]
          else []) @
     [to_web srv i (psmType_value ProcessCommandResponse)
        (process_answer E t (if add then WebProtocol.ADDLIST else WebProtocol.DELETELIST) changed)]"

lemma process_command_done:
  assumes "platform_laws E V" "calm V srv" "length name \<le> 8000"
    and "set_at (keys V (db srv)) (process_list n) = Some A"
  obtains srv' where
    "process_command E n t (if add then WebProtocol.ADDLIST else WebProtocol.DELETELIST) name srv =
       Some (if add then name \<notin> A else name \<in> A, srv')"
    "set_at (keys V (db srv')) (process_list n) = Some (if add then insert name A else A - {name})"
    "webs srv' = webs srv" "calls srv' = calls srv @
      (case GetAgentSocketByToken t srv of
         None \<Rightarrow> []
       | Some ag \<Rightarrow>
          if (if add then name \<notin> A else name \<in> A)
          then [to_agent srv ag (agentType_value agentType.ProcessCommandRequest) (process_message E add name)]
          else [])"
proof -
  have "set_laws E V" using assms(1) by (simp add: platform_laws_def store_laws_def)
  then obtain m' where m': "(if add then SetProcessName E n name else RemProcessName E n name) (web_store srv) =
       Some (if add then name \<notin> A else name \<in> A, m')"
    "set_at (keys_of V m') (process_list n) = Some (if add then insert name A else A - {name})"
    using assms(2,4) by (elim changed_processes [where m = "web_store srv"]) (auto simp: calm_def)
  let ?srv = "srv\<lparr>webRedis := m', db := store m'\<rparr>"
  have ag: "GetAgentSocketByToken t ?srv = GetAgentSocketByToken t srv"
    "to_agent ?srv j ty ser = to_agent srv j ty ser" for j ty ser
    by (simp_all add: GetAgentSocketByToken_def to_agent_def)
  have r: "on_webRedis (if add then SetProcessName E n name else RemProcessName E n name) srv =
      Some (if add then name \<notin> A else name \<in> A, ?srv)"
    using m'(1) by (simp only: on_webRedis_Some) blast
  have step: "process_command E n t (if add then WebProtocol.ADDLIST else WebProtocol.DELETELIST) name srv =
      Option.bind (if (if add then name \<notin> A else name \<in> A)
          then tell_agent (\<lambda>j. if add then AddProcessName E j name else DeleteProcessName E j name)
            (GetAgentSocketByToken t srv) ?srv
          else Some ?srv) (\<lambda>srv. Some (if add then name \<notin> A else name \<in> A, srv))"
    using r ag by (cases add) (simp_all add: process_command_def)
  show thesis
  proof (cases "\<exists>j. GetAgentSocketByToken t srv = Some j \<and> (if add then name \<notin> A else name \<in> A)")
    case True
    then obtain j where j: "GetAgentSocketByToken t srv = Some j" "if add then name \<notin> A else name \<in> A"
      by blast
    note sent = process_message_sent [OF assms(1,3), of add j ?srv, unfolded ag(2)]
    have "process_command E n t (if add then WebProtocol.ADDLIST else WebProtocol.DELETELIST) name srv =
        map_option (Pair (if add then name \<notin> A else name \<in> A))
          ((if add then AddProcessName E j name else DeleteProcessName E j name) ?srv)"
      using step j by (cases add) (simp_all add: tell_agent_def map_conv_bind_option o_def)
    note applied = this [unfolded sent option.map]
    show thesis by (rule that [OF applied]) (use j m'(2) in simp_all)
  next
    case False
    with step m'(2) show thesis
      by (cases add) (auto intro!: that [of ?srv] simp: tell_agent_def split: option.splits)
  qed
qed

end
