(* ===== verification/DemoServer.thy ===== *)
theory DemoServer imports ServerLemmas begin

text \<open>
  A started server on the platform of \<open>DemoPlatform\<close>, for the witnesses: it accepts an agent on its
  first socket, and the agent registers the token 7.
\<close>

definition demo_raw :: TcpSocket where
  "demo_raw = \<lparr>socket = -1, disconnectCall = False, acceptBuf = [], recvBuf = [], sendBuf = [],
     wsaRecvBuf = (0, 0), wsaSendBuf = [], act = (\<lambda>_. None)\<rparr>"

definition demo_handle :: "sid \<Rightarrow> int" where "demo_handle i = int i + 1"

definition demo_init :: "demo server" where
  "demo_init = AgentApp_Init 0 1 (\<lambda>i. the (AgentSocket.AgentSocket i demo_raw))
     (\<lambda>i. the (WebCommandSocket.WebCommandSocket i demo_raw)) demo_empty"

definition demo_start :: "demo server option" where
  "demo_start = AgentApp_Start demo_E True True (\<lambda>_. demo_raw) demo_handle demo_handle demo_init"

lemma demo_json_sets:
  "json_sets demo_E ((k, v) # kvs) JNull = json_sets demo_E kvs (JObj [(k, scalar_text v)])"
  "json_sets demo_E ((k, v) # kvs) (JObj xs) = json_sets demo_E kvs (JObj ((k, scalar_text v) # xs))"
  by (simp_all add: demo_E_def demo_set_def)

lemma demo_add_counter:
  "add_counter demo_E n c u (JNull, m) = Some (JObj [(''unit'', scalar_text (json_string demo_E u)),
     (''counter'', scalar_text (json_string demo_E c)), (''name'', scalar_text (json_string demo_E n))], insert_name c n m)"
  "add_counter demo_E n c u (JObj xs, m) = Some (JObj ((''unit'', scalar_text (json_string demo_E u)) #
     (''counter'', scalar_text (json_string demo_E c)) # (''name'', scalar_text (json_string demo_E n)) # xs), insert_name c n m)"
  by (simp_all add: add_counter_def demo_json_sets del: json_sets.simps(2))

lemma demo_Init: "\<exists>m'. RedisManager.Init demo_E True m = Some m'"
proof -
  have null: "json_null demo_E = JNull" by (simp add: demo_E_def)
  show ?thesis by (simp add: RedisManager.Init_def Let_def null demo_add_counter)
qed

lemma demo_platform: "platform_laws demo_E demo_V"
proof -
  have "RedisManager.wire demo_E = proto_wire" by (simp add: demo_E_def)
  then show ?thesis by (simp add: platform_laws_def demo_laws proto_wire_ok proto_wire_small)
qed

lemma demo_started:
  obtains srv where "demo_start = Some srv" "server_inv demo_E demo_V Map.empty srv" "agentList srv = []"
    "socket (agents srv 0) = 1" "socket (webs srv 0) = 1" "agentHeartbeat srv = Asking" "\<not> appIsEnd srv"
    "db srv = demo_empty" "\<not> disconnectCall (agents srv 0)"
proof -
  obtain m1 where m1: "RedisManager.Init demo_E True (agent_store demo_init) = Some m1"
    using demo_Init by blast
  obtain m2 where m2: "RedisManager.Init demo_E True ((webRedis demo_init)\<lparr>store := store m1\<rparr>) = Some m2"
    using demo_Init by blast
  obtain srv where s: "demo_start = Some srv" "agentHeartbeat srv = Asking"
    "\<forall>i < POOL_SIZE. socket (agents srv i) = demo_handle i \<and> socket (webs srv i) = demo_handle i \<and> \<not> disconnectCall (agents srv i)"
    "\<not> appIsEnd srv"
    using start_done [OF m1 m2, of "\<lambda>_. demo_raw" demo_handle demo_handle]
    unfolding demo_start_def by (auto simp: demo_init_def AgentApp_Init_def)
  note start = start_inv [OF _ _ s(1) [unfolded demo_start_def demo_init_def], of demo_V Map.empty]
  have "registry demo_E demo_V Map.empty (RedisManager.RedisManager 0 demo_empty)"
    using demo_registry by (simp add: demo_manager_def)
  moreover have "opened demo_V demo_empty 1 = None" by (simp add: demo_V_def demo_empty_def)
  ultimately show thesis
    using s start by (intro that [of srv]) (simp_all add: demo_handle_def POOL_SIZE_def)
qed

subsection \<open>An agent that registers\<close>

definition demo_id_msg :: csAgentIDRequest where
  "demo_id_msg = \<lparr>idreq_token = Some 7, idreq_hostIP = Some 1, idreq_ramSize = Some 0\<rparr>"

definition demo_id_packet :: CPacket where
  "demo_id_packet = demo_packet (csAgentIDRequest_serialize proto_wire demo_id_msg)"

lemma demo_wire [simp]: "RedisManager.wire demo_E = proto_wire"
  by (simp add: demo_E_def)

lemma demo_id_parse: "csAgentIDRequest_parse proto_wire (payload demo_id_packet) = Some demo_id_msg"
proof -
  have "length (csAgentIDRequest_serialize proto_wire demo_id_msg) \<le> 31"
    unfolding csAgentIDRequest_serialize_def
    by (rule wire_smallD [OF proto_wire_small])
      (simp_all add: csAgentIDRequest_fields_def demo_id_msg_def)
  then show ?thesis
    unfolding demo_id_packet_def
    by (subst demo_packet_payload)
      (simp_all add: csAgentIDRequest_roundtrip proto_wire_ok csAgentIDRequest_initialized_def demo_id_msg_def)
qed

lemma demo_id_type [simp]: "ptype demo_id_packet = agentType_value AgentIDRequest"
  "pownert demo_id_packet = AGENT" "powner demo_id_packet = 0"
  by (simp_all add: demo_id_packet_def demo_packet_def agentType_value_def)

text \<open>The server after it has accepted the agent.\<close>

lemma demo_accepted:
  obtains srv0 srv where "demo_start = Some srv0" "server_run demo_E [AgentAccept False 0] srv0 = Some srv"
    "server_inv demo_E demo_V Map.empty srv" "agentList srv = [0]" "token (agents srv 0) = -1"
    "socket (agents srv 0) = 1" "socket (webs srv 0) = 1" "agentHeartbeat srv = Asking" "\<not> appIsEnd srv"
    "\<not> disconnectCall (agents srv 0)" "db srv = demo_empty"
proof -
  obtain srv where s: "demo_start = Some srv" "server_inv demo_E demo_V Map.empty srv" "agentList srv = []"
    "socket (agents srv 0) = 1" "socket (webs srv 0) = 1" "agentHeartbeat srv = Asking" "\<not> appIsEnd srv"
    "db srv = demo_empty" "\<not> disconnectCall (agents srv 0)"
    using demo_started .
  then show thesis
    using accept_inv [OF s(2), of 0 False]
    by (intro that [of srv "AgentSocket.AcceptProcess False 0 srv"])
      (simp_all add: AgentSocket.AcceptProcess_def AddAgent_def agent_update_def TcpSocket.Recv_def Let_def)
qed

definition demo_events :: "event list" where
  "demo_events = [AgentAccept False 0, Packet 0 (0, 0) demo_id_packet]"

lemma demo_registered:
  obtains srv0 srv where "demo_start = Some srv0" "server_run demo_E demo_events srv0 = Some srv"
    "agentList srv = [0]" "token (agents srv 0) = 7"
proof -
  obtain srv0 srv where s: "demo_start = Some srv0" "server_run demo_E [AgentAccept False 0] srv0 = Some srv"
    "server_inv demo_E demo_V Map.empty srv" "agentList srv = [0]" "token (agents srv 0) = -1"
    "socket (agents srv 0) = 1"
    using demo_accepted .
  have none: "GetAgentSocketByToken 7 srv = None" using s(4,5) by (simp add: by_token_None)
  obtain n srv' where "handle_AgentIDRequest demo_E 0 demo_id_packet srv = Some srv'"
    "token (agents srv' 0) = 7" "agentList srv' = agentList srv"
    by (rule id_request_new [OF demo_platform s(3) _ _ _ none, of demo_id_packet demo_id_msg 0])
      (use demo_id_parse in \<open>simp_all add: demo_id_msg_def\<close>)
  then show thesis
    using s
    by (intro that [of srv0 "AgentSocket.free_packet 0 (0, 0) srv'"])
      (auto simp: demo_events_def dispatch_packet_def AgentSocket.PacketHandling_def
        AgentSocket.handle_packet_def AgentSocket.free_packet_def agent_update_def)
qed

end
