(* ===== verification/ServerProperties.thy ===== *)
theory ServerProperties imports DemoServer begin

text \<open>
  What the server guarantees: the identity of the connected agents, the registration, the commands of
  the web front end, the heartbeat and the pool of sockets.
\<close>

subsection \<open>Who is connected\<close>





subsection \<open>Registration\<close>

text \<open>
  C9. An \<open>AgentIDRequest\<close> is always answered. If a connected agent has the token already, the answer
  says so, and neither the store nor any socket's token changes; otherwise the socket takes the
  token, and the answer carries the number under which the store now knows it.
\<close>

theorem AgentIDRequest_answered:
  assumes "platform_laws E V" and "server_inv E V h srv" and "card (dom h) < 2 ^ 31"
    and "socket (agents srv i) \<noteq> 0" and "ptype packet = agentType_value AgentIDRequest"
    and "csAgentIDRequest_parse (RedisManager.wire E) (payload packet) = Some msg"
    and "idreq_token msg = Some t"
  shows "\<exists>srv'. AgentSocket.PacketHandling E now i b packet srv = Some srv' \<and>
    (if \<exists>j \<in> set (agentList srv). token (agents srv j) = t
     then calls srv' = calls srv @ [to_agent srv i (agentType_value AgentIDResponse) (id_reply E (-1) True)] \<and>
       db srv' = db srv \<and> (\<forall>j. token (agents srv' j) = token (agents srv j))
     else \<exists>n. calls srv' = calls srv @ [to_agent srv i (agentType_value AgentIDResponse) (id_reply E n False)] \<and>
       token (agents srv' i) = t \<and> agentID (agents srv' i) = n \<and>
       GetAgentID E t (agent_store srv') = Some (n, agent_store srv'))"
proof (cases "GetAgentSocketByToken t srv")
  case None
  obtain n srv1 where "handle_AgentIDRequest E i packet srv = Some srv1"
    "calls srv1 = calls srv @ [to_agent srv i (agentType_value AgentIDResponse) (id_reply E n False)]"
    "token (agents srv1 i) = t" "agentID (agents srv1 i) = n"
    "GetAgentID E t (agent_store srv1) = Some (n, agent_store srv1)"
    using id_request_new [OF assms(1-3,6,7) None] by metis
  moreover have "agent_store (AgentSocket.free_packet i b srv1) = agent_store srv1"
    by (simp add: AgentSocket.free_packet_def agent_update_def agent_store_def)
  ultimately show ?thesis
    using assms(4,5) None
    by (auto simp: AgentSocket.PacketHandling_def AgentSocket.handle_packet_def by_token_None
        AgentSocket.free_packet_def agent_update_def)
next
  case (Some j)
  with by_token_Some [OF Some] show ?thesis
    using assms(4-7)
    by (auto simp: AgentSocket.PacketHandling_def AgentSocket.handle_packet_def handle_AgentIDRequest_def
        id_reply_sent [OF assms(1)] AgentSocket.free_packet_def agent_update_def)
qed

theorem AgentIDRequest_answered_witness:
  "\<exists>srv srv' n. agentList srv = [0] \<and>
     AgentSocket.PacketHandling demo_E 0 0 (0, 0) demo_id_packet srv = Some srv' \<and>
     calls srv' = calls srv @ [to_agent srv 0 (agentType_value AgentIDResponse) (id_reply demo_E n False)] \<and>
     token (agents srv' 0) = 7 \<and> GetAgentID demo_E 7 (agent_store srv') = Some (n, agent_store srv')"
proof -
  obtain srv0 srv where s: "server_inv demo_E demo_V Map.empty srv" "agentList srv = [0]"
    "token (agents srv 0) = -1" "socket (agents srv 0) = 1"
    by (rule demo_accepted) (blast intro: that)
  show ?thesis
    using AgentIDRequest_answered [OF demo_platform s(1), of 0 demo_id_packet demo_id_msg 7 0 "(0, 0)"]
      demo_id_parse s by (force simp: demo_id_msg_def)
qed

subsection \<open>The pool of sockets\<close>

text \<open>
  C37. The pool of sockets is used up: a started server has posted one accept for each of its hundred
  agent sockets and hundred web sockets, and nothing that happens later posts another, so each socket
  serves one connection in the life of the process.
\<close>

theorem accepts_posted_once:
  assumes "AgentApp_Start E b1 b2 raw ah wh (AgentApp_Init c d a0 w0 s) = Some srv0"
    and "server_run E es srv0 = Some srv"
  shows "accept_calls srv =
    map (\<lambda>i. ToAgent i (AcceptEx (ah i))) [0..<POOL_SIZE] @
    map (\<lambda>i. ToWeb i (AcceptEx (wh i))) [0..<POOL_SIZE]"
proof -
  obtain u srv1 srv2 u' srv3 srv4 where
    s: "on_agentRedis (init_manager E b1) (AgentApp_Init c d a0 w0 s) = Some (u, srv1)"
      "start_all (start_agent_socket raw ah) [0..<POOL_SIZE] srv1 = Some srv2"
      "on_webRedis (init_manager E b2) (srv2\<lparr>agentHeartbeat := Asking\<rparr>) = Some (u', srv3)"
      "start_all (start_web_socket raw wh) [0..<POOL_SIZE] srv3 = Some srv4"
      "srv0 = srv4\<lparr>webHeartbeat := Asking\<rparr>"
    using assms(1)
    by (auto simp: AgentApp_Start_def TcpAgentServer_Start_def TcpWebCommandServer_Start_def split: bind_splits)
  have "calls srv1 = []" using s(1) by (auto simp: on_agentRedis_Some AgentApp_Init_def)
  then have "calls srv2 = map (\<lambda>i. ToAgent i (AcceptEx (ah i))) [0..<POOL_SIZE]"
    using start_agents_done [of raw ah "[0..<POOL_SIZE]" srv1] s(2) by auto
  moreover have "calls srv3 = calls srv2" using s(3) by (auto simp: on_webRedis_Some)
  moreover have "calls srv4 = calls srv3 @ map (\<lambda>i. ToWeb i (AcceptEx (wh i))) [0..<POOL_SIZE]"
    using start_webs_done [of raw wh "[0..<POOL_SIZE]" srv3] s(4) by auto
  ultimately have "accept_calls srv0 = map (\<lambda>i. ToAgent i (AcceptEx (ah i))) [0..<POOL_SIZE] @
      map (\<lambda>i. ToWeb i (AcceptEx (wh i))) [0..<POOL_SIZE]"
    using s(5) by (simp add: accept_calls_def filter_map o_def)
  moreover have "accept_calls srv = accept_calls srv0" by (rule run_accepts [OF assms(2)])
  ultimately show ?thesis by simp
qed

theorem accepts_posted_once_witness:
  "\<exists>srv0 srv. demo_start = Some srv0 \<and> server_run demo_E [AgentAccept False 0] srv0 = Some srv \<and>
     length (accept_calls srv) = 200"
proof -
  obtain srv0 srv where s: "demo_start = Some srv0" "server_run demo_E [AgentAccept False 0] srv0 = Some srv"
    by (rule demo_accepted) (blast intro: that)
  from accepts_posted_once [OF s(1) [unfolded demo_start_def demo_init_def] s(2)] s show ?thesis
    by (auto simp: POOL_SIZE_def)
qed

subsection \<open>Heartbeats\<close>

text \<open>
  C6. The heartbeat disconnects exactly the silent agents: whatever happens between the question and the
  end of the pause, a \<open>TransmitFile\<close> that disconnects goes to each agent in the list that has neither
  answered nor been accepted in between, unless it is being disconnected already, and to no other.
\<close>

theorem heartbeat_reaps_silent:
  assumes "agentHeartbeat srv = Asking" and "\<not> appIsEnd srv"
    and "server_run E (AgentBeat # es) srv = Some srv1" and "AgentBeat \<notin> set es"
    and "\<not> appIsEnd srv1" and "distinct (agentList srv1)"
  shows "\<exists>srv2. server_step E AgentBeat srv1 = Some srv2 \<and>
    calls srv2 = calls srv1 @
      map (\<lambda>i. ToAgent i (TransmitFile (socket (agents srv1 i))))
        (filter (\<lambda>i. i \<notin> \<Union> (answers ` set es) \<and> \<not> disconnectCall (agents srv1 i)) (agentList srv1))"
proof -
  obtain srv' where a: "ask_agents E (agentList srv) srv = Some srv'"
    and r: "server_run E es (srv'\<lparr>agentHeartbeat := Sleeping\<rparr>) = Some srv1"
    using assms(1-3) by (auto simp: TcpAgentServer_HeartbeatCheck_def split: bind_splits)
  note ask = ask_health [OF a] and run = run_health [OF r assms(4)]
  have phase: "agentHeartbeat srv1 = Sleeping" using run by simp
  have health: "healthCheck (agents srv1 i) \<longleftrightarrow> i \<in> \<Union> (answers ` set es)"
    if "i \<in> set (agentList srv1)" for i
    using ask [of i] run [of i] that by auto
  have "filter (\<lambda>i. \<not> healthCheck (agents srv1 i) \<and> \<not> disconnectCall (agents srv1 i)) (agentList srv1) =
      filter (\<lambda>i. i \<notin> \<Union> (answers ` set es) \<and> \<not> disconnectCall (agents srv1 i)) (agentList srv1)"
    using health by (intro filter_cong) simp_all
  with reap_calls [OF assms(6), of srv1] phase assms(5) show ?thesis
    by (simp add: TcpAgentServer_HeartbeatCheck_def)
qed

theorem heartbeat_reaps_silent_witness:
  "\<exists>srv srv1 srv2. agentList srv1 = [0] \<and> server_run demo_E [AgentBeat] srv = Some srv1 \<and>
     server_step demo_E AgentBeat srv1 = Some srv2 \<and>
     calls srv2 = calls srv1 @ [ToAgent 0 (TransmitFile 1)]"
proof -
  obtain srv :: "demo server" where s: "agentList srv = [0]" "agentHeartbeat srv = Asking" "\<not> appIsEnd srv"
    "socket (agents srv 0) = 1" "\<not> disconnectCall (agents srv 0)"
    by (rule demo_accepted) (blast intro: that)
  note ask = health_check_sent [OF demo_platform, of 0 "agent_update 0 (\<lambda>s. s\<lparr>healthCheck := False\<rparr>) srv"]
  obtain srv1 :: "demo server" where s1: "server_run demo_E [AgentBeat] srv = Some srv1" "agentList srv1 = [0]"
    "socket (agents srv1 0) = 1" "\<not> disconnectCall (agents srv1 0)" "\<not> appIsEnd srv1"
    using s ask by (simp add: TcpAgentServer_HeartbeatCheck_def agent_update_def)
  with heartbeat_reaps_silent [OF s(2,3) s1(1)] show ?thesis by auto
qed

subsection \<open>Commands of the web front end\<close>

text \<open>
  C7. A command that adds or removes a watched process changes the set of that agent in the store, and
  answers \<open>SUCCESS\<close> exactly when the set changed; then the agent with the token, if one is connected, is
  sent the same command. A token that nobody has is not refused: its set is the one of number -1.
\<close>

theorem ProcessCommandRequest_applied:
  assumes "platform_laws E V" and "server_inv E V h srv" and "socket (webs srv i) \<noteq> 0"
    and "ptype packet = psmType_value psmType.ProcessCommandRequest"
    and "wsProcessCommandRequest_parse (RedisManager.wire E) (payload packet) = Some
      \<lparr>wpcmd_token = Some t,
       wpcmd_type = Some (if add then WebProtocol.ADDLIST else WebProtocol.DELETELIST),
       wpcmd_processName = Some name\<rparr>"
    and "length name \<le> 8000"
    and "set_at (keys V (db srv)) (process_list (command_number E h t)) = Some A"
  shows "\<exists>srv'. WebCommandSocket.PacketHandling E i b packet srv = Some srv' \<and>
    set_at (keys V (db srv')) (process_list (command_number E h t)) =
      Some (if add then insert name A else A - {name}) \<and>
    calls srv' = calls srv @ process_calls E srv i t add name (if add then name \<notin> A else name \<in> A)"
proof -
  have laws: "store_laws E V" and reg: "registry E V h (agent_store srv)"
    using assms(1,2) by (simp_all add: platform_laws_def server_inv_def)
  let ?srv = "srv\<lparr>agentRedis := agent_store srv, db := db srv\<rparr>"
  have g: "on_agentRedis (GetAgentID E t) srv = Some (command_number E h t, ?srv)"
    using GetAgentID_number [OF laws reg, of t] by (simp add: on_agentRedis_Some)
  have calm: "calm V ?srv"
    using server_inv_calm [OF assms(2)] by (simp add: calm_def agent_store_def web_store_def idle_def)
  obtain srv1 where c: "process_command E (command_number E h t) t
        (if add then WebProtocol.ADDLIST else WebProtocol.DELETELIST) name ?srv =
       Some (if add then name \<notin> A else name \<in> A, srv1)"
    "set_at (keys V (db srv1)) (process_list (command_number E h t)) =
       Some (if add then insert name A else A - {name})"
    "webs srv1 = webs ?srv" "calls srv1 = calls ?srv @
      (case GetAgentSocketByToken t ?srv of
         None \<Rightarrow> []
       | Some ag \<Rightarrow>
          if (if add then name \<notin> A else name \<in> A)
          then [to_agent ?srv ag (agentType_value agentType.ProcessCommandRequest) (process_message E add name)]
          else [])"
    by (rule process_command_done [OF assms(1) calm assms(6), of _ A]) (use assms(7) in auto)
  have "GetAgentSocketByToken t ?srv = GetAgentSocketByToken t srv"
    "to_agent ?srv j ty ser = to_agent srv j ty ser" for j ty ser
    by (simp_all add: GetAgentSocketByToken_def to_agent_def)
  with assms(3-5) g c show ?thesis
    by (simp add: WebCommandSocket.PacketHandling_def WebCommandSocket.handle_packet_def
        handle_ProcessCommandRequest_def Let_def process_answer_sent [OF assms(1)] process_calls_def
        WebCommandSocket.free_packet_def web_update_def to_web_def split: option.splits)
qed

definition demo_web_msg :: wsProcessCommandRequest where
  "demo_web_msg = \<lparr>wpcmd_token = Some 7, wpcmd_type = Some WebProtocol.ADDLIST, wpcmd_processName = Some ''calc''\<rparr>"

definition demo_web_packet :: CPacket where
  "demo_web_packet = demo_packet (wsProcessCommandRequest_serialize proto_wire demo_web_msg)"

lemma demo_web_parse:
  "wsProcessCommandRequest_parse proto_wire (payload demo_web_packet) = Some demo_web_msg"
proof -
  have "length (wsProcessCommandRequest_serialize proto_wire demo_web_msg) \<le> 100"
    unfolding wsProcessCommandRequest_serialize_def
    by (rule wire_smallD [OF proto_wire_small])
      (simp_all add: wsProcessCommandRequest_fields_def demo_web_msg_def WebProtocol.put_ProcessCommandType_def)
  then show ?thesis
    unfolding demo_web_packet_def
    by (subst demo_packet_payload)
      (simp_all add: wsProcessCommandRequest_roundtrip proto_wire_ok wsProcessCommandRequest_initialized_def
        demo_web_msg_def)
qed

theorem ProcessCommandRequest_applied_witness:
  "\<exists>srv srv'. WebCommandSocket.PacketHandling demo_E 0 (0, 0) demo_web_packet srv = Some srv' \<and>
     set_at (keys demo_V (db srv')) (process_list (-1)) = Some {''calc''} \<and>
     calls srv' = calls srv @ process_calls demo_E srv 0 7 True ''calc'' True"
proof -
  obtain srv where s: "server_inv demo_E demo_V Map.empty srv" "socket (webs srv 0) = 1" "db srv = demo_empty"
    by (rule demo_started) (blast intro: that)
  have n: "command_number demo_E Map.empty 7 = -1" by (simp add: command_number_def number_def)
  have "set_at (keys demo_V (db srv)) (process_list (command_number demo_E Map.empty 7)) = Some {}"
    by (simp add: s(3) demo_V_def demo_empty_def set_at_def demo_view_def)
  from ProcessCommandRequest_applied [where add = True, OF demo_platform s(1) _ _ _ _ this, of 0 demo_web_packet
      "''calc''" "(0, 0)"] demo_web_parse s(2) n show ?thesis
    by (force simp: demo_web_msg_def demo_web_packet_def demo_packet_def psmType_value_def)
qed

end
