(* ===== verification/ClientState.thy ===== *)
theory ClientState imports AgentProtocol RecvFraming Decimal begin

text \<open>
  The state of the agent process: its one socket, the lists and logs of \<open>Query\<close>, its two recorders, and
  what it uses of the system. As on the server, an operation returns \<open>None\<close> where an assertion fails or
  a message does not fit into a packet.
\<close>

subsection \<open>Doubles\<close>

text \<open>\<open>==\<close> on the bits of doubles: NaN is equal to nothing, the two zeros are equal.\<close>

definition double_magnitude :: "real64 \<Rightarrow> nat" where
  "double_magnitude d = unat d mod 2 ^ 63"

definition double_nan :: "real64 \<Rightarrow> bool" where
  "double_nan d \<longleftrightarrow> 0x7FF0000000000000 < double_magnitude d"

definition double_eq :: "real64 \<Rightarrow> real64 \<Rightarrow> bool" where
  "double_eq a b \<longleftrightarrow>
     \<not> double_nan a \<and> \<not> double_nan b \<and>
     (a = b \<or> double_magnitude a = 0 \<and> double_magnitude b = 0)"

definition double_minus_one :: real64 where
  "double_minus_one = 0xBFF0000000000000"

subsection \<open>Logs and entries\<close>

text \<open>\<open>Informations.h\<close>. \<open>ProcessInfo_Agent\<close> is its name.\<close>

record log =
  timestamp :: int64
  log_v :: real64

record process_entry =
  pe_counterName :: string
  pe_processName :: string
  pe_counter :: nat
  pe_processID :: int32
  pe_logs :: "log list"

record machine_entry =
  me_counterName :: string
  me_counter :: nat
  me_logs :: "log list"

record ProcessInfo =
  proc_name :: string
  processID :: int32
  proc_number :: nat

subsection \<open>What the agent uses of the system\<close>

text \<open>
  Each call takes the state \<open>'o\<close> of the system. \<open>PdhAddCounter\<close> and \<open>PdhOpenQuery\<close> give a handle or
  fail; \<open>wait_event\<close> tells whether the event was signalled; \<open>snapshot\<close> is the list of the executables
  and ids of the running processes, in the system's order. \<open>std_sort\<close> is \<open>std::sort\<close>, which does not say
  how it orders equal elements, and the two arithmetic functions are those of doubles.
\<close>

record 'o system =
  host_address :: "'o \<Rightarrow> int32 option"
  wsa_send :: "'o \<Rightarrow> io_result \<times> 'o"
  snapshot :: "'o \<Rightarrow> (string \<times> int32) list \<times> 'o"
  std_sort :: "ProcessInfo list \<Rightarrow> ProcessInfo list"
  now :: "'o \<Rightarrow> int64 \<times> 'o"
  PdhOpenQuery :: "'o \<Rightarrow> nat option \<times> 'o"
  PdhAddCounter :: "nat \<Rightarrow> string \<Rightarrow> 'o \<Rightarrow> nat option \<times> 'o"
  PdhCollectQueryData :: "nat \<Rightarrow> 'o \<Rightarrow> bool \<times> 'o"
  PdhCollectQueryDataEx :: "nat \<Rightarrow> int32 \<Rightarrow> 'o \<Rightarrow> bool \<times> 'o"
  wait_event :: "'o \<Rightarrow> bool \<times> 'o"
  PdhGetFormattedCounterValue :: "nat \<Rightarrow> 'o \<Rightarrow> real64 option \<times> 'o"
  PdhCloseQuery :: "nat \<Rightarrow> 'o \<Rightarrow> bool \<times> 'o"
  double_mult :: "real64 \<Rightarrow> real64 \<Rightarrow> real64"
  double_percent :: "real64 \<Rightarrow> real64"
  cwire :: wire_lib

subsection \<open>The agent\<close>

record record_args =
  ra_totalTime :: int32
  ra_recordTime :: int32
  ra_interval :: int32
  ra_delay :: int64

text \<open>
  Where a recorder thread stands in \<open>Query::Record\<close>: before the sleep, at the head of its loop, in the
  inner loop with an open query, behind it, or returned; the number is its counter of seconds. Every
  \<open>StartRecord\<close> adds a detached thread, whose first component tells whether it records the machine.
\<close>

datatype recorder =
    Delayed record_args
  | LoopHead record_args int32
  | Sampling record_args int32 nat
  | Closing record_args int32 nat
  | Returned bool

datatype client_call =
    SockCall os_call
  | ConnectEx int32 int16
  | Bind
  | CloseSocket

text \<open>
  The entries of the two pools are numbered; \<open>pentries\<close> and \<open>mentries\<close> are their memory. The fields of
  \<open>Query\<close>, \<open>AgentClientSocket\<close> and \<open>AgentClientApp\<close> are flat here.
\<close>

record 'o client =
  csocket :: packet_socket
  isConnect :: bool
  checkProcessList :: "string list"
  counterList :: "string list"
  machineCounterList :: "string list"
  entryPoolManager :: "nat mem_pooler"
  mentryPoolManager :: "nat mem_pooler"
  pentries :: "nat \<Rightarrow> process_entry"
  mentries :: "nat \<Rightarrow> machine_entry"
  processLogList :: "nat list"
  machineLogList :: "nat list"
  cpuCounterV :: nat
  helperProcessList :: "ProcessInfo list"
  isMachineRecordEnd :: bool
  isProcessRecordEnd :: bool
  recorders :: "(bool \<times> recorder) list"
  app_agentID :: int32
  app_ramSize :: real64
  app_isEnd :: bool
  sys :: 'o
  ccalls :: "client_call list"

subsection \<open>Sending\<close>

text \<open>The tail of every \<open>Send...\<close> method; the result of \<open>Send\<close> tells whether the send has started.\<close>

definition client_send ::
  "'o system \<Rightarrow> int16 \<Rightarrow> byte list \<Rightarrow> 'o client \<Rightarrow> (bool \<times> 'o client) option" where
  "client_send S t ser c =
     (case SendPacket t ser of
        BufferOverrun \<Rightarrow> None
      | Sent bs \<Rightarrow>
          (let (s, cs, answer) = Send bs (csocket c); (r, os) = wsa_send S (sys c)
           in Some (answer r, c\<lparr>csocket := s, sys := os, ccalls := ccalls c @ map SockCall cs\<rparr>)))"

definition client_disconnect :: "'o client \<Rightarrow> 'o client" where
  "client_disconnect c =
     (let (s, cs) = Disconnect (csocket c)
      in c\<lparr>csocket := s, ccalls := ccalls c @ map SockCall cs\<rparr>)"

end
