(* ===== verification/Query.thy ===== *)
theory Query imports ClientState "HOL-Library.Char_ord" "HOL-Library.List_Lexorder" "HOL-Library.Multiset" begin

text \<open>
  The lists of the agent, \<open>AgentClient/Query.cpp\<close> without the recording loop, and the process list of
  \<open>AgentClient/Helper.cpp\<close>. The lock of the lists makes each operation one step.
\<close>

subsection \<open>What is watched\<close>

definition AddCounter :: "string \<Rightarrow> bool \<Rightarrow> 'o client \<Rightarrow> bool \<times> 'o client" where
  "AddCounter counter isMachine c =
     (if isMachine
      then (if counter \<in> set (machineCounterList c) then (False, c)
            else (True, c\<lparr>machineCounterList := machineCounterList c @ [counter]\<rparr>))
      else (if counter \<in> set (counterList c) then (False, c)
            else (True, c\<lparr>counterList := counterList c @ [counter]\<rparr>)))"

definition DeleteCounter :: "string \<Rightarrow> bool \<Rightarrow> 'o client \<Rightarrow> bool \<times> 'o client" where
  "DeleteCounter counter isMachine c =
     (True, if isMachine then c\<lparr>machineCounterList := removeAll counter (machineCounterList c)\<rparr>
            else c\<lparr>counterList := removeAll counter (counterList c)\<rparr>)"

definition AddProcess :: "string \<Rightarrow> 'o client \<Rightarrow> bool \<times> 'o client" where
  "AddProcess processName c =
     (if processName \<in> set (checkProcessList c) then (False, c)
      else (True, c\<lparr>checkProcessList := checkProcessList c @ [processName]\<rparr>))"

text \<open>\<open>erase\<close> takes out the first one.\<close>

definition DeleteProcess :: "string \<Rightarrow> 'o client \<Rightarrow> bool \<times> 'o client" where
  "DeleteProcess processName c =
     (if processName \<in> set (checkProcessList c)
      then (True, c\<lparr>checkProcessList := remove1 processName (checkProcessList c)\<rparr>)
      else (False, c))"

definition IsCheckProcess :: "string \<Rightarrow> 'o client \<Rightarrow> bool" where
  "IsCheckProcess processName c \<longleftrightarrow> processName \<in> set (checkProcessList c)"

subsection \<open>The logs\<close>

fun free_entries :: "nat list \<Rightarrow> 'o client \<Rightarrow> 'o client" where
  "free_entries [] c = c"
| "free_entries (p # ps) c =
     free_entries ps
       (c\<lparr>pentries := (pentries c)(p := (pentries c p)\<lparr>pe_logs := []\<rparr>),
          entryPoolManager := snd (Free p (entryPoolManager c))\<rparr>)"

fun free_mentries :: "nat list \<Rightarrow> 'o client \<Rightarrow> 'o client" where
  "free_mentries [] c = c"
| "free_mentries (p # ps) c =
     free_mentries ps
       (c\<lparr>mentries := (mentries c)(p := (mentries c p)\<lparr>me_logs := []\<rparr>),
          mentryPoolManager := snd (Free p (mentryPoolManager c))\<rparr>)"

definition ClearLogList :: "bool \<Rightarrow> 'o client \<Rightarrow> 'o client" where
  "ClearLogList isMachine c =
     (if isMachine then (free_mentries (machineLogList c) c)\<lparr>machineLogList := []\<rparr>
      else (free_entries (processLogList c) c)\<lparr>processLogList := []\<rparr>)"

subsection \<open>Starting and stopping the recorders\<close>

definition StartRecord ::
  "bool \<Rightarrow> int32 \<Rightarrow> int32 \<Rightarrow> int32 \<Rightarrow> int64 \<Rightarrow> 'o client \<Rightarrow> bool \<times> 'o client" where
  "StartRecord isMachine totalTime recordTime interval delay c =
     (let args = \<lparr>ra_totalTime = totalTime, ra_recordTime = recordTime, ra_interval = interval,
                  ra_delay = delay\<rparr>
      in if isMachine \<and> isMachineRecordEnd c
         then (True, c\<lparr>isMachineRecordEnd := False, recorders := recorders c @ [(True, Delayed args)]\<rparr>)
         else if \<not> isMachine \<and> isProcessRecordEnd c
         then (True, c\<lparr>isProcessRecordEnd := False, recorders := recorders c @ [(False, Delayed args)]\<rparr>)
         else (False, c))"

definition StopRecord :: "bool \<Rightarrow> 'o client \<Rightarrow> bool \<times> 'o client" where
  "StopRecord isMachine c =
     (if isMachine
      then (if isMachineRecordEnd c then (False, c) else (True, c\<lparr>isMachineRecordEnd := True\<rparr>))
      else (if isProcessRecordEnd c then (False, c) else (True, c\<lparr>isProcessRecordEnd := True\<rparr>)))"

subsection \<open>Texts\<close>

definition hasEnding :: "string \<Rightarrow> string \<Rightarrow> bool" where
  "hasEnding fullString ending =
     (if length ending \<le> length fullString
      then take (length ending) (drop (length fullString - length ending) fullString) = ending
      else False)"

text \<open>The counter path of a process: its name, numbered from the second one of that name on.\<close>

definition counter_name :: "ProcessInfo \<Rightarrow> string \<Rightarrow> string" where
  "counter_name p counterName =
     (let inst = (if proc_number p = 0 then proc_name p
                  else proc_name p @ ''#'' @ int_to_dec (int (proc_number p)))
      in CHR 0x5C # ''Process('' @ inst @ '')'' @ CHR 0x5C # counterName)"

subsection \<open>The running processes\<close>

definition CheckDuplicateProcessName :: "string \<Rightarrow> ProcessInfo list \<Rightarrow> nat" where
  "CheckDuplicateProcessName name ps = length (filter (\<lambda>p. proc_name p = name) ps)"

text \<open>
  \<open>substr(0, length - 4)\<close>: for a name of less than four characters the unsigned difference wraps
  around, and \<open>substr\<close> takes the whole text.
\<close>

definition base_name :: "string \<Rightarrow> string" where
  "base_name exe = (if length exe < 4 then exe else take (length exe - 4) exe)"

fun number_processes :: "(string \<times> int32) list \<Rightarrow> ProcessInfo list \<Rightarrow> ProcessInfo list" where
  "number_processes [] ps = ps"
| "number_processes ((exe, pid) # xs) ps =
     number_processes xs
       (ps @ [\<lparr>proc_name = base_name exe, processID = pid,
               proc_number = CheckDuplicateProcessName (base_name exe) ps\<rparr>])"

text \<open>The first two processes of a snapshot are the idle process and the system's.\<close>

definition running_processes :: "'o system \<Rightarrow> 'o \<Rightarrow> ProcessInfo list \<times> 'o" where
  "running_processes S os =
     (let (snap, os) = snapshot S os in (std_sort S (number_processes (drop 2 snap) []), os))"

text \<open>What \<open>std::sort\<close> promises for the order of \<open>ProcessInfo\<close>.\<close>

definition sorts :: "(ProcessInfo list \<Rightarrow> ProcessInfo list) \<Rightarrow> bool" where
  "sorts f \<longleftrightarrow> (\<forall>ps. mset (f ps) = mset ps \<and> sorted_wrt (\<lambda>p q. proc_name p \<le> proc_name q) (f ps))"

end
