(* ===== verification/AgentClientSocket.thy ===== *)
theory AgentClientSocket imports Query begin

text \<open>
  The agent's socket, \<open>AgentClient/AgentClientSocket.cpp\<close>: connecting and disconnecting, the packets it
  sends, and the handling of the packets of the server. Nothing is sent while the agent is not
  connected.
\<close>

subsection \<open>Packets to the server\<close>

definition send_connected ::
  "'o system \<Rightarrow> agentType \<Rightarrow> byte list \<Rightarrow> 'o client \<Rightarrow> 'o client option" where
  "send_connected S t ser c =
     (if \<not> isConnect c then Some c else map_option snd (client_send S (agentType_value t) ser c))"

text \<open>Only the answer to a health check looks at the result of \<open>Send\<close>.\<close>

definition SendHealthAck :: "'o system \<Rightarrow> 'o client \<Rightarrow> 'o client option" where
  "SendHealthAck S c =
     (if \<not> isConnect c then Some c
      else map_option (\<lambda>(ok, c). if ok then c else client_disconnect c)
             (client_send S (agentType_value HealthAck) (csHealthAck_serialize (cwire S) csHealthAck) c))"

text \<open>The token of an agent is the address of its host; without one nothing is sent.\<close>

definition SendAgentIDRequest :: "'o system \<Rightarrow> 'o client \<Rightarrow> 'o client option" where
  "SendAgentIDRequest S c =
     (if \<not> isConnect c then Some c
      else case host_address S (sys c) of
             None \<Rightarrow> Some c
           | Some a \<Rightarrow>
               map_option snd
                 (client_send S (agentType_value AgentIDRequest)
                    (csAgentIDRequest_serialize (cwire S)
                       (csAgentIDRequest_empty\<lparr>idreq_token := Some a, idreq_hostIP := Some a,
                          idreq_ramSize := Some (app_ramSize c)\<rparr>)) c))"

definition SendProcessListRequest :: "'o system \<Rightarrow> 'o client \<Rightarrow> 'o client option" where
  "SendProcessListRequest S =
     send_connected S ProcessListRequest (csProcessListRequest_serialize (cwire S) csProcessListRequest)"

definition SendCounterListRequest :: "'o system \<Rightarrow> bool \<Rightarrow> 'o client \<Rightarrow> 'o client option" where
  "SendCounterListRequest S isMachine =
     send_connected S CounterListRequest
       (csCounterListRequest_serialize (cwire S) (csCounterListRequest_empty\<lparr>clreq_isMachine := Some isMachine\<rparr>))"

text \<open>
  Neighbours of the same name become one entry of the message. \<open>msg\<close> is the list of entries so far,
  the last one being \<open>curP\<close>; before the first entry there is none.
\<close>

fun group_processes :: "string \<Rightarrow> ProcessInfo list \<Rightarrow> CurrentProcess list \<Rightarrow> CurrentProcess list" where
  "group_processes cur [] msg = msg"
| "group_processes cur (p # ps) msg =
     (let msg = (if cur \<noteq> proc_name p
                 then msg @ [CurrentProcess_empty\<lparr>cp_processName := Some (proc_name p)\<rparr>] else msg);
          msg = (if msg = [] then []
                 else butlast msg @
                   [last msg\<lparr>cp_processID := cp_processID (last msg) @ [processID p]\<rparr>])
      in group_processes (proc_name p) ps msg)"

definition SendCurrentProcessList ::
  "'o system \<Rightarrow> ProcessInfo list \<Rightarrow> 'o client \<Rightarrow> 'o client option" where
  "SendCurrentProcessList S processList =
     send_connected S CurrentProcessListSend
       (csCurrentProcessListSend_serialize (cwire S)
          (csCurrentProcessListSend_empty\<lparr>cpl_processInfo := group_processes [] processList []\<rparr>))"

definition SendRecordResponse ::
  "'o system \<Rightarrow> bool \<Rightarrow> bool \<Rightarrow> bool \<Rightarrow> string \<Rightarrow> 'o client \<Rightarrow> 'o client option" where
  "SendRecordResponse S isMachine isStart isSuccess failMsg =
     send_connected S RecordResponse
       (csRecordResponse_serialize (cwire S)
          (csRecordResponse_empty\<lparr>
             rec_result := Some (if isStart then (if isSuccess then START_SUCCESS else START_FAILURE)
                                 else (if isSuccess then STOP_SUCCESS else STOP_FAILURE)),
             rec_failReason := (if failMsg \<noteq> [] then Some failMsg else None),
             rec_isMachine := Some isMachine\<rparr>))"

definition SendAgentReady :: "'o system \<Rightarrow> 'o client \<Rightarrow> 'o client option" where
  "SendAgentReady S = send_connected S AgentReady (csAgentReady_serialize (cwire S) csAgentReady)"

text \<open>A value is sent only where it differs from the one sent before it; the first is compared with -1.\<close>

fun send_logs :: "real64 \<Rightarrow> log list \<Rightarrow> Log list" where
  "send_logs curValue [] = []"
| "send_logs curValue (l # ls) =
     (if \<not> double_eq curValue (log_v l)
      then (Log_empty\<lparr>log_timeStamp := Some (timestamp l), log_value := Some (log_v l)\<rparr>) #
           send_logs (log_v l) ls
      else send_logs curValue ls)"

definition process_infos :: "process_entry \<Rightarrow> ProcessInfos" where
  "process_infos e =
     ProcessInfos_empty\<lparr>pi_counterName := Some (pe_counterName e), pi_processName := Some (pe_processName e),
       pi_processID := Some (pe_processID e), pi_logs := send_logs double_minus_one (pe_logs e)\<rparr>"

definition SendProcessInfo :: "'o system \<Rightarrow> 'o client \<Rightarrow> 'o client option" where
  "SendProcessInfo S c =
     send_connected S ProcessInfoSend
       (csTotalProcessInfoSend_serialize (cwire S)
          (csTotalProcessInfoSend_empty\<lparr>tpi_info := map (\<lambda>p. process_infos (pentries c p)) (processLogList c)\<rparr>)) c"

definition machine_infos :: "machine_entry \<Rightarrow> MachineInfos" where
  "machine_infos e =
     MachineInfos_empty\<lparr>mi_counterName := Some (me_counterName e),
       mi_logs := send_logs double_minus_one (me_logs e)\<rparr>"

definition SendMachineInfo :: "'o system \<Rightarrow> 'o client \<Rightarrow> 'o client option" where
  "SendMachineInfo S c =
     send_connected S MachineInfoSend
       (csTotalMachineInfoSend_serialize (cwire S)
          (csTotalMachineInfoSend_empty\<lparr>tmi_info := map (\<lambda>p. machine_infos (mentries c p)) (machineLogList c)\<rparr>)) c"

subsection \<open>Connection\<close>

definition DisconnProcess :: "bool \<Rightarrow> 'o client \<Rightarrow> 'o client" where
  "DisconnProcess isErr c =
     (if isErr then c
      else let c = c\<lparr>isConnect := False\<rparr>; (_, c) = StopRecord True c; (_, c) = StopRecord False c in c)"

text \<open>The header's receive is posted where the socket's fields stand, without a reset.\<close>

definition ConnProcess :: "'o system \<Rightarrow> bool \<Rightarrow> 'o client \<Rightarrow> 'o client option" where
  "ConnProcess S isErr c =
     (if isErr then Some c
      else map_option
        (\<lambda>c. let (s, cs, _) = Recv 0 (int HEADER_SIZE) (csocket c)
             in c\<lparr>csocket := s, ccalls := ccalls c @ map SockCall cs\<rparr>)
        (SendAgentIDRequest S (c\<lparr>isConnect := True\<rparr>)))"

text \<open>\<open>ok\<close> is what \<open>ConnectEx\<close> returned: \<open>TRUE\<close> is a connection made at once.\<close>

definition client_Connect :: "'o system \<Rightarrow> bool \<Rightarrow> int32 \<Rightarrow> int16 \<Rightarrow> 'o client \<Rightarrow> 'o client option" where
  "client_Connect S ok ip port c =
     (let c = c\<lparr>ccalls := ccalls c @ [ConnectEx ip port]\<rparr>
      in if ok then ConnProcess S False c else Some c)"

definition client_Bind :: "'o client \<Rightarrow> 'o client" where
  "client_Bind c = c\<lparr>ccalls := ccalls c @ [Bind]\<rparr>"

subsection \<open>Packets from the server\<close>

fun each :: "('a \<Rightarrow> 'c \<Rightarrow> bool \<times> 'c) \<Rightarrow> 'a list \<Rightarrow> 'c \<Rightarrow> 'c" where
  "each f [] c = c"
| "each f (x # xs) c = each f xs (snd (f x c))"

definition handle_AgentIDResponse :: "'o system \<Rightarrow> CPacket \<Rightarrow> 'o client \<Rightarrow> 'o client option" where
  "handle_AgentIDResponse S packet c =
     (case scAgentIDResponse_parse (cwire S) (payload packet) of
        None \<Rightarrow> Some c
      | Some msg \<Rightarrow>
          if get_or False (idrsp_alreadyRunning msg) then Some (client_disconnect c)
          else SendProcessListRequest S (c\<lparr>app_agentID := get_or 0 (idrsp_agentID msg)\<rparr>))"

definition handle_ProcessListResponse :: "'o system \<Rightarrow> CPacket \<Rightarrow> 'o client \<Rightarrow> 'o client option" where
  "handle_ProcessListResponse S packet c =
     SendCounterListRequest S False
       (case scProcessListResponse_parse (cwire S) (payload packet) of
          None \<Rightarrow> c
        | Some msg \<Rightarrow> each AddProcess (plrsp_processName msg) c)"

definition handle_CounterListResponse :: "'o system \<Rightarrow> CPacket \<Rightarrow> 'o client \<Rightarrow> 'o client option" where
  "handle_CounterListResponse S packet c =
     (case scCounterListResponse_parse (cwire S) (payload packet) of
        None \<Rightarrow> Some c
      | Some msg \<Rightarrow>
          if \<not> get_or False (clrsp_isMachine msg)
          then SendCounterListRequest S True (each (\<lambda>n. AddCounter n False) (clrsp_counterName msg) c)
          else SendAgentReady S (each (\<lambda>n. AddCounter n True) (clrsp_counterName msg) c))"

definition already_start :: string where "already_start = ''already start''"

definition handle_StartRecord :: "'o system \<Rightarrow> CPacket \<Rightarrow> 'o client \<Rightarrow> 'o client option" where
  "handle_StartRecord S packet c =
     (case scStartRecord_parse (cwire S) (payload packet) of
        None \<Rightarrow> Some c
      | Some msg \<Rightarrow>
          let isMachine = get_or False (start_isMachine msg);
              (ok, c) = StartRecord isMachine (get_or 0 (start_totalRecordTime msg))
                          (get_or 0 (start_responseTime msg)) (get_or 0 (start_interval msg))
                          (get_or 0 (start_delay msg)) c
          in SendRecordResponse S isMachine True ok (if ok then [] else already_start) c)"

text \<open>The message is read as a \<open>scStartRecord\<close>.\<close>

definition handle_StopRecord :: "'o system \<Rightarrow> CPacket \<Rightarrow> 'o client \<Rightarrow> 'o client option" where
  "handle_StopRecord S packet c =
     (case scStartRecord_parse (cwire S) (payload packet) of
        None \<Rightarrow> Some c
      | Some msg \<Rightarrow>
          let isMachine = get_or False (start_isMachine msg); (ok, c) = StopRecord isMachine c
          in SendRecordResponse S isMachine False ok [] c)"

definition handle_ProcessCommandRequest :: "'o system \<Rightarrow> CPacket \<Rightarrow> 'o client \<Rightarrow> 'o client" where
  "handle_ProcessCommandRequest S packet c =
     (case scProcessCommandRequest_parse (cwire S) (payload packet) of
        None \<Rightarrow> c
      | Some msg \<Rightarrow>
          let name = get_or [] (pcmd_processName msg) in
          (case get_or START (pcmd_type msg) of
             ADDLIST \<Rightarrow> snd (AddProcess name c)
           | DELETELIST \<Rightarrow> snd (DeleteProcess name c)
           | _ \<Rightarrow> c))"

definition handle_CounterCommandRequest :: "'o system \<Rightarrow> CPacket \<Rightarrow> 'o client \<Rightarrow> 'o client" where
  "handle_CounterCommandRequest S packet c =
     (case scCounterCommandRequest_parse (cwire S) (payload packet) of
        None \<Rightarrow> c
      | Some msg \<Rightarrow>
          let name = get_or [] (ccmd_counterName msg); isMachine = get_or False (ccmd_isMachine msg) in
          (case get_or CADDLIST (ccmd_type msg) of
             CADDLIST \<Rightarrow> snd (AddCounter name isMachine c)
           | CDELETELIST \<Rightarrow> snd (DeleteCounter name isMachine c)))"

definition handle_packet :: "'o system \<Rightarrow> CPacket \<Rightarrow> 'o client \<Rightarrow> 'o client option" where
  "handle_packet S packet c =
     (case agentType_of (ptype packet) of
        Some AgentIDResponse \<Rightarrow> handle_AgentIDResponse S packet c
      | Some ProcessListResponse \<Rightarrow> handle_ProcessListResponse S packet c
      | Some CounterListResponse \<Rightarrow> handle_CounterListResponse S packet c
      | Some agentType.StartRecord \<Rightarrow> handle_StartRecord S packet c
      | Some agentType.StopRecord \<Rightarrow> handle_StopRecord S packet c
      | Some ProcessCommandRequest \<Rightarrow> Some (handle_ProcessCommandRequest S packet c)
      | Some CounterCommandRequest \<Rightarrow> Some (handle_CounterCommandRequest S packet c)
      | Some HealthCheck \<Rightarrow> SendHealthAck S c
      | _ \<Rightarrow> Some c)"

definition free_packet :: "addr \<Rightarrow> 'o client \<Rightarrow> 'o client" where
  "free_packet block c =
     c\<lparr>csocket := (csocket c)\<lparr>packetPoolManager := snd (Free block (packetPoolManager (csocket c)))\<rparr>\<rparr>"

definition PacketHandling :: "'o system \<Rightarrow> addr \<Rightarrow> CPacket \<Rightarrow> 'o client \<Rightarrow> 'o client option" where
  "PacketHandling S block packet c =
     (if socket (csocket c) = 0 then None
      else map_option (free_packet block) (handle_packet S packet c))"

end
