(* ===== verification/Recorder.thy ===== *)
theory Recorder imports AgentClientSocket begin

text \<open>
  The recording of counters, \<open>AgentClient/Query.cpp\<close>: a recorder thread opens a query, enters the
  counters of the watched processes (or of the machine), samples them until a report is due, reports
  and starts over. Each step of a recorder is the code between two points where it waits or where
  another thread can stop it.
\<close>

subsection \<open>Entering the counters\<close>

definition cpuCounter :: string where
  "cpuCounter = CHR 0x5C # ''Processor(_Total)'' @ CHR 0x5C # ''% Processor Time''"

definition UpdateProcessList :: "'o system \<Rightarrow> 'o client \<Rightarrow> 'o client option" where
  "UpdateProcessList S c =
     (let (ps, os) = running_processes S (sys c)
      in SendCurrentProcessList S ps (c\<lparr>helperProcessList := ps, sys := os\<rparr>))"

text \<open>
  The outer \<open>None\<close> is the failed assertion that the pool still has an entry. Where the system refuses a
  counter, the entry just taken from the pool is in no list.
\<close>

fun init_process ::
  "'o system \<Rightarrow> nat \<Rightarrow> ProcessInfo \<Rightarrow> string list \<Rightarrow> 'o client \<Rightarrow> (bool \<times> 'o client) option" where
  "init_process S query p [] c = Some (True, c)"
| "init_process S query p (name # names) c =
     (case Alloc (entryPoolManager c) of
        (None, _) \<Rightarrow> None
      | (Some e, pool) \<Rightarrow>
          let (counter, os) = PdhAddCounter S query (counter_name p name) (sys c);
              entry = (pentries c e)\<lparr>pe_counterName := name\<rparr>;
              c = c\<lparr>entryPoolManager := pool, pentries := (pentries c)(e := entry), sys := os\<rparr>
          in case counter of
               None \<Rightarrow> Some (False, c)
             | Some h \<Rightarrow>
                 init_process S query p names
                   (c\<lparr>pentries := (pentries c)(e := entry\<lparr>pe_counter := h,
                        pe_processName := proc_name p, pe_processID := processID p, pe_logs := []\<rparr>),
                      processLogList := processLogList c @ [e]\<rparr>))"

fun init_processes ::
  "'o system \<Rightarrow> nat \<Rightarrow> ProcessInfo list \<Rightarrow> 'o client \<Rightarrow> (bool \<times> 'o client) option" where
  "init_processes S query [] c = Some (True, c)"
| "init_processes S query (p # ps) c =
     (if \<not> IsCheckProcess (proc_name p) c then init_processes S query ps c
      else do {
        (ok, c) \<leftarrow> init_process S query p (counterList c) c;
        if ok then init_processes S query ps c else Some (False, c)
      })"

fun init_machine ::
  "'o system \<Rightarrow> nat \<Rightarrow> string list \<Rightarrow> 'o client \<Rightarrow> (bool \<times> 'o client) option" where
  "init_machine S query [] c = Some (True, c)"
| "init_machine S query (name # names) c =
     (case Alloc (mentryPoolManager c) of
        (None, _) \<Rightarrow> None
      | (Some e, pool) \<Rightarrow>
          let (counter, os) = PdhAddCounter S query name (sys c);
              c = c\<lparr>mentryPoolManager := pool, sys := os\<rparr>
          in case counter of
               None \<Rightarrow> Some (False, c)
             | Some h \<Rightarrow>
                 init_machine S query names
                   (c\<lparr>mentries := (mentries c)(e := \<lparr>me_counterName = name, me_counter = h, me_logs = []\<rparr>),
                      machineLogList := machineLogList c @ [e]\<rparr>))"

definition InitCounterInfo :: "'o system \<Rightarrow> nat \<Rightarrow> bool \<Rightarrow> 'o client \<Rightarrow> (bool \<times> 'o client) option" where
  "InitCounterInfo S query isMachine c =
     (let c = ClearLogList isMachine c
      in if \<not> isMachine
         then do {
           c \<leftarrow> UpdateProcessList S c;
           let (counter, os) = PdhAddCounter S query cpuCounter (sys c);
           case counter of
             None \<Rightarrow> Some (False, c\<lparr>sys := os\<rparr>)
           | Some h \<Rightarrow> init_processes S query (helperProcessList c) (c\<lparr>sys := os, cpuCounterV := h\<rparr>)
         }
         else init_machine S query (machineCounterList c) c)"

subsection \<open>Sampling\<close>

definition processor_time :: string where "processor_time = ''% Processor Time''"

text \<open>A counter that cannot be read is left out of this round.\<close>

fun sample_processes :: "'o system \<Rightarrow> real64 \<Rightarrow> nat list \<Rightarrow> 'o client \<Rightarrow> 'o client" where
  "sample_processes S cpu [] c = c"
| "sample_processes S cpu (e # es) c =
     (let (v, os) = PdhGetFormattedCounterValue S (pe_counter (pentries c e)) (sys c)
      in case v of
           None \<Rightarrow> sample_processes S cpu es (c\<lparr>sys := os\<rparr>)
         | Some value \<Rightarrow>
             let (timer, os) = now S os;
                 value = (if hasEnding (pe_counterName (pentries c e)) processor_time
                          then double_mult S value (double_percent S cpu) else value);
                 entry = (pentries c e)\<lparr>pe_logs := pe_logs (pentries c e) @ [\<lparr>timestamp = timer, log_v = value\<rparr>]\<rparr>
             in sample_processes S cpu es (c\<lparr>sys := os, pentries := (pentries c)(e := entry)\<rparr>))"

fun sample_machine :: "'o system \<Rightarrow> nat list \<Rightarrow> 'o client \<Rightarrow> 'o client" where
  "sample_machine S [] c = c"
| "sample_machine S (e # es) c =
     (let (v, os) = PdhGetFormattedCounterValue S (me_counter (mentries c e)) (sys c)
      in case v of
           None \<Rightarrow> sample_machine S es (c\<lparr>sys := os\<rparr>)
         | Some value \<Rightarrow>
             let (timer, os) = now S os;
                 entry = (mentries c e)\<lparr>me_logs := me_logs (mentries c e) @ [\<lparr>timestamp = timer, log_v = value\<rparr>]\<rparr>
             in sample_machine S es (c\<lparr>sys := os, mentries := (mentries c)(e := entry)\<rparr>))"

subsection \<open>The recording loop\<close>

text \<open>\<open>i\<close> is the number of the thread.\<close>

definition set_recorder :: "nat \<Rightarrow> recorder \<Rightarrow> 'o client \<Rightarrow> 'o client" where
  "set_recorder i r c = c\<lparr>recorders := (recorders c)[i := (fst (recorders c ! i), r)]\<rparr>"

definition record_end :: "bool \<Rightarrow> 'o client \<Rightarrow> bool" where
  "record_end isMachine c = (if isMachine then isMachineRecordEnd c else isProcessRecordEnd c)"

text \<open>The regular end of \<open>Record\<close>.\<close>

definition record_done :: "nat \<Rightarrow> bool \<Rightarrow> 'o client \<Rightarrow> 'o client" where
  "record_done i isMachine c =
     set_recorder i (Returned True)
       (if isMachine then c\<lparr>isMachineRecordEnd := True\<rparr> else c\<lparr>isProcessRecordEnd := True\<rparr>)"

definition record_head :: "'o system \<Rightarrow> nat \<Rightarrow> bool \<Rightarrow> record_args \<Rightarrow> int32 \<Rightarrow> 'o client \<Rightarrow> 'o client option" where
  "record_head S i isMachine a elapsed c =
     (if \<not> (elapsed <s ra_totalTime a \<or> ra_totalTime a <s 0) \<or> record_end isMachine c
      then Some (record_done i isMachine c)
      else
        let (q, os) = PdhOpenQuery S (sys c); c = c\<lparr>sys := os\<rparr>
        in case q of
             None \<Rightarrow> Some (set_recorder i (Returned False) c)
           | Some query \<Rightarrow>
               do {
                 (ok, c) \<leftarrow> InitCounterInfo S query isMachine c;
                 Some (if ok then set_recorder i (Sampling a elapsed query) c
                       else set_recorder i (Returned False) (ClearLogList isMachine c))
               })"

text \<open>
  One round of the inner loop. The \<open>continue\<close> on an unreadable processor counter goes to the test of
  the loop without counting the interval. A report time of 0 is a division by zero.
\<close>

definition inner_test :: "nat \<Rightarrow> record_args \<Rightarrow> int32 \<Rightarrow> nat \<Rightarrow> 'o client \<Rightarrow> 'o client option" where
  "inner_test i a elapsed query c =
     (if ra_recordTime a = 0 then None
      else if sint elapsed mod sint (ra_recordTime a) \<noteq> 0
      then Some (set_recorder i (Sampling a elapsed query) c)
      else Some (set_recorder i (Closing a elapsed query) c))"

definition record_sample ::
  "'o system \<Rightarrow> nat \<Rightarrow> bool \<Rightarrow> record_args \<Rightarrow> int32 \<Rightarrow> nat \<Rightarrow> 'o client \<Rightarrow> 'o client option" where
  "record_sample S i isMachine a elapsed query c =
     (let (ok, os) = PdhCollectQueryData S query (sys c); c = c\<lparr>sys := os\<rparr>
      in if \<not> ok then Some (set_recorder i (Returned False) c)
         else let (ok, os) = PdhCollectQueryDataEx S query (ra_interval a) (sys c); c = c\<lparr>sys := os\<rparr>
         in if \<not> ok then Some (set_recorder i (Returned False) c)
         else let (signalled, os) = wait_event S (sys c); c = c\<lparr>sys := os\<rparr>
         in if \<not> signalled then inner_test i a (elapsed + ra_interval a) query c
         else if isMachine
         then inner_test i a (elapsed + ra_interval a) query (sample_machine S (machineLogList c) c)
         else let (cpu, os) = PdhGetFormattedCounterValue S (cpuCounterV c) (sys c); c = c\<lparr>sys := os\<rparr>
         in case cpu of
              None \<Rightarrow> inner_test i a elapsed query c
            | Some v \<Rightarrow> inner_test i a (elapsed + ra_interval a) query
                          (sample_processes S v (processLogList c) c))"

definition record_close ::
  "'o system \<Rightarrow> nat \<Rightarrow> bool \<Rightarrow> record_args \<Rightarrow> int32 \<Rightarrow> nat \<Rightarrow> 'o client \<Rightarrow> 'o client option" where
  "record_close S i isMachine a elapsed query c =
     (let (ok, os) = PdhCloseQuery S query (sys c); c = c\<lparr>sys := os\<rparr>
      in if \<not> ok then Some (set_recorder i (Returned False) c)
         else do {
           c \<leftarrow> (if \<not> isMachine then SendProcessInfo S c else SendMachineInfo S c);
           Some (if \<not> isConnect c then record_done i isMachine c
                 else set_recorder i (LoopHead a elapsed) c)
         })"

definition record_step :: "'o system \<Rightarrow> nat \<Rightarrow> 'o client \<Rightarrow> 'o client option" where
  "record_step S i c =
     (if length (recorders c) \<le> i then Some c
      else let isMachine = fst (recorders c ! i) in
        (case snd (recorders c ! i) of
           Delayed a \<Rightarrow> Some (set_recorder i (LoopHead a 0) c)
         | LoopHead a elapsed \<Rightarrow> record_head S i isMachine a elapsed c
         | Sampling a elapsed query \<Rightarrow> record_sample S i isMachine a elapsed query c
         | Closing a elapsed query \<Rightarrow> record_close S i isMachine a elapsed query c
         | Returned r \<Rightarrow> Some c))"

end
