(* ===== verification/AgentClientApp.thy ===== *)
theory AgentClientApp imports Recorder begin

text \<open>
  The agent process as a whole: \<open>AgentClientApp.cpp\<close> and \<open>TcpAgentClient.cpp\<close>, and the events that drive
  it. An event is a completion on the socket, a packet handled by the logic thread, a step of a
  recorder thread, or a line of the console.
\<close>

subsection \<open>Start\<close>

text \<open>
  The socket object with its pools and \<open>Query\<close> with its flags; \<open>raw\<close>, \<open>pe\<close> and \<open>me\<close> are memory that no
  constructor writes.
\<close>

definition AgentClientSocket ::
  "TcpSocket \<Rightarrow> (nat \<Rightarrow> process_entry) \<Rightarrow> (nat \<Rightarrow> machine_entry) \<Rightarrow> real64 \<Rightarrow> 'o \<Rightarrow> 'o client option" where
  "AgentClientSocket raw pe me ram os =
     do {
       pool \<leftarrow> MemPooler (Pair 0) 10;
       epool \<leftarrow> MemPooler (\<lambda>i. i) 1000;
       mpool \<leftarrow> MemPooler (\<lambda>i. i) 1000;
       Some \<lparr>csocket = \<lparr>socket = INVALID_SOCKET, disconnectCall = disconnectCall raw,
               acceptBuf = acceptBuf raw, recvBuf = recvBuf raw, sendBuf = sendBuf raw,
               wsaRecvBuf = wsaRecvBuf raw, wsaSendBuf = wsaSendBuf raw, act = act raw,
               position = 0, remainBytes = int HEADER_SIZE, packetPoolManager = pool\<rparr>,
             isConnect = False, checkProcessList = [], counterList = [], machineCounterList = [],
             entryPoolManager = epool, mentryPoolManager = mpool, pentries = pe, mentries = me,
             processLogList = [], machineLogList = [], cpuCounterV = 0, helperProcessList = [],
             isMachineRecordEnd = True, isProcessRecordEnd = True, recorders = [],
             app_agentID = -1, app_ramSize = ram, app_isEnd = False, sys = os, ccalls = []\<rparr>
     }"

text \<open>\<open>CreateConnectSocket\<close>: no acceptor, but a connector; \<open>handle\<close> is what \<open>WSASocket\<close> returns.\<close>

definition CreateConnectSocket :: "int \<Rightarrow> 'o client \<Rightarrow> 'o client" where
  "CreateConnectSocket handle c =
     client_Bind
       (c\<lparr>csocket := InitAct None (Some Disconnector) (Some Connector) (Some Sender) (Some Receiver)
                     (TcpSocket.Init handle (csocket c))\<rparr>)"

definition AgentClientApp_Start ::
  "TcpSocket \<Rightarrow> (nat \<Rightarrow> process_entry) \<Rightarrow> (nat \<Rightarrow> machine_entry) \<Rightarrow> real64 \<Rightarrow> int \<Rightarrow> 'o \<Rightarrow> 'o client option" where
  "AgentClientApp_Start raw pe me ram handle os =
     map_option (CreateConnectSocket handle) (AgentClientSocket raw pe me ram os)"

subsection \<open>The console\<close>

definition AgentClientApp_End :: "'o client \<Rightarrow> 'o client" where
  "AgentClientApp_End c = c\<lparr>app_isEnd := True, ccalls := ccalls c @ [CloseSocket]\<rparr>"

text \<open>\<open>connect\<close> ends the loop as well; \<open>ok\<close> is the result of \<open>ConnectEx\<close>.\<close>

fun AgentClientApp_Process ::
  "'o system \<Rightarrow> bool \<Rightarrow> int32 \<Rightarrow> int16 \<Rightarrow> string list \<Rightarrow> 'o client \<Rightarrow> 'o client option" where
  "AgentClientApp_Process S ok ip port [] c = Some c"
| "AgentClientApp_Process S ok ip port (input # inputs) c =
     (if app_isEnd c then Some c
      else if input = ''End'' then Some (AgentClientApp_End c)
      else if input = ''connect'' then client_Connect S ok ip port c
      else AgentClientApp_Process S ok ip port inputs c)"

subsection \<open>Events\<close>

datatype client_event =
    Connected bool
  | Disconnected bool
  | ServerPacket addr CPacket
  | RecorderStep nat

fun client_step :: "'o system \<Rightarrow> client_event \<Rightarrow> 'o client \<Rightarrow> 'o client option" where
  "client_step S (Connected isErr) c = ConnProcess S isErr c"
| "client_step S (Disconnected isErr) c = Some (DisconnProcess isErr c)"
| "client_step S (ServerPacket block packet) c = PacketHandling S block packet c"
| "client_step S (RecorderStep i) c = record_step S i c"

fun client_run :: "'o system \<Rightarrow> client_event list \<Rightarrow> 'o client \<Rightarrow> 'o client option" where
  "client_run S [] c = Some c"
| "client_run S (e # es) c = Option.bind (client_step S e c) (client_run S es)"

end
