(* ===== verification/ClientLemmas.thy ===== *)
theory ClientLemmas imports AgentClientApp "HOL-Library.Sublist" begin

text \<open>
  What the operations of the agent leave alone, and the laws of its log entries: sending touches only
  the socket, entering counters only the entries and their pools, and a recorder thread none of the
  lists of what is watched.
\<close>

subsection \<open>Sending\<close>

definition io_only :: "'o client \<Rightarrow> 'o client \<Rightarrow> bool" where
  "io_only c c' \<longleftrightarrow> (\<exists>s os cs. c' = c\<lparr>csocket := s, sys := os, ccalls := cs\<rparr>)"

lemma io_only_refl [simp]: "io_only c c"
proof -
  have "c = c\<lparr>csocket := csocket c, sys := sys c, ccalls := ccalls c\<rparr>" by simp
  then show ?thesis unfolding io_only_def by blast
qed

lemma io_only_trans [trans]: "io_only a b \<Longrightarrow> io_only b c \<Longrightarrow> io_only a c"
  by (fastforce simp: io_only_def)

lemma io_only_fields:
  assumes "io_only c c'"
  shows "isConnect c' = isConnect c" and "checkProcessList c' = checkProcessList c"
    and "counterList c' = counterList c" and "machineCounterList c' = machineCounterList c"
    and "entryPoolManager c' = entryPoolManager c" and "mentryPoolManager c' = mentryPoolManager c"
    and "pentries c' = pentries c" and "mentries c' = mentries c"
    and "processLogList c' = processLogList c" and "machineLogList c' = machineLogList c"
    and "helperProcessList c' = helperProcessList c"
    and "isMachineRecordEnd c' = isMachineRecordEnd c" and "isProcessRecordEnd c' = isProcessRecordEnd c"
    and "recorders c' = recorders c" and "app_agentID c' = app_agentID c"
  using assms by (auto simp: io_only_def)

lemma client_send_io: "client_send S t ser c = Some (ok, c') \<Longrightarrow> io_only c c'"
  by (fastforce simp: client_send_def io_only_def split: send_result.splits prod.splits)

lemma send_connected_io: "send_connected S t ser c = Some c' \<Longrightarrow> io_only c c'"
  by (auto simp: send_connected_def split: if_splits dest: client_send_io)

lemma client_disconnect_io: "io_only c (client_disconnect c)"
proof -
  obtain s cs where "Disconnect (csocket c) = (s, cs)" by (cases "Disconnect (csocket c)")
  then have "client_disconnect c = c\<lparr>csocket := s, sys := sys c, ccalls := ccalls c @ map SockCall cs\<rparr>"
    by (simp add: client_disconnect_def)
  then show ?thesis unfolding io_only_def by blast
qed

lemma SendHealthAck_io: "SendHealthAck S c = Some c' \<Longrightarrow> io_only c c'"
  by (auto simp: SendHealthAck_def split: if_splits
      dest!: client_send_io intro: io_only_trans client_disconnect_io)

lemma SendAgentIDRequest_io: "SendAgentIDRequest S c = Some c' \<Longrightarrow> io_only c c'"
  by (auto simp: SendAgentIDRequest_def split: if_splits option.splits dest!: client_send_io)


lemma sends_io:
  "SendProcessListRequest S c = Some c' \<Longrightarrow> io_only c c'"
  "SendCounterListRequest S m c = Some c' \<Longrightarrow> io_only c c'"
  "SendCurrentProcessList S ps c = Some c' \<Longrightarrow> io_only c c'"
  "SendRecordResponse S m st ok msg c = Some c' \<Longrightarrow> io_only c c'"
  "SendAgentReady S c = Some c' \<Longrightarrow> io_only c c'"
  "SendProcessInfo S c = Some c' \<Longrightarrow> io_only c c'"
  "SendMachineInfo S c = Some c' \<Longrightarrow> io_only c c'"
  by (simp_all add: SendProcessListRequest_def SendCounterListRequest_def SendCurrentProcessList_def
      SendRecordResponse_def SendAgentReady_def SendProcessInfo_def SendMachineInfo_def send_connected_io)

subsection \<open>The watched lists\<close>

definition watched :: "'o client \<Rightarrow> string list \<times> string list \<times> string list" where
  "watched c = (checkProcessList c, counterList c, machineCounterList c)"

definition no_duplicates :: "'o client \<Rightarrow> bool" where
  "no_duplicates c \<longleftrightarrow>
     distinct (checkProcessList c) \<and> distinct (counterList c) \<and> distinct (machineCounterList c)"

lemma watched_no_duplicates: "watched c' = watched c \<Longrightarrow> no_duplicates c' = no_duplicates c"
  by (simp add: watched_def no_duplicates_def)

lemma io_only_watched: "io_only c c' \<Longrightarrow> watched c' = watched c"
  by (simp add: watched_def io_only_fields)

lemma list_operations_no_duplicates:
  assumes "no_duplicates c"
  shows "no_duplicates (snd (AddCounter n m c))" and "no_duplicates (snd (DeleteCounter n m c))"
    and "no_duplicates (snd (AddProcess n c))" and "no_duplicates (snd (DeleteProcess n c))"
  using assms
  by (auto simp: no_duplicates_def AddCounter_def DeleteCounter_def AddProcess_def DeleteProcess_def
      distinct_removeAll)

lemma each_no_duplicates:
  assumes "\<And>x c. no_duplicates c \<Longrightarrow> no_duplicates (snd (f x c))" and "no_duplicates c"
  shows "no_duplicates (each f xs c)"
  using assms(2) by (induction xs arbitrary: c) (simp_all add: assms(1))

lemma record_operations_watched [simp]:
  "watched (snd (StartRecord m t r i d c)) = watched c" "watched (snd (StopRecord m c)) = watched c"
  by (simp_all add: watched_def StartRecord_def StopRecord_def Let_def)

subsection \<open>The entries of the logs\<close>

text \<open>
  Of the thousand entries of a pool the log list holds some and \<open>lost\<close> are out without being in any
  list; all are different and the others are free.
\<close>

definition entries_owned :: "'o client \<Rightarrow> nat list \<Rightarrow> bool" where
  "entries_owned c lost \<longleftrightarrow>
     owns (m_freeVector (entryPoolManager c)) (m_nAllocCount (entryPoolManager c)) {..<1000}
       (processLogList c @ lost)"

definition mentries_owned :: "'o client \<Rightarrow> nat list \<Rightarrow> bool" where
  "mentries_owned c lost \<longleftrightarrow>
     owns (m_freeVector (mentryPoolManager c)) (m_nAllocCount (mentryPoolManager c)) {..<1000}
       (machineLogList c @ lost)"

lemma owns_perm: "owns av n U xs \<Longrightarrow> mset ys = mset xs \<Longrightarrow> owns av n U ys"
  unfolding owns_def by (metis (no_types, lifting) distinct_append mset_eq_imp_distinct_iff mset_eq_setD set_append size_mset)

lemma free_entries_owned:
  assumes "owns (m_freeVector (entryPoolManager c)) (m_nAllocCount (entryPoolManager c)) U (ps @ lost)"
  shows "owns (m_freeVector (entryPoolManager (free_entries ps c)))
           (m_nAllocCount (entryPoolManager (free_entries ps c))) U lost"
  using assms
proof (induction ps arbitrary: c)
  case (Cons p ps)
  then show ?case
    using mem_pool.release_owns(2) [OF Cons.prems, of p "fst (Free p (entryPoolManager c))" "snd (Free p (entryPoolManager c))"]
    by simp
qed simp

lemma free_mentries_owned:
  assumes "owns (m_freeVector (mentryPoolManager c)) (m_nAllocCount (mentryPoolManager c)) U (ps @ lost)"
  shows "owns (m_freeVector (mentryPoolManager (free_mentries ps c)))
           (m_nAllocCount (mentryPoolManager (free_mentries ps c))) U lost"
  using assms
proof (induction ps arbitrary: c)
  case (Cons p ps)
  then show ?case
    using mem_pool.release_owns(2) [OF Cons.prems, of p "fst (Free p (mentryPoolManager c))" "snd (Free p (mentryPoolManager c))"]
    by simp
qed simp

lemma free_entries_frame:
  "\<exists>pool pe. free_entries ps c = c\<lparr>entryPoolManager := pool, pentries := pe\<rparr>"
proof (induction ps arbitrary: c)
  case Nil
  have "c = c\<lparr>entryPoolManager := entryPoolManager c, pentries := pentries c\<rparr>" by simp
  then show ?case by (metis free_entries.simps(1))
next
  case (Cons p ps)
  show ?case using Cons.IH [of "c\<lparr>pentries := (pentries c)(p := (pentries c p)\<lparr>pe_logs := []\<rparr>),
    entryPoolManager := snd (Free p (entryPoolManager c))\<rparr>"] by auto
qed

lemma free_mentries_frame:
  "\<exists>pool me. free_mentries ps c = c\<lparr>mentryPoolManager := pool, mentries := me\<rparr>"
proof (induction ps arbitrary: c)
  case Nil
  have "c = c\<lparr>mentryPoolManager := mentryPoolManager c, mentries := mentries c\<rparr>" by simp
  then show ?case by (metis free_mentries.simps(1))
next
  case (Cons p ps)
  show ?case using Cons.IH [of "c\<lparr>mentries := (mentries c)(p := (mentries c p)\<lparr>me_logs := []\<rparr>),
    mentryPoolManager := snd (Free p (mentryPoolManager c))\<rparr>"] by auto
qed

lemma ClearLogList_process:
  obtains pool pe where "ClearLogList False c = c\<lparr>entryPoolManager := pool, pentries := pe, processLogList := []\<rparr>"
  using free_entries_frame [of "processLogList c" c] by (auto simp: ClearLogList_def)

lemma ClearLogList_machine:
  obtains pool me where "ClearLogList True c = c\<lparr>mentryPoolManager := pool, mentries := me, machineLogList := []\<rparr>"
  using free_mentries_frame [of "machineLogList c" c] by (auto simp: ClearLogList_def)

lemma ClearLogList_owned:
  "entries_owned c lost \<Longrightarrow> entries_owned (ClearLogList False c) lost"
  "mentries_owned c lost \<Longrightarrow> mentries_owned (ClearLogList True c) lost"
  by (simp_all add: entries_owned_def mentries_owned_def ClearLogList_def free_entries_owned free_mentries_owned)

lemma Alloc_entry:
  assumes "owns (m_freeVector p) (m_nAllocCount p) U (held @ lost)" and "Alloc p = (Some e, p')"
  shows "owns (m_freeVector p') (m_nAllocCount p') U ((held @ [e]) @ lost)"
    and "owns (m_freeVector p') (m_nAllocCount p') U (held @ lost @ [e])"
  using mem_pool.alloc_owns(1) [OF assms] by (auto elim!: owns_perm)

subsection \<open>Entering the counters\<close>

text \<open>What a process recorder and a machine recorder leave alone.\<close>

definition process_side :: "'o client \<Rightarrow> 'o client \<Rightarrow> bool" where
  "process_side c c' \<longleftrightarrow> isConnect c' = isConnect c \<and> watched c' = watched c \<and>
     mentryPoolManager c' = mentryPoolManager c \<and> mentries c' = mentries c \<and>
     machineLogList c' = machineLogList c \<and> recorders c' = recorders c \<and>
     isMachineRecordEnd c' = isMachineRecordEnd c \<and> isProcessRecordEnd c' = isProcessRecordEnd c \<and>
     app_agentID c' = app_agentID c"

definition machine_side :: "'o client \<Rightarrow> 'o client \<Rightarrow> bool" where
  "machine_side c c' \<longleftrightarrow> isConnect c' = isConnect c \<and> watched c' = watched c \<and>
     entryPoolManager c' = entryPoolManager c \<and> pentries c' = pentries c \<and>
     processLogList c' = processLogList c \<and> recorders c' = recorders c \<and>
     isMachineRecordEnd c' = isMachineRecordEnd c \<and> isProcessRecordEnd c' = isProcessRecordEnd c \<and>
     app_agentID c' = app_agentID c"

lemma side_refl [simp]: "process_side c c" "machine_side c c"
  by (simp_all add: process_side_def machine_side_def)

lemma process_side_trans [trans]: "process_side a b \<Longrightarrow> process_side b c \<Longrightarrow> process_side a c"
  by (simp add: process_side_def)

lemma machine_side_trans [trans]: "machine_side a b \<Longrightarrow> machine_side b c \<Longrightarrow> machine_side a c"
  by (simp add: machine_side_def)

lemma side_io: "io_only c c' \<Longrightarrow> process_side c c'" "io_only c c' \<Longrightarrow> machine_side c c'"
  by (auto simp: process_side_def machine_side_def io_only_def watched_def)

lemma side_sys [simp]: "process_side c (c\<lparr>sys := os\<rparr>)" "machine_side c (c\<lparr>sys := os\<rparr>)"
  by (simp_all add: process_side_def machine_side_def watched_def)

lemma ClearLogList_side: "process_side c (ClearLogList False c)" "machine_side c (ClearLogList True c)"
proof -
  obtain pool pe where "ClearLogList False c = c\<lparr>entryPoolManager := pool, pentries := pe, processLogList := []\<rparr>"
    by (rule ClearLogList_process)
  then show "process_side c (ClearLogList False c)" by (simp add: process_side_def watched_def)
  obtain pool' me where "ClearLogList True c = c\<lparr>mentryPoolManager := pool', mentries := me, machineLogList := []\<rparr>"
    by (rule ClearLogList_machine)
  then show "machine_side c (ClearLogList True c)" by (simp add: machine_side_def watched_def)
qed

lemma init_process_side:
  assumes "init_process S q p names c = Some (ok, c')"
  shows "process_side c c'"
  using assms
proof (induction names arbitrary: c)
  case (Cons n names)
  obtain e pool where e: "Alloc (entryPoolManager c) = (Some e, pool)"
    using Cons.prems by (cases "Alloc (entryPoolManager c)") (auto split: option.splits)
  obtain ctr os where h: "PdhAddCounter S q (counter_name p n) (sys c) = (ctr, os)" by fastforce
  show ?case
  proof (cases ctr)
    case None
    then show ?thesis using Cons.prems e h by (auto simp: process_side_def watched_def)
  next
    case (Some x)
    with Cons.prems e h show ?thesis
      by (auto dest!: Cons.IH) (simp add: process_side_def watched_def)
  qed
qed simp

lemma init_process_owned:
  assumes "init_process S q p names c = Some (ok, c')" and "entries_owned c lost"
  shows "\<exists>more. entries_owned c' (lost @ more) \<and> length more = (if ok then 0 else 1)"
  using assms
proof (induction names arbitrary: c)
  case (Cons n names)
  obtain e pool where e: "Alloc (entryPoolManager c) = (Some e, pool)"
    using Cons.prems by (cases "Alloc (entryPoolManager c)") (auto split: option.splits)
  obtain ctr os where h: "PdhAddCounter S q (counter_name p n) (sys c) = (ctr, os)" by fastforce
  note own = Alloc_entry [OF Cons.prems(2) [unfolded entries_owned_def] e]
  show ?case
  proof (cases ctr)
    case None
    with Cons.prems(1) e h own(2) show ?thesis by (auto simp: entries_owned_def intro!: exI [of _ "[e]"])
  next
    case (Some x)
    with Cons.prems(1) e h show ?thesis
      by (intro Cons.IH) (use own(1) in \<open>auto simp: entries_owned_def\<close>)
  qed
qed auto

lemma init_processes_side:
  "init_processes S q ps c = Some (ok, c') \<Longrightarrow> process_side c c'"
proof (induction ps arbitrary: c)
  case (Cons p ps)
  then show ?case
    by (fastforce split: if_splits bind_splits dest: init_process_side intro: process_side_trans)
qed simp

lemma init_processes_owned:
  assumes "init_processes S q ps c = Some (ok, c')" and "entries_owned c lost"
  shows "\<exists>more. entries_owned c' (lost @ more) \<and> length more = (if ok then 0 else 1)"
  using assms
proof (induction ps arbitrary: c)
  case (Cons p ps)
  show ?case
  proof (cases "IsCheckProcess (proc_name p) c")
    case False
    with Cons show ?thesis by simp
  next
    case True
    with Cons.prems(1) obtain ok1 c1 where c1: "init_process S q p (counterList c) c = Some (ok1, c1)"
      "(if ok1 then init_processes S q ps c1 else Some (False, c1)) = Some (ok, c')"
      by (auto split: bind_splits)
    from init_process_owned [OF c1(1) Cons.prems(2)] show ?thesis
      using c1(2) Cons.IH [of c1] by (cases ok1) auto
  qed
qed auto

lemma init_machine_side:
  assumes "init_machine S q names c = Some (ok, c')"
  shows "machine_side c c'"
  using assms
proof (induction names arbitrary: c)
  case (Cons n names)
  obtain e pool where e: "Alloc (mentryPoolManager c) = (Some e, pool)"
    using Cons.prems by (cases "Alloc (mentryPoolManager c)") (auto split: option.splits)
  obtain ctr os where h: "PdhAddCounter S q n (sys c) = (ctr, os)" by fastforce
  show ?case
  proof (cases ctr)
    case None
    then show ?thesis using Cons.prems e h by (auto simp: machine_side_def watched_def)
  next
    case (Some x)
    with Cons.prems e h show ?thesis
      by (auto dest!: Cons.IH) (simp add: machine_side_def watched_def)
  qed
qed simp

lemma init_machine_owned:
  assumes "init_machine S q names c = Some (ok, c')" and "mentries_owned c lost"
  shows "\<exists>more. mentries_owned c' (lost @ more) \<and> length more = (if ok then 0 else 1)"
  using assms
proof (induction names arbitrary: c)
  case (Cons n names)
  obtain e pool where e: "Alloc (mentryPoolManager c) = (Some e, pool)"
    using Cons.prems by (cases "Alloc (mentryPoolManager c)") (auto split: option.splits)
  obtain ctr os where h: "PdhAddCounter S q n (sys c) = (ctr, os)" by fastforce
  note own = Alloc_entry [OF Cons.prems(2) [unfolded mentries_owned_def] e]
  show ?case
  proof (cases ctr)
    case None
    with Cons.prems(1) e h own(2) show ?thesis by (auto simp: mentries_owned_def intro!: exI [of _ "[e]"])
  next
    case (Some x)
    with Cons.prems(1) e h show ?thesis
      by (intro Cons.IH) (use own(1) in \<open>auto simp: mentries_owned_def\<close>)
  qed
qed auto

lemma InitCounterInfo_process:
  assumes "InitCounterInfo S q False c = Some (ok, c')"
  shows "process_side c c'" and "entries_owned c lost \<Longrightarrow> \<exists>more. entries_owned c' (lost @ more) \<and> length more \<le> (if ok then 0 else 1)"
proof -
  define c0 where "c0 = ClearLogList False c"
  obtain ps os where ps: "running_processes S (sys c0) = (ps, os)" by fastforce
  obtain c1 where c1: "SendCurrentProcessList S ps (c0\<lparr>helperProcessList := ps, sys := os\<rparr>) = Some c1"
    using assms ps by (auto simp: InitCounterInfo_def UpdateProcessList_def c0_def [symmetric] split: bind_splits)
  obtain ctr os' where h: "PdhAddCounter S q cpuCounter (sys c1) = (ctr, os')" by fastforce
  have c': "(case ctr of None \<Rightarrow> Some (False, c1\<lparr>sys := os'\<rparr>)
    | Some x \<Rightarrow> init_processes S q (helperProcessList c1) (c1\<lparr>sys := os', cpuCounterV := x\<rparr>)) = Some (ok, c')"
    using assms ps c1 h by (simp add: InitCounterInfo_def UpdateProcessList_def c0_def [symmetric])
  have own1: "entries_owned c1 lost" if own: "entries_owned c lost"
    using ClearLogList_owned(1) [OF own, folded c0_def] io_only_fields [OF sends_io(3) [OF c1]] by (simp add: entries_owned_def)
  have "process_side c c0" by (simp add: c0_def ClearLogList_side)
  also have "process_side c0 (c0\<lparr>helperProcessList := ps, sys := os\<rparr>)" by (simp add: process_side_def watched_def)
  also have "process_side \<dots> c1" by (rule side_io(1) [OF sends_io(3) [OF c1]])
  finally have s1: "process_side c c1" .
  show "process_side c c'"
  proof (cases ctr)
    case None
    with c' show ?thesis using s1 by (auto intro: process_side_trans)
  next
    case (Some x)
    have "process_side c1 (c1\<lparr>sys := os', cpuCounterV := x\<rparr>)" by (simp add: process_side_def watched_def)
    also have "process_side \<dots> c'" using c' Some by (auto intro: init_processes_side)
    finally show ?thesis using s1 by (blast intro: process_side_trans)
  qed
  show "\<exists>more. entries_owned c' (lost @ more) \<and> length more \<le> (if ok then 0 else 1)" if "entries_owned c lost"
  proof (cases ctr)
    case None
    with c' own1 [OF that] show ?thesis by (auto simp: entries_owned_def intro!: exI [of _ "[]"])
  next
    case (Some x)
    with c' own1 [OF that] show ?thesis
      using init_processes_owned [of S q "helperProcessList c1" "c1\<lparr>sys := os', cpuCounterV := x\<rparr>" ok c' lost]
      by (auto simp: entries_owned_def split: if_splits)
  qed
qed

lemma InitCounterInfo_machine:
  assumes "InitCounterInfo S q True c = Some (ok, c')"
  shows "machine_side c c'" and "mentries_owned c lost \<Longrightarrow> \<exists>more. mentries_owned c' (lost @ more) \<and> length more \<le> (if ok then 0 else 1)"
proof -
  have m: "init_machine S q (machineCounterList (ClearLogList True c)) (ClearLogList True c) = Some (ok, c')"
    using assms by (simp add: InitCounterInfo_def Let_def)
  from init_machine_side [OF m] ClearLogList_side(2) show "machine_side c c'" by (rule machine_side_trans [rotated])
  show "\<exists>more. mentries_owned c' (lost @ more) \<and> length more \<le> (if ok then 0 else 1)" if "mentries_owned c lost"
    using init_machine_owned [OF m ClearLogList_owned(2) [OF that]] by auto
qed

subsection \<open>Sampling\<close>

lemma sample_processes_frame:
  "\<exists>os pe. sample_processes S cpu es c = c\<lparr>sys := os, pentries := pe\<rparr>"
proof (induction es arbitrary: c)
  case Nil
  have "c = c\<lparr>sys := sys c, pentries := pentries c\<rparr>" by simp
  then show ?case by (metis sample_processes.simps(1))
next
  case (Cons e es)
  obtain v os where v: "PdhGetFormattedCounterValue S (pe_counter (pentries c e)) (sys c) = (v, os)" by fastforce
  obtain timer os' where t: "now S os = (timer, os')" by fastforce
  show ?case
  proof (cases v)
    case None
    then show ?thesis using v Cons.IH [of "c\<lparr>sys := os\<rparr>"] by auto
  next
    case (Some x)
    then show ?thesis
      using v t Cons.IH [of "c\<lparr>sys := os', pentries := _\<rparr>"] by (simp add: Let_def)
  qed
qed

lemma sample_machine_frame:
  "\<exists>os me. sample_machine S es c = c\<lparr>sys := os, mentries := me\<rparr>"
proof (induction es arbitrary: c)
  case Nil
  have "c = c\<lparr>sys := sys c, mentries := mentries c\<rparr>" by simp
  then show ?case by (metis sample_machine.simps(1))
next
  case (Cons e es)
  obtain v os where v: "PdhGetFormattedCounterValue S (me_counter (mentries c e)) (sys c) = (v, os)" by fastforce
  obtain timer os' where t: "now S os = (timer, os')" by fastforce
  show ?case
  proof (cases v)
    case None
    then show ?thesis using v Cons.IH [of "c\<lparr>sys := os\<rparr>"] by auto
  next
    case (Some x)
    then show ?thesis
      using v t Cons.IH [of "c\<lparr>sys := os', mentries := _\<rparr>"] by (simp add: Let_def)
  qed
qed

subsection \<open>A step of a recorder\<close>

text \<open>What a step of a recorder leaves alone, whatever the thread: the watched lists and the connection.\<close>

definition recorder_frame :: "'o client \<Rightarrow> 'o client \<Rightarrow> bool" where
  "recorder_frame c c' \<longleftrightarrow> watched c' = watched c \<and> isConnect c' = isConnect c \<and>
     app_agentID c' = app_agentID c \<and> map fst (recorders c') = map fst (recorders c)"

lemma recorder_frame_trans [trans]: "recorder_frame a b \<Longrightarrow> recorder_frame b c \<Longrightarrow> recorder_frame a c"
  by (simp add: recorder_frame_def)

lemma side_recorder_frame:
  "process_side c c' \<Longrightarrow> recorder_frame c c'" "machine_side c c' \<Longrightarrow> recorder_frame c c'"
  by (simp_all add: process_side_def machine_side_def recorder_frame_def)

lemma set_recorder_fields [simp]:
  "watched (set_recorder i r c) = watched c" "isConnect (set_recorder i r c) = isConnect c"
  "app_agentID (set_recorder i r c) = app_agentID c" "entries_owned (set_recorder i r c) = entries_owned c"
  "mentries_owned (set_recorder i r c) = mentries_owned c"
  "isMachineRecordEnd (set_recorder i r c) = isMachineRecordEnd c"
  "isProcessRecordEnd (set_recorder i r c) = isProcessRecordEnd c"
  "machineLogList (set_recorder i r c) = machineLogList c" "mentries (set_recorder i r c) = mentries c"
  "sys (set_recorder i r c) = sys c"
  by (simp_all add: set_recorder_def watched_def entries_owned_def mentries_owned_def fun_eq_iff)

lemma set_recorder_frame [simp]: "recorder_frame c (set_recorder i r c)"
proof -
  have "map fst ((recorders c)[i := (fst (recorders c ! i), r)]) = map fst (recorders c)"
    by (cases "i < length (recorders c)") (simp_all add: map_update list_update_same_conv list_update_beyond)
  then show ?thesis by (simp add: recorder_frame_def set_recorder_def watched_def)
qed

lemma record_done_fields [simp]:
  "entries_owned (record_done i m c) = entries_owned c" "mentries_owned (record_done i m c) = mentries_owned c"
  by (simp_all add: record_done_def entries_owned_def mentries_owned_def fun_eq_iff)

lemma record_done_frame [simp]: "recorder_frame c (record_done i m c)"
  unfolding record_done_def
  by (rule recorder_frame_trans [OF _ set_recorder_frame]) (simp add: recorder_frame_def watched_def)

definition logs_owned :: "'o client \<Rightarrow> nat list \<Rightarrow> nat list \<Rightarrow> bool" where
  "logs_owned c lost mlost \<longleftrightarrow> entries_owned c lost \<and> mentries_owned c mlost"

lemma logs_owned_side:
  "process_side c c' \<Longrightarrow> mentries_owned c' = mentries_owned c"
  "machine_side c c' \<Longrightarrow> entries_owned c' = entries_owned c"
  by (simp_all add: process_side_def machine_side_def entries_owned_def mentries_owned_def fun_eq_iff)

lemma io_only_owned: "io_only c c' \<Longrightarrow> entries_owned c' = entries_owned c \<and> mentries_owned c' = mentries_owned c"
  by (simp add: io_only_fields entries_owned_def mentries_owned_def fun_eq_iff)

text \<open>
  A step keeps the entries apart, and takes at most one out for good. The relation is used for the
  parts of a step as well; \<open>k\<close> bounds what is lost.
\<close>

definition keeps_entries :: "nat \<Rightarrow> 'o client \<Rightarrow> 'o client \<Rightarrow> bool" where
  "keeps_entries k c c' \<longleftrightarrow> recorder_frame c c' \<and>
     (\<forall>lost mlost. logs_owned c lost mlost \<longrightarrow>
        (\<exists>more mmore. logs_owned c' (lost @ more) (mlost @ mmore) \<and> length more + length mmore \<le> k))"

lemma keeps_entries_same:
  assumes "recorder_frame c c'" and "entries_owned c' = entries_owned c" and "mentries_owned c' = mentries_owned c"
  shows "keeps_entries 0 c c'"
  using assms by (auto simp: keeps_entries_def logs_owned_def)

lemma keeps_entries_trans:
  assumes "keeps_entries j a b" and "keeps_entries k b c"
  shows "keeps_entries (j + k) a c"
  unfolding keeps_entries_def
proof (intro conjI allI impI)
  show "recorder_frame a c" using assms by (auto simp: keeps_entries_def intro: recorder_frame_trans)
  fix lost mlost assume "logs_owned a lost mlost"
  then obtain m mm where b: "logs_owned b (lost @ m) (mlost @ mm)" "length m + length mm \<le> j"
    using assms(1) unfolding keeps_entries_def by blast
  then obtain m' mm' where "logs_owned c ((lost @ m) @ m') ((mlost @ mm) @ mm')" "length m' + length mm' \<le> k"
    using assms(2) unfolding keeps_entries_def by blast
  with b show "\<exists>more mmore. logs_owned c (lost @ more) (mlost @ mmore) \<and> length more + length mmore \<le> j + k"
    by (intro exI [of _ "m @ m'"] exI [of _ "mm @ mm'"]) simp
qed

lemma keeps_entries_then:
  "keeps_entries k a b \<Longrightarrow> keeps_entries 0 b c \<Longrightarrow> keeps_entries k a c"
  "keeps_entries 0 a b \<Longrightarrow> keeps_entries k b c \<Longrightarrow> keeps_entries k a c"
  using keeps_entries_trans [of k a b 0 c] keeps_entries_trans [of 0 a b k c] by simp_all

lemma keeps_entries_le: "keeps_entries j a b \<Longrightarrow> j \<le> k \<Longrightarrow> keeps_entries k a b"
  by (fastforce simp: keeps_entries_def)

lemma keeps_entries_simps [simp]:
  "keeps_entries k c (set_recorder i r c') \<longleftrightarrow> keeps_entries k c c'"
  "keeps_entries k c (record_done i m c') \<longleftrightarrow> keeps_entries k c c'"
  "keeps_entries k c (c'\<lparr>sys := os\<rparr>) \<longleftrightarrow> keeps_entries k c c'"
  "keeps_entries k (c\<lparr>sys := os\<rparr>) c' \<longleftrightarrow> keeps_entries k c c'"
  using set_recorder_frame [of c' i r] record_done_frame [of c' i m]
  by (auto simp: keeps_entries_def recorder_frame_def watched_def logs_owned_def entries_owned_def mentries_owned_def
      record_done_def)

lemma keeps_entries_refl [simp]: "keeps_entries k c c"
  by (rule keeps_entries_le [OF keeps_entries_same]) (simp_all add: recorder_frame_def)

lemma keeps_entries_io: "io_only c c' \<Longrightarrow> keeps_entries 0 c c'"
  by (rule keeps_entries_same) (simp_all add: io_only_owned side_io(1) side_recorder_frame(1))

lemma keeps_entries_clear: "keeps_entries 0 c (ClearLogList m c)"
proof (cases m)
  case True
  then show ?thesis using ClearLogList_owned(2) [of c] logs_owned_side(2) [OF ClearLogList_side(2) [of c]]
    side_recorder_frame(2) [OF ClearLogList_side(2) [of c]] by (auto simp: keeps_entries_def logs_owned_def)
next
  case False
  then show ?thesis using ClearLogList_owned(1) [of c] logs_owned_side(1) [OF ClearLogList_side(1) [of c]]
    side_recorder_frame(1) [OF ClearLogList_side(1) [of c]] by (auto simp: keeps_entries_def logs_owned_def)
qed

lemma keeps_entries_init:
  assumes i: "InitCounterInfo S q m c = Some (ok, c')"
  shows "keeps_entries (if ok then 0 else 1) c c'"
proof (cases m)
  case True
  with i have "InitCounterInfo S q True c = Some (ok, c')" by simp
  note m = InitCounterInfo_machine [OF this]
  show ?thesis
    unfolding keeps_entries_def logs_owned_def logs_owned_side(2) [OF m(1)]
    using side_recorder_frame(2) [OF m(1)] m(2) by (fastforce intro: exI [of _ "[]"])
next
  case False
  with i have "InitCounterInfo S q False c = Some (ok, c')" by simp
  note p = InitCounterInfo_process [OF this]
  show ?thesis
    unfolding keeps_entries_def logs_owned_def logs_owned_side(1) [OF p(1)]
    using side_recorder_frame(1) [OF p(1)] p(2) by (fastforce intro: exI [of _ "[]"])
qed

lemma keeps_entries_sample [simp]:
  "keeps_entries k c (sample_processes S cpu es c') \<longleftrightarrow> keeps_entries k c c'"
  "keeps_entries k c (sample_machine S es c') \<longleftrightarrow> keeps_entries k c c'"
proof -
  obtain os pe where "sample_processes S cpu es c' = c'\<lparr>sys := os, pentries := pe\<rparr>"
    using sample_processes_frame [of S cpu es c'] by blast
  then show "keeps_entries k c (sample_processes S cpu es c') \<longleftrightarrow> keeps_entries k c c'"
    by (simp add: keeps_entries_def recorder_frame_def watched_def logs_owned_def entries_owned_def mentries_owned_def)
  obtain os' me where "sample_machine S es c' = c'\<lparr>sys := os', mentries := me\<rparr>"
    using sample_machine_frame [of S es c'] by blast
  then show "keeps_entries k c (sample_machine S es c') \<longleftrightarrow> keeps_entries k c c'"
    by (simp add: keeps_entries_def recorder_frame_def watched_def logs_owned_def entries_owned_def mentries_owned_def)
qed

text \<open>A step moves the recorder \<open>i\<close>, and loses an entry at most where the recorder gives up.\<close>

definition recorder_moved :: "nat \<Rightarrow> 'o client \<Rightarrow> 'o client \<Rightarrow> bool" where
  "recorder_moved i c c' \<longleftrightarrow>
     (\<exists>r. recorders c' = (recorders c)[i := (fst (recorders c ! i), r)] \<and>
          keeps_entries (if r = Returned False then 1 else 0) c c')"

lemma recorders_sample [simp]:
  "recorders (sample_processes S cpu es c) = recorders c" "recorders (sample_machine S es c) = recorders c"
  using sample_processes_frame [of S cpu es c] sample_machine_frame [of S es c] by auto

lemma recorders_clear [simp]: "recorders (ClearLogList m c) = recorders c"
  using ClearLogList_side [of c] by (cases m) (simp_all add: process_side_def machine_side_def)

lemma InitCounterInfo_recorders: "InitCounterInfo S q m c = Some (ok, c') \<Longrightarrow> recorders c' = recorders c"
  using InitCounterInfo_process(1) [of S q c ok c'] InitCounterInfo_machine(1) [of S q c ok c']
  by (cases m) (simp_all add: process_side_def machine_side_def)

lemma recorders_set:
  "recorders (set_recorder i r c) = (recorders c)[i := (fst (recorders c ! i), r)]"
  "recorders (record_done i m c) = (recorders c)[i := (fst (recorders c ! i), Returned True)]"
  by (simp_all add: record_done_def set_recorder_def)

lemma moved_set:
  assumes "keeps_entries (if r = Returned False then 1 else 0) c c1" and "recorders c1 = recorders c"
  shows "recorder_moved i c (set_recorder i r c1)"
  using assms unfolding recorder_moved_def by (intro exI [of _ r]) (simp add: recorders_set)

lemma moved_done:
  assumes "keeps_entries 0 c c1" and "recorders c1 = recorders c"
  shows "recorder_moved i c (record_done i m c1)"
  using assms unfolding recorder_moved_def by (intro exI [of _ "Returned True"]) (simp add: recorders_set)

lemma inner_moved:
  "inner_test i a t q c1 = Some c' \<Longrightarrow> keeps_entries 0 c c1 \<Longrightarrow> recorders c1 = recorders c \<Longrightarrow> recorder_moved i c c'"
  by (auto simp: inner_test_def split: if_splits intro: moved_set)

lemma head_moved:
  assumes "record_head S i m a t c = Some c'"
  shows "recorder_moved i c c'"
proof (cases "\<not> (t <s ra_totalTime a \<or> ra_totalTime a <s 0) \<or> record_end m c")
  case True
  with assms show ?thesis by (auto simp: record_head_def intro: moved_done)
next
  case False
  obtain q os where q: "PdhOpenQuery S (sys c) = (q, os)" by fastforce
  show ?thesis
  proof (cases q)
    case None
    with assms False q show ?thesis by (auto simp: record_head_def intro!: moved_set)
  next
    case (Some query)
    with assms False q obtain ok c1 where c1: "InitCounterInfo S query m (c\<lparr>sys := os\<rparr>) = Some (ok, c1)"
      "c' = (if ok then set_recorder i (Sampling a t query) c1
             else set_recorder i (Returned False) (ClearLogList m c1))"
      by (auto simp: record_head_def split: bind_splits)
    have k: "keeps_entries (if ok then 0 else 1) c c1" using keeps_entries_init [OF c1(1)] by simp
    show ?thesis
    proof (cases ok)
      case True
      with k c1 show ?thesis by (auto intro!: moved_set dest: InitCounterInfo_recorders)
    next
      case ok: False
      with k have "keeps_entries 1 c (ClearLogList m c1)"
        by (auto intro: keeps_entries_then(1) keeps_entries_clear)
      with ok c1 show ?thesis by (auto intro!: moved_set dest: InitCounterInfo_recorders)
    qed
  qed
qed

lemma sample_moved:
  assumes "record_sample S i m a t q c = Some c'"
  shows "recorder_moved i c c'"
proof -
  obtain ok1 os1 where 1: "PdhCollectQueryData S q (sys c) = (ok1, os1)" by fastforce
  obtain ok2 os2 where 2: "PdhCollectQueryDataEx S q (ra_interval a) os1 = (ok2, os2)" by fastforce
  obtain sg os3 where 3: "wait_event S os2 = (sg, os3)" by fastforce
  obtain cpu os4 where 4: "PdhGetFormattedCounterValue S (cpuCounterV c) os3 = (cpu, os4)" by fastforce
  show ?thesis
    using assms 1 2 3 4
    by (auto simp: record_sample_def Let_def split: if_splits option.splits intro: moved_set dest!: inner_moved [where c = c])
qed

lemma close_moved:
  assumes "record_close S i m a t q c = Some c'"
  shows "recorder_moved i c c'"
proof -
  obtain ok os where os: "PdhCloseQuery S q (sys c) = (ok, os)" by fastforce
  show ?thesis
  proof (cases ok)
    case False
    with assms os show ?thesis by (auto simp: record_close_def intro: moved_set)
  next
    case True
    then obtain c1 where c1: "io_only (c\<lparr>sys := os\<rparr>) c1"
      "c' = (if \<not> isConnect c1 then record_done i m c1 else set_recorder i (LoopHead a t) c1)"
      using assms os by (auto simp: record_close_def Let_def split: bind_splits if_splits dest!: sends_io(6,7))
    have "keeps_entries 0 c c1" "recorders c1 = recorders c"
      using keeps_entries_io [OF c1(1)] io_only_fields(14) [OF c1(1)] by simp_all
    then show ?thesis using c1(2) by (auto intro: moved_set moved_done)
  qed
qed

lemma record_step_moved:
  assumes "record_step S i c = Some c'"
  shows "c' = c \<or> i < length (recorders c) \<and> (\<forall>r. snd (recorders c ! i) \<noteq> Returned r) \<and> recorder_moved i c c'"
  using assms
  by (cases "snd (recorders c ! i)")
    (auto simp: record_step_def Let_def split: if_splits intro!: moved_set intro: head_moved sample_moved close_moved)

text \<open>The recorders that gave up.\<close>

definition failed :: "'o client \<Rightarrow> nat" where
  "failed c = length (filter (\<lambda>r. snd r = Returned False) (recorders c))"

lemma length_filter_update:
  "i < length xs \<Longrightarrow> \<not> P (xs ! i) \<Longrightarrow>
    length (filter P (xs[i := x])) = length (filter P xs) + (if P x then 1 else 0)"
  by (induction xs arbitrary: i) (auto split: nat.splits)

lemma record_step_keeps:
  assumes "record_step S i c = Some c'"
  obtains k where "keeps_entries k c c'" "failed c' = failed c + k"
proof (cases "c' = c")
  case True
  then show ?thesis using that [of 0] by simp
next
  case False
  then obtain r where r: "i < length (recorders c)" "snd (recorders c ! i) \<noteq> Returned False"
    "recorders c' = (recorders c)[i := (fst (recorders c ! i), r)]"
    "keeps_entries (if r = Returned False then 1 else 0) c c'"
    using record_step_moved [OF assms] by (auto simp: recorder_moved_def)
  show ?thesis
    by (rule that [OF r(4)]) (simp add: failed_def r(1-3) length_filter_update)
qed

subsection \<open>The packets of the server\<close>

definition entry_fields where
  "entry_fields c = (entryPoolManager c, processLogList c, mentryPoolManager c, machineLogList c, pentries c, mentries c)"

lemma entry_fields_owned: "entry_fields c' = entry_fields c \<Longrightarrow> logs_owned c' = logs_owned c"
  by (simp add: entry_fields_def logs_owned_def entries_owned_def mentries_owned_def fun_eq_iff)

lemma io_only_entry_fields: "io_only c c' \<Longrightarrow> entry_fields c' = entry_fields c"
  by (simp add: entry_fields_def io_only_fields)

lemma entry_fields_operations [simp]:
  "entry_fields (snd (AddCounter n m c)) = entry_fields c" "entry_fields (snd (DeleteCounter n m c)) = entry_fields c"
  "entry_fields (snd (AddProcess n c)) = entry_fields c" "entry_fields (snd (DeleteProcess n c)) = entry_fields c"
  "entry_fields (snd (StartRecord m t r i d c)) = entry_fields c" "entry_fields (snd (StopRecord m c)) = entry_fields c"
  by (simp_all add: entry_fields_def AddCounter_def DeleteCounter_def AddProcess_def DeleteProcess_def
      StartRecord_def StopRecord_def Let_def)

lemma each_entry_fields:
  "(\<And>x c. entry_fields (snd (f x c)) = entry_fields c) \<Longrightarrow> entry_fields (each f xs c) = entry_fields c"
  by (induction xs arbitrary: c) simp_all

text \<open>What a handler keeps: the entries, and the lists free of duplicates.\<close>

definition handler_keeps :: "'o client \<Rightarrow> 'o client \<Rightarrow> bool" where
  "handler_keeps c c' \<longleftrightarrow> entry_fields c' = entry_fields c \<and> failed c' = failed c \<and> (no_duplicates c \<longrightarrow> no_duplicates c')"

lemma failed_kept [simp]:
  "failed (snd (AddCounter n m c)) = failed c" "failed (snd (DeleteCounter n m c)) = failed c"
  "failed (snd (AddProcess n c)) = failed c" "failed (snd (DeleteProcess n c)) = failed c"
  "failed (snd (StartRecord m t r i d c)) = failed c" "failed (snd (StopRecord m c)) = failed c"
  by (simp_all add: failed_def AddCounter_def DeleteCounter_def AddProcess_def DeleteProcess_def
      StartRecord_def StopRecord_def Let_def)

lemma io_only_failed: "io_only c c' \<Longrightarrow> failed c' = failed c"
  by (simp add: failed_def io_only_fields)

lemma handler_keeps_refl [simp]: "handler_keeps c c"
  by (simp add: handler_keeps_def)

lemma handler_keeps_trans: "handler_keeps a b \<Longrightarrow> handler_keeps b c \<Longrightarrow> handler_keeps a c"
  by (simp add: handler_keeps_def)

lemma handler_keeps_io: "io_only c c' \<Longrightarrow> handler_keeps c c'"
  by (simp add: handler_keeps_def io_only_entry_fields io_only_failed watched_no_duplicates [OF io_only_watched])

lemmas then_sent = handler_keeps_trans [OF _ handler_keeps_io]

lemma handler_keeps_operations [simp]:
  "handler_keeps c (snd (AddCounter n m c))" "handler_keeps c (snd (DeleteCounter n m c))"
  "handler_keeps c (snd (AddProcess n c))" "handler_keeps c (snd (DeleteProcess n c))"
  "handler_keeps c (snd (StartRecord m t r i d c))" "handler_keeps c (snd (StopRecord m c))"
  by (simp_all add: handler_keeps_def list_operations_no_duplicates
      watched_no_duplicates [OF record_operations_watched(1)] watched_no_duplicates [OF record_operations_watched(2)])

lemma handler_keeps_each:
  assumes "\<And>x c. handler_keeps c (snd (f x c))"
  shows "handler_keeps c (each f xs c)"
proof (induction xs arbitrary: c)
  case (Cons x xs)
  show ?case using handler_keeps_trans [OF assms Cons.IH] by simp
qed simp

lemma handler_keeps_fields [simp]:
  "handler_keeps c (c'\<lparr>app_agentID := n\<rparr>) = handler_keeps c c'" "handler_keeps c (c'\<lparr>isConnect := b\<rparr>) = handler_keeps c c'"
  "handler_keeps c (c'\<lparr>csocket := s\<rparr>) = handler_keeps c c'" "handler_keeps c (c'\<lparr>ccalls := cs\<rparr>) = handler_keeps c c'"
  by (simp_all add: handler_keeps_def entry_fields_def no_duplicates_def failed_def)

lemma handle_id_keeps:
  assumes "handle_AgentIDResponse S packet c = Some c'"
  shows "handler_keeps c c'"
proof (cases "scAgentIDResponse_parse (cwire S) (payload packet)")
  case (Some msg)
  show ?thesis
  proof (cases "get_or False (idrsp_alreadyRunning msg)")
    case True
    with assms Some show ?thesis by (auto simp: handle_AgentIDResponse_def intro: handler_keeps_io client_disconnect_io)
  next
    case False
    with assms Some have "SendProcessListRequest S (c\<lparr>app_agentID := get_or 0 (idrsp_agentID msg)\<rparr>) = Some c'"
      by (simp add: handle_AgentIDResponse_def)
    from then_sent [OF _ sends_io(1) [OF this], of c] show ?thesis by simp
  qed
qed (use assms in \<open>simp add: handle_AgentIDResponse_def\<close>)

lemma handle_processes_keeps:
  assumes "handle_ProcessListResponse S packet c = Some c'"
  shows "handler_keeps c c'"
  by (rule then_sent [OF _ sends_io(2) [OF assms [unfolded handle_ProcessListResponse_def]]])
    (simp add: handler_keeps_each split: option.split)

lemma handle_counters_keeps:
  assumes "handle_CounterListResponse S packet c = Some c'"
  shows "handler_keeps c c'"
proof (cases "scCounterListResponse_parse (cwire S) (payload packet)")
  case (Some msg)
  let ?each = "\<lambda>m. each (\<lambda>n. AddCounter n m) (clrsp_counterName msg) c"
  have e: "handler_keeps c (?each m)" for m by (simp add: handler_keeps_each)
  show ?thesis
    using assms Some then_sent [OF e sends_io(2)] then_sent [OF e sends_io(5)]
    by (auto simp: handle_CounterListResponse_def split: if_splits)
qed (use assms in \<open>simp add: handle_CounterListResponse_def\<close>)

lemma handle_start_keeps:
  assumes "handle_StartRecord S packet c = Some c'"
  shows "handler_keeps c c'"
proof (cases "scStartRecord_parse (cwire S) (payload packet)")
  case (Some msg)
  show ?thesis
    using assms Some then_sent [OF handler_keeps_operations(5) sends_io(4)]
    by (auto simp: handle_StartRecord_def Let_def case_prod_beta)
qed (use assms in \<open>simp add: handle_StartRecord_def\<close>)

lemma handle_stop_keeps:
  assumes "handle_StopRecord S packet c = Some c'"
  shows "handler_keeps c c'"
proof (cases "scStartRecord_parse (cwire S) (payload packet)")
  case (Some msg)
  show ?thesis
    using assms Some then_sent [OF handler_keeps_operations(6) sends_io(4)]
    by (auto simp: handle_StopRecord_def Let_def case_prod_beta)
qed (use assms in \<open>simp add: handle_StopRecord_def\<close>)

lemma handle_commands_keep:
  "handler_keeps c (handle_ProcessCommandRequest S packet c)" "handler_keeps c (handle_CounterCommandRequest S packet c)"
  by (simp_all add: handle_ProcessCommandRequest_def handle_CounterCommandRequest_def Let_def
      split: option.split ProcessCommandType.split CounterCommandType.split)

lemma handle_packet_keeps: "handle_packet S packet c = Some c' \<Longrightarrow> handler_keeps c c'"
  using handle_id_keeps handle_processes_keeps handle_counters_keeps handle_start_keeps handle_stop_keeps
    handler_keeps_io [OF SendHealthAck_io]
  by (auto simp: handle_packet_def handle_commands_keep split: option.splits agentType.splits)

lemma PacketHandling_keeps: "PacketHandling S b packet c = Some c' \<Longrightarrow> handler_keeps c c'"
  by (auto simp: PacketHandling_def free_packet_def split: if_splits dest: handle_packet_keeps)

lemma ConnProcess_keeps:
  assumes "ConnProcess S isErr c = Some c'"
  shows "handler_keeps c c'"
proof (cases isErr)
  case False
  obtain c1 where "SendAgentIDRequest S (c\<lparr>isConnect := True\<rparr>) = Some c1"
    using assms False by (cases "SendAgentIDRequest S (c\<lparr>isConnect := True\<rparr>)") (simp_all add: ConnProcess_def)
  with assms False then_sent [OF _ SendAgentIDRequest_io [OF this], of c] show ?thesis
    by (auto simp: ConnProcess_def case_prod_beta)
qed (use assms in \<open>simp add: ConnProcess_def\<close>)

lemma DisconnProcess_keeps: "handler_keeps c (DisconnProcess isErr c)"
proof (cases isErr)
  case False
  let ?c = "snd (StopRecord True (c\<lparr>isConnect := False\<rparr>))"
  have "handler_keeps c ?c"
    by (rule handler_keeps_trans [OF _ handler_keeps_operations(6)]) simp
  then show ?thesis
    using False handler_keeps_trans [OF _ handler_keeps_operations(6), of c ?c False]
    by (simp add: DisconnProcess_def Let_def case_prod_beta)
qed (simp add: DisconnProcess_def)

lemma client_run_append:
  "client_run S (es @ fs) c = Option.bind (client_run S es c) (client_run S fs)"
  by (induction es arbitrary: c) (auto split: Option.bind_split)

end
