(* ===== verification/DemoClient.thy ===== *)
theory DemoClient imports ClientLemmas StoreProperties begin

text \<open>
  An agent on a small system, for the witnesses: the system runs five processes and gives or refuses
  counters as its flag says, and its \<open>std::sort\<close> is a stable sort.
\<close>

definition demo_S :: "bool system" where
  "demo_S = \<lparr>host_address = (\<lambda>_. Some 7),
     wsa_send = (\<lambda>os. (IoDone, os)),
     snapshot = (\<lambda>os. ([(''[System Process]'', 0), (''System'', 4), (''b.exe'', 10), (''a.exe'', 11), (''b.exe'', 12)], os)),
     std_sort = sort_key proc_name,
     now = (\<lambda>os. (0, os)),
     PdhOpenQuery = (\<lambda>os. (Some 1, os)),
     PdhAddCounter = (\<lambda>q name os. (if os then Some 2 else None, os)),
     PdhCollectQueryData = (\<lambda>q os. (True, os)),
     PdhCollectQueryDataEx = (\<lambda>q iv os. (True, os)),
     wait_event = (\<lambda>os. (True, os)),
     PdhGetFormattedCounterValue = (\<lambda>h os. (Some 0, os)),
     PdhCloseQuery = (\<lambda>q os. (True, os)),
     double_mult = (\<lambda>a b. a),
     double_percent = (\<lambda>a. a),
     cwire = proto_wire\<rparr>"

lemma demo_sorts: "sorts (std_sort demo_S)"
proof -
  have "std_sort demo_S = sort_key proc_name" by (simp add: demo_S_def)
  then show ?thesis using sorted_sort_key [of "proc_name :: ProcessInfo \<Rightarrow> string"] by (simp add: sorts_def sorted_wrt_map)
qed

definition demo_client_raw :: TcpSocket where
  "demo_client_raw = \<lparr>socket = -1, disconnectCall = False, acceptBuf = [], recvBuf = [], sendBuf = [],
     wsaRecvBuf = (0, 0), wsaSendBuf = [], act = (\<lambda>_. None)\<rparr>"

definition demo_client :: "bool \<Rightarrow> bool client" where
  "demo_client os = the (AgentClientApp_Start demo_client_raw
     (\<lambda>_. \<lparr>pe_counterName = [], pe_processName = [], pe_counter = 0, pe_processID = 0, pe_logs = []\<rparr>)
     (\<lambda>_. \<lparr>me_counterName = [], me_counter = 0, me_logs = []\<rparr>) 0 1 os)"

lemma demo_client_started:
  "AgentClientApp_Start demo_client_raw
     (\<lambda>_. \<lparr>pe_counterName = [], pe_processName = [], pe_counter = 0, pe_processID = 0, pe_logs = []\<rparr>)
     (\<lambda>_. \<lparr>me_counterName = [], me_counter = 0, me_logs = []\<rparr>) 0 1 os = Some (demo_client os)"
  by (simp add: demo_client_def AgentClientApp_Start_def AgentClientSocket_def MemPooler_def)

lemma demo_client_fields [simp]:
  "socket (csocket (demo_client os)) = 1" "isConnect (demo_client os) = False"
  "machineCounterList (demo_client os) = []" "counterList (demo_client os) = []" "checkProcessList (demo_client os) = []"
  "machineLogList (demo_client os) = []" "processLogList (demo_client os) = []"
  "isMachineRecordEnd (demo_client os)" "isProcessRecordEnd (demo_client os)"
  "recorders (demo_client os) = []" "sys (demo_client os) = os"
  "m_nAllocCount (mentryPoolManager (demo_client os)) = 0" "m_nAllocCount (entryPoolManager (demo_client os)) = 0"
  "m_freeVector (mentryPoolManager (demo_client os)) = [0..<1000]"
  "m_freeVector (entryPoolManager (demo_client os)) = [0..<1000]"
  by (simp_all add: demo_client_def AgentClientApp_Start_def AgentClientSocket_def MemPooler_def Create_def
      CreateConnectSocket_def client_Bind_def InitAct_def TcpSocket.Init_def InitBuf_def)

text \<open>The server asks for a counter of the machine, and for a record of it.\<close>

definition demo_counter_msg :: scCounterCommandRequest where
  "demo_counter_msg = \<lparr>ccmd_type = Some CADDLIST, ccmd_counterName = Some ''c'', ccmd_isMachine = Some True\<rparr>"

definition demo_counter_packet :: CPacket where
  "demo_counter_packet =
     (demo_packet (scCounterCommandRequest_serialize proto_wire demo_counter_msg))\<lparr>ptype := agentType_value CounterCommandRequest\<rparr>"

definition demo_start_msg :: scStartRecord where
  "demo_start_msg = \<lparr>start_isMachine = Some True, start_totalRecordTime = Some 10, start_interval = Some 1,
     start_responseTime = Some 2, start_delay = Some 0\<rparr>"

definition demo_start_packet :: CPacket where
  "demo_start_packet =
     (demo_packet (scStartRecord_serialize proto_wire demo_start_msg))\<lparr>ptype := agentType_value agentType.StartRecord\<rparr>"

lemma payload_ptype [simp]: "payload (p\<lparr>ptype := x\<rparr>) = payload p"
  by (simp add: payload_def)

lemma demo_cwire [simp]: "cwire demo_S = proto_wire"
  by (simp add: demo_S_def)

lemma demo_counter_parse: "scCounterCommandRequest_parse proto_wire (payload demo_counter_packet) = Some demo_counter_msg"
proof -
  have "length (scCounterCommandRequest_serialize proto_wire demo_counter_msg) \<le> 55"
    unfolding scCounterCommandRequest_serialize_def
    by (rule wire_smallD [OF proto_wire_small])
      (simp_all add: scCounterCommandRequest_fields_def demo_counter_msg_def put_enum_defs)
  then have "length (scCounterCommandRequest_serialize proto_wire demo_counter_msg) < 32768" by simp
  moreover have "scCounterCommandRequest_initialized demo_counter_msg"
    by (simp add: scCounterCommandRequest_initialized_def demo_counter_msg_def)
  ultimately show ?thesis
    by (simp add: demo_counter_packet_def demo_packet_payload scCounterCommandRequest_roundtrip proto_wire_ok)
qed

lemma demo_start_parse: "scStartRecord_parse proto_wire (payload demo_start_packet) = Some demo_start_msg"
proof -
  have "length (scStartRecord_serialize proto_wire demo_start_msg) \<le> 55"
    unfolding scStartRecord_serialize_def
    by (rule wire_smallD [OF proto_wire_small])
      (simp_all add: scStartRecord_fields_def demo_start_msg_def)
  then have "length (scStartRecord_serialize proto_wire demo_start_msg) < 32768" by simp
  moreover have "scStartRecord_initialized demo_start_msg"
    by (simp add: scStartRecord_initialized_def demo_start_msg_def)
  ultimately show ?thesis
    by (simp add: demo_start_packet_def demo_packet_payload scStartRecord_roundtrip proto_wire_ok)
qed

lemma demo_types [simp]:
  "agentType_of (ptype demo_counter_packet) = Some CounterCommandRequest"
  "agentType_of (ptype demo_start_packet) = Some agentType.StartRecord"
  by (simp_all add: demo_counter_packet_def demo_start_packet_def)

text \<open>The agent after both: it watches the counter, and the recorder waits.\<close>

definition demo_args :: record_args where
  "demo_args = \<lparr>ra_totalTime = 10, ra_recordTime = 2, ra_interval = 1, ra_delay = 0\<rparr>"

definition demo_asked :: "client_event list" where
  "demo_asked = [ServerPacket (0, 0) demo_counter_packet, ServerPacket (0, 0) demo_start_packet]"

lemma demo_asked_run:
  obtains c where "client_run demo_S demo_asked (demo_client os) = Some c"
    "machineCounterList c = [''c'']" "recorders c = [(True, Delayed demo_args)]" "sys c = os"
    "\<not> isMachineRecordEnd c" "machineLogList c = []" "isConnect c = False"
    "m_nAllocCount (mentryPoolManager c) = 0" "m_freeVector (mentryPoolManager c) = [0..<1000]"
proof -
  have 1: "handle_CounterCommandRequest demo_S demo_counter_packet (demo_client os) =
      (demo_client os)\<lparr>machineCounterList := [''c'']\<rparr>"
    by (simp add: handle_CounterCommandRequest_def demo_counter_parse) (simp add: demo_counter_msg_def AddCounter_def)
  let ?c1 = "free_packet (0, 0) ((demo_client os)\<lparr>machineCounterList := [''c'']\<rparr>)"
  show thesis
    by (rule that [of "free_packet (0, 0) (?c1\<lparr>isMachineRecordEnd := False, recorders := [(True, Delayed demo_args)]\<rparr>)"])
      (simp_all add: demo_asked_def PacketHandling_def handle_packet_def 1 handle_StartRecord_def demo_start_parse
        demo_start_msg_def demo_args_def StartRecord_def SendRecordResponse_def send_connected_def get_or_def free_packet_def)
qed

end
