(* ===== verification/ClientProperties.thy ===== *)
theory ClientProperties imports DemoClient begin

text \<open>
  The properties of the agent: what its lists and its log entries keep along every run, the process
  list and the logs it sends, and how its recorders start, report and stop.
\<close>

subsection \<open>Runs\<close>








subsection \<open>A counter that is refused\<close>







subsection \<open>Stopping and starting again\<close>

lemma record_head_goes_on:
  assumes "record_head S i m a t c = Some c'" and "t <s ra_totalTime a \<or> ra_totalTime a <s 0"
    and "\<not> record_end m c" and "i < length (recorders c)"
  shows "snd (recorders c' ! i) \<noteq> Returned True"
proof -
  obtain q os where q: "PdhOpenQuery S (sys c) = (q, os)" by fastforce
  show ?thesis
    using assms q
    by (auto simp: record_head_def recorders_set Let_def split: option.splits bind_splits if_splits
        dest!: InitCounterInfo_recorders)
qed

text \<open>
  C31. A stopped recorder notices the stop at the head of its loop, returns and leaves its flag up. But when a
  record of the same kind is started before that, both commands are answered with success and the old recorder
  goes on beside the new one.
\<close>

theorem stop_and_start_again:
  assumes "i < length (recorders c)" and "recorders c ! i = (m, LoopHead a t)" and "\<not> record_end m c"
    and "t <s ra_totalTime a \<or> ra_totalTime a <s 0"
  shows "\<exists>c1 c2. StopRecord m c = (True, c1) \<and> StartRecord m T R I D c1 = (True, c2) \<and>
    (\<exists>c'. record_step S i c1 = Some c' \<and> recorders c' ! i = (m, Returned True) \<and> record_end m c') \<and>
    length (recorders c2) = Suc (length (recorders c)) \<and>
    fst (recorders c2 ! length (recorders c)) = m \<and>
    (\<forall>r. snd (recorders c2 ! length (recorders c)) \<noteq> Returned r) \<and>
    (\<forall>c'. record_step S i c2 \<noteq> Some c' \<or> snd (recorders c' ! i) \<noteq> Returned True)"
proof -
  obtain c1 where c1: "StopRecord m c = (True, c1)" "record_end m c1" "recorders c1 = recorders c"
    using assms(3) by (cases m) (auto simp: StopRecord_def record_end_def)
  obtain c2 where c2: "StartRecord m T R I D c1 = (True, c2)" "\<not> record_end m c2"
    "recorders c2 = recorders c @ [(m, Delayed \<lparr>ra_totalTime = T, ra_recordTime = R, ra_interval = I, ra_delay = D\<rparr>)]"
    using c1(2,3) by (cases m) (auto simp: StartRecord_def record_end_def)
  have "record_step S i c1 = Some (record_done i m c1)"
    using assms(1,2) c1 by (simp add: record_step_def record_head_def)
  moreover have "recorders (record_done i m c1) ! i = (m, Returned True)" "record_end m (record_done i m c1)"
    using assms(1,2) c1(3) by (simp_all add: recorders_set record_done_def record_end_def)
  moreover have "record_step S i c2 = record_head S i m a t c2"
    using assms(1,2) c2(3) by (simp add: record_step_def nth_append)
  moreover have "i < length (recorders c2)" using assms(1) c2(3) by simp
  ultimately show ?thesis
    using c1 c2 record_head_goes_on [OF _ assms(4) c2(2)] by auto
qed

theorem stop_and_start_again_witness:
  "\<exists>c c1 c2. client_run demo_S (demo_asked @ [RecorderStep 0]) (demo_client True) = Some c \<and>
     StopRecord True c = (True, c1) \<and> StartRecord True 10 2 1 0 c1 = (True, c2) \<and> length (recorders c2) = 2"
proof -
  obtain c1 where c1: "client_run demo_S demo_asked (demo_client True) = Some c1"
    "recorders c1 = [(True, Delayed demo_args)]" "\<not> isMachineRecordEnd c1"
    using demo_asked_run [of True] by metis
  let ?c = "set_recorder 0 (LoopHead demo_args 0) c1"
  have "client_run demo_S (demo_asked @ [RecorderStep 0]) (demo_client True) = Some ?c"
    using c1 by (simp add: client_run_append record_step_def)
  moreover have "\<exists>c1 c2. StopRecord True ?c = (True, c1) \<and> StartRecord True 10 2 1 0 c1 = (True, c2) \<and> length (recorders c2) = 2"
    using stop_and_start_again [of 0 ?c True demo_args 0 10 2 1 0 demo_S] c1(2,3)
    by (auto simp: recorders_set record_end_def demo_args_def word_sless_alt)
  ultimately show ?thesis by blast
qed

end
