(* ===== verification/ProcessListProperties.thy ===== *)
theory ProcessListProperties imports DemoClient begin

text \<open>
  The list of the running processes at the agent: how the processes of one name are numbered, and what the
  message of \<open>SendCurrentProcessList\<close> holds; and which of the logged values are sent.
\<close>

subsection \<open>Numbering\<close>

abbreviation named :: "string \<Rightarrow> ProcessInfo list \<Rightarrow> ProcessInfo list" where
  "named n ps \<equiv> filter (\<lambda>p. proc_name p = n) ps"

lemma number_processes_numbers:
  assumes "\<And>n. map proc_number (named n ps) = [0..<length (named n ps)]"
  shows "map proc_number (named n (number_processes xs ps)) = [0..<length (named n (number_processes xs ps))]"
  using assms
proof (induction xs ps rule: number_processes.induct)
  case (2 exe pid xs ps)
  show ?case
    unfolding number_processes.simps
    by (rule "2.IH") (use "2.prems" in \<open>auto simp: CheckDuplicateProcessName_def\<close>)
qed simp

lemma number_processes_names:
  "map (\<lambda>p. (proc_name p, processID p)) (number_processes xs ps) =
   map (\<lambda>p. (proc_name p, processID p)) ps @ map (\<lambda>(exe, pid). (base_name exe, pid)) xs"
  by (induction xs ps rule: number_processes.induct) simp_all

lemma length_named_mset: "mset ps = mset qs \<Longrightarrow> length (named n ps) = length (named n qs)"
  by (metis mset_filter size_mset)

lemma distinct_by_name:
  assumes "\<And>n. distinct (map proc_number (named n ps))"
  shows "distinct (map (\<lambda>p. (proc_name p, proc_number p)) ps)"
  using assms
proof (induction ps)
  case (Cons p ps)
  have "distinct (map proc_number (named n ps))" for n
    using Cons.prems [of n] by (simp split: if_splits)
  moreover have "(proc_name p, proc_number p) \<notin> set (map (\<lambda>p. (proc_name p, proc_number p)) ps)"
    using Cons.prems [of "proc_name p"] by force
  ultimately show ?case using Cons.IH by simp
qed simp

text \<open>
  C29. The list of the running processes is the snapshot without its first two processes, each under its name
  without the ending, in the order of the names; the processes of one name are numbered from 0 on, each number
  once, so that every process has its own instance of a counter.
\<close>

theorem running_processes_numbered:
  assumes "sorts (std_sort S)" and "snapshot S os = (snap, os')"
  shows "\<exists>ps. running_processes S os = (ps, os') \<and> sorted (map proc_name ps) \<and>
    mset (map (\<lambda>p. (proc_name p, processID p)) ps) = mset (map (\<lambda>(exe, pid). (base_name exe, pid)) (drop 2 snap)) \<and>
    (\<forall>n. mset (map proc_number (named n ps)) = mset [0..<length (named n ps)]) \<and>
    distinct (map (\<lambda>p. (proc_name p, proc_number p)) ps)"
proof -
  define qs where "qs = number_processes (drop 2 snap) []"
  define ps where "ps = std_sort S qs"
  have ps: "mset ps = mset qs" "sorted (map proc_name ps)"
    using assms(1) by (simp_all add: sorts_def ps_def sorted_wrt_map)
  have num: "mset (map proc_number (named n ps)) = mset [0..<length (named n ps)]" for n
  proof -
    have "mset (map proc_number (named n ps)) = mset (map proc_number (named n qs))"
      using ps(1) by (metis mset_filter mset_map)
    also have "\<dots> = mset [0..<length (named n qs)]"
      unfolding qs_def by (subst number_processes_numbers) simp_all
    finally show ?thesis using length_named_mset [OF ps(1)] by simp
  qed
  have "distinct (map (\<lambda>p. (proc_name p, proc_number p)) ps)"
    by (rule distinct_by_name) (metis num distinct_upt mset_eq_imp_distinct_iff)
  moreover have "mset (map (\<lambda>p. (proc_name p, processID p)) ps) = mset (map (\<lambda>(exe, pid). (base_name exe, pid)) (drop 2 snap))"
    using number_processes_names [of "drop 2 snap" "[]"] ps(1) by (metis append_Nil list.simps(8) mset_map qs_def)
  ultimately show ?thesis
    using assms(2) ps(2) num by (auto simp: running_processes_def ps_def qs_def)
qed

theorem running_processes_numbered_witness:
  "\<exists>ps. running_processes demo_S True = (ps, True) \<and>
     mset (map (\<lambda>p. (proc_name p, processID p)) ps) = {#(''a'', 11), (''b'', 10), (''b'', 12)#} \<and>
     distinct (map (\<lambda>p. (proc_name p, proc_number p)) ps)"
  using running_processes_numbered [OF demo_sorts, of True "fst (snapshot demo_S True)" True]
  by (auto simp: demo_S_def base_name_def)

subsection \<open>The message\<close>

abbreviation entry_name :: "CurrentProcess \<Rightarrow> string" where
  "entry_name e \<equiv> get_or [] (cp_processName e)"

definition flatten :: "CurrentProcess list \<Rightarrow> (string \<times> int32) list" where
  "flatten msg = concat (map (\<lambda>e. map (Pair (entry_name e)) (cp_processID e)) msg)"

lemma flatten_simps [simp]:
  "flatten [] = []" "flatten (es @ fs) = flatten es @ flatten fs"
  "flatten (e # es) = map (Pair (entry_name e)) (cp_processID e) @ flatten es"
  by (simp_all add: flatten_def)



lemma butlast_two [simp]: "butlast (xs @ [x, y]) = xs @ [x]"
  by (induction xs) auto





subsection \<open>The logged values\<close>








end
