(* ===== verification/RecordProperties.thy ===== *)
theory RecordProperties imports DemoClient begin

text \<open>
  The rounds of a recorder: on a system that answers, a report is made after exactly the rounds that its
  report time holds intervals, and each counter has got one value in each round.
\<close>

subsection \<open>One round\<close>

definition answering :: "'o system \<Rightarrow> bool" where
  "answering S \<longleftrightarrow> (\<forall>q iv h os. fst (PdhCollectQueryData S q os) \<and> fst (PdhCollectQueryDataEx S q iv os) \<and>
     fst (wait_event S os) \<and> fst (PdhGetFormattedCounterValue S h os) \<noteq> None)"

definition log_list :: "bool \<Rightarrow> 'o client \<Rightarrow> nat list" where
  "log_list m c = (if m then machineLogList c else processLogList c)"

definition logged :: "bool \<Rightarrow> 'o client \<Rightarrow> nat \<Rightarrow> nat" where
  "logged m c e = (if m then length (me_logs (mentries c e)) else length (pe_logs (pentries c e)))"

lemma answering_value:
  assumes "answering S"
  obtains v os' where "PdhGetFormattedCounterValue S h os = (Some v, os')"
  using assms unfolding answering_def by (metis option.exhaust prod.collapse)

lemma sample_machine_logged:
  assumes "answering S" and "distinct es"
  shows "length (me_logs (mentries (sample_machine S es c) e)) =
    length (me_logs (mentries c e)) + (if e \<in> set es then 1 else 0)"
  using assms(2)
proof (induction es arbitrary: c)
  case (Cons x es)
  obtain v os where v: "PdhGetFormattedCounterValue S (me_counter (mentries c x)) (sys c) = (Some v, os)"
    using assms(1) by (rule answering_value)
  obtain timer os' where t: "now S os = (timer, os')" by fastforce
  from Cons v t show ?case by (auto simp: Let_def)
qed simp

lemma sample_processes_logged:
  assumes "answering S" and "distinct es"
  shows "length (pe_logs (pentries (sample_processes S cpu es c) e)) =
    length (pe_logs (pentries c e)) + (if e \<in> set es then 1 else 0)"
  using assms(2)
proof (induction es arbitrary: c)
  case (Cons x es)
  obtain v os where v: "PdhGetFormattedCounterValue S (pe_counter (pentries c x)) (sys c) = (Some v, os)"
    using assms(1) by (rule answering_value)
  obtain timer os' where t: "now S os = (timer, os')" by fastforce
  from Cons v t show ?case by (auto simp: Let_def)
qed simp

lemma sample_lists [simp]:
  "log_list m (sample_machine S es c) = log_list m c" "log_list m (sample_processes S cpu es c) = log_list m c"
  using sample_machine_frame [of S es c] sample_processes_frame [of S cpu es c] by (auto simp: log_list_def)

lemma answering_round:
  assumes "answering S" and "i < length (recorders c)" and "recorders c ! i = (m, Sampling a t q)"
    and "ra_recordTime a \<noteq> 0" and "distinct (log_list m c)"
  obtains c' where "record_step S i c = Some c'" "log_list m c' = log_list m c"
    "recorders c' = (recorders c)[i := (m, if sint (t + ra_interval a) mod sint (ra_recordTime a) = 0
        then Closing a (t + ra_interval a) q else Sampling a (t + ra_interval a) q)]"
    "\<And>e. e \<in> set (log_list m c) \<Longrightarrow> logged m c' e = Suc (logged m c e)"
proof -
  obtain os1 where 1: "PdhCollectQueryData S q (sys c) = (True, os1)" 
    using assms(1) unfolding answering_def by (metis (full_types) prod.collapse)
  obtain os2 where 2: "PdhCollectQueryDataEx S q (ra_interval a) os1 = (True, os2)"
    using assms(1) unfolding answering_def by (metis (full_types) prod.collapse)
  obtain os3 where 3: "wait_event S os2 = (True, os3)"
    using assms(1) unfolding answering_def by (metis (full_types) prod.collapse)
  obtain cpu os4 where 4: "PdhGetFormattedCounterValue S (cpuCounterV c) os3 = (Some cpu, os4)"
    using assms(1) by (rule answering_value)
  let ?c1 = "if m then sample_machine S (machineLogList c) (c\<lparr>sys := os3\<rparr>)
    else sample_processes S cpu (processLogList c) (c\<lparr>sys := os4\<rparr>)"
  have step: "record_step S i c = inner_test i a (t + ra_interval a) q ?c1"
    using assms(2,3) 1 2 3 4 by (simp add: record_step_def record_sample_def Let_def)
  have log: "logged m ?c1 e = Suc (logged m c e)" if "e \<in> set (log_list m c)" for e
    using that assms(1,5) by (auto simp: logged_def log_list_def sample_machine_logged sample_processes_logged)
  have "recorders ?c1 = recorders c" "log_list m ?c1 = log_list m c" by (simp_all, simp_all add: log_list_def)
  then show thesis
    using assms(3,4) log step
    by (intro that [of "set_recorder i (if sint (t + ra_interval a) mod sint (ra_recordTime a) = 0
        then Closing a (t + ra_interval a) q else Sampling a (t + ra_interval a) q) ?c1"])
      (auto simp: inner_test_def recorders_set set_recorder_def log_list_def logged_def)
qed

subsection \<open>The rounds of a report\<close>

fun record_steps :: "'o system \<Rightarrow> nat \<Rightarrow> nat \<Rightarrow> 'o client \<Rightarrow> 'o client option" where
  "record_steps S i 0 c = Some c"
| "record_steps S i (Suc n) c = Option.bind (record_steps S i n c) (record_step S i)"

lemma sint32_add:
  assumes "- (2 ^ 31) \<le> sint a + sint b" and "sint a + sint b < 2 ^ 31"
  shows "sint (a + b :: int32) = sint a + sint b"
  using assms by (simp add: sint_word_ariths signed_take_bit_int_eq_self)

lemma elapsed_time:
  assumes "0 \<le> sint t" and "0 \<le> sint d" and "sint t + int n * sint d < 2 ^ 31"
  shows "sint (t + of_nat n * d :: int32) = sint t + int n * sint d"
  using assms(3)
proof (induction n)
  case (Suc n)
  have "0 \<le> int n * sint d" using assms(2) by simp
  with Suc assms(1,2) have "sint (t + of_nat n * d) = sint t + int n * sint d"
    by (simp add: algebra_simps)
  then have "sint (t + of_nat n * d + d) = sint t + int n * sint d + sint d"
    using Suc.prems assms(1,2) \<open>0 \<le> int n * sint d\<close>
    by (subst sint32_add) (simp_all add: algebra_simps add_nonneg_nonneg order_trans [of "- 2147483648" 0])
  then show ?case by (simp add: algebra_simps)
qed simp

text \<open>The rounds of a report of \<open>n\<close> intervals, with \<open>j\<close> of them done.\<close>

lemma report_rounds:
  assumes "answering S" and "i < length (recorders c)" and "recorders c ! i = (m, Sampling a t q)"
    and "0 < sint (ra_interval a)" and "sint (ra_recordTime a) = int n * sint (ra_interval a)"
    and "0 \<le> sint t" and "sint t mod sint (ra_recordTime a) = 0" and "sint t + sint (ra_recordTime a) < 2 ^ 31"
    and "distinct (log_list m c)" and "j \<le> n" and "0 < n"
  shows "\<exists>c'. record_steps S i j c = Some c' \<and> log_list m c' = log_list m c \<and>
    recorders c' = (recorders c)[i := (m, if j < n then Sampling a (t + of_nat j * ra_interval a) q
                                          else Closing a (t + ra_recordTime a) q)] \<and>
    (\<forall>e \<in> set (log_list m c). logged m c' e = logged m c e + j)"
  using assms(10)
proof (induction j)
  case 0
  show ?case using assms(3,11) list_update_id [of "recorders c" i] by simp
next
  case (Suc j)
  let ?I = "ra_interval a" and ?R = "ra_recordTime a"
  obtain c1 where c1: "record_steps S i j c = Some c1" "log_list m c1 = log_list m c"
    "recorders c1 = (recorders c)[i := (m, Sampling a (t + of_nat j * ?I) q)]"
    "\<forall>e \<in> set (log_list m c). logged m c1 e = logged m c e + j"
    using Suc by auto
  have R: "0 < sint ?R" using assms(4,5,11) by simp
  then have "?R \<noteq> 0" by auto
  obtain c2 where c2: "record_step S i c1 = Some c2" "log_list m c2 = log_list m c1"
    "recorders c2 = (recorders c1)[i := (m, if sint (t + of_nat j * ?I + ?I) mod sint ?R = 0
        then Closing a (t + of_nat j * ?I + ?I) q else Sampling a (t + of_nat j * ?I + ?I) q)]"
    "\<And>e. e \<in> set (log_list m c1) \<Longrightarrow> logged m c2 e = Suc (logged m c1 e)"
    using answering_round [OF assms(1), of i c1 m a "t + of_nat j * ?I" q] c1 assms(2,9) \<open>?R \<noteq> 0\<close> by auto
  have next_eq: "t + of_nat j * ?I + ?I = t + of_nat (Suc j) * ?I" by (simp add: algebra_simps)
  have "int (Suc j) * sint ?I \<le> int n * sint ?I" using Suc.prems assms(4) by (intro mult_right_mono) simp_all
  then have "sint t + int (Suc j) * sint ?I < 2 ^ 31" using assms(5,8) by linarith
  then have s: "sint (t + of_nat (Suc j) * ?I) = sint t + int (Suc j) * sint ?I"
    using assms(4,6) by (intro elapsed_time) simp_all
  have "sint (t + of_nat (Suc j) * ?I) mod sint ?R = (int (Suc j) * sint ?I) mod (int n * sint ?I)"
    unfolding s using assms(5,7) by (metis add.left_neutral mod_add_left_eq)
  also have "\<dots> = (int (Suc j) mod int n) * sint ?I" by simp
  finally have "sint (t + of_nat (Suc j) * ?I) mod sint ?R = 0 \<longleftrightarrow> Suc j = n"
    using assms(4) Suc.prems by (auto simp: mod_eq_0_iff_dvd zdvd_not_zless nat_dvd_not_less dest: zdvd_imp_le)
  moreover have "of_nat n * ?I = ?R"
    by (rule signed_word_eqI [where 'a = int]) (use elapsed_time [of 0 ?I n] assms(4-6,8) in simp)
  ultimately show ?case
    using c1 c2 Suc.prems assms(2) by (auto simp: next_eq)
qed

text \<open>
  C26. On a system that answers every request, a recorder whose report time is \<open>n\<close> of its intervals closes its
  query for the report after exactly \<open>n\<close> rounds, and each counter has got exactly one value in each of them.
\<close>

theorem report_after_rounds:
  assumes "\<And>q iv h os. fst (PdhCollectQueryData S q os) \<and> fst (PdhCollectQueryDataEx S q iv os) \<and>
      fst (wait_event S os) \<and> fst (PdhGetFormattedCounterValue S h os) \<noteq> None"
    and "i < length (recorders c)" and "recorders c ! i = (m, Sampling a t q)"
    and "0 < sint (ra_interval a)" and "sint (ra_recordTime a) = int n * sint (ra_interval a)" and "0 < n"
    and "0 \<le> sint t" and "sint t mod sint (ra_recordTime a) = 0" and "sint t + sint (ra_recordTime a) < 2 ^ 31"
    and "distinct (if m then machineLogList c else processLogList c)"
  shows "(\<exists>c'. record_steps S i n c = Some c' \<and>
      recorders c' = (recorders c)[i := (m, Closing a (t + ra_recordTime a) q)] \<and>
      (if m then \<forall>e \<in> set (machineLogList c). length (me_logs (mentries c' e)) = length (me_logs (mentries c e)) + n
       else \<forall>e \<in> set (processLogList c). length (pe_logs (pentries c' e)) = length (pe_logs (pentries c e)) + n)) \<and>
    (\<forall>j < n. \<exists>c'. record_steps S i j c = Some c' \<and>
      recorders c' ! i = (m, Sampling a (t + of_nat j * ra_interval a) q))"
proof -
  have "answering S" using assms(1) by (simp add: answering_def)
  note rounds = report_rounds [OF this assms(2-5,7-9) assms(10) [folded log_list_def] _ assms(6)]
  show ?thesis
  proof (intro conjI allI impI)
    show "\<exists>c'. record_steps S i n c = Some c' \<and>
      recorders c' = (recorders c)[i := (m, Closing a (t + ra_recordTime a) q)] \<and>
      (if m then \<forall>e \<in> set (machineLogList c). length (me_logs (mentries c' e)) = length (me_logs (mentries c e)) + n
       else \<forall>e \<in> set (processLogList c). length (pe_logs (pentries c' e)) = length (pe_logs (pentries c e)) + n)"
      using rounds [of n] by (auto simp: log_list_def logged_def split: if_splits)
    fix j assume "j < n"
    then show "\<exists>c'. record_steps S i j c = Some c' \<and>
      recorders c' ! i = (m, Sampling a (t + of_nat j * ra_interval a) q)"
      using rounds [of j] assms(2) by auto
  qed
qed

text \<open>The recorder of \<open>DemoClient\<close> reports after two rounds.\<close>

lemma demo_sampling_run:
  obtains c where "client_run demo_S (demo_asked @ [RecorderStep 0, RecorderStep 0]) (demo_client True) = Some c"
    "recorders c = [(True, Sampling demo_args 0 1)]" "machineLogList c = [0]"
proof -
  obtain c1 where c1: "client_run demo_S demo_asked (demo_client True) = Some c1"
    "machineCounterList c1 = [''c'']" "recorders c1 = [(True, Delayed demo_args)]" "sys c1"
    "\<not> isMachineRecordEnd c1" "machineLogList c1 = []"
    "m_freeVector (mentryPoolManager c1) = [0..<1000]"
    using demo_asked_run [of True] by (metis (full_types))
  let ?c2 = "set_recorder 0 (LoopHead demo_args 0) c1"
  have "record_step demo_S 0 c1 = Some ?c2" using c1 by (simp add: record_step_def)
  moreover have "\<exists>c. record_step demo_S 0 ?c2 = Some c \<and> recorders c = [(True, Sampling demo_args 0 1)] \<and> machineLogList c = [0]"
    using c1(2-) by (simp add: record_step_def record_head_def set_recorder_def record_end_def demo_args_def
        demo_S_def InitCounterInfo_def ClearLogList_def Alloc_def upt_conv_Cons [OF zero_less_numeral] word_sless_alt)
  ultimately show thesis
    using c1(1) that client_run_append [of demo_S demo_asked] by auto
qed

theorem report_after_rounds_witness:
  "\<exists>c c'. client_run demo_S (demo_asked @ [RecorderStep 0, RecorderStep 0]) (demo_client True) = Some c \<and>
     record_steps demo_S 0 2 c = Some c' \<and> recorders c' = [(True, Closing demo_args 2 1)] \<and>
     length (me_logs (mentries c' 0)) = length (me_logs (mentries c 0)) + 2"
proof -
  obtain c where c: "client_run demo_S (demo_asked @ [RecorderStep 0, RecorderStep 0]) (demo_client True) = Some c"
    "recorders c = [(True, Sampling demo_args 0 1)]" "machineLogList c = [0]"
    using demo_sampling_run .
  have "\<exists>c'. record_steps demo_S 0 2 c = Some c' \<and> recorders c' = [(True, Closing demo_args 2 1)] \<and>
     length (me_logs (mentries c' 0)) = length (me_logs (mentries c 0)) + 2"
    using report_after_rounds [of demo_S 0 c True demo_args 0 1 2] c(2,3)
    by (simp add: demo_S_def demo_args_def)
  with c(1) show ?thesis by blast
qed

end
