(* ===== verification/RedisAsyncClient.thy ===== *)
theory RedisAsyncClient imports RedisClientImpl begin

text \<open>
  The asynchronous Redis client: \<open>src/redisLib/lib/redisasyncclient.cpp\<close> and the callbacks of
  \<open>redisclientimpl.cpp\<close>. A handler is a name, and its calls are recorded in order; that a handler calls the
  client itself is not modelled. The strand runs what is posted to it in the order of the posts.
\<close>

subsection \<open>The client object\<close>

datatype handler = dummyHandler | Handler nat

datatype handler_call =
    Reply handler RedisValue
  | Message handler string
  | ConnectResult handler bool string

datatype strand_task =
    DoAsyncCommand string handler
  | CallMsgHandler handler string

text \<open>
  \<open>writes\<close> are the buffers given to \<open>async_write\<close>, \<open>readCalls\<close> counts the calls of \<open>async_read_some\<close>. The
  two multimaps are the lists of their entries in the order of insertion, which their equal keys keep.
\<close>

record async_client =
  a_state :: client_state
  a_parser :: RedisParser
  a_errorHandler :: error_handler
  a_errors :: "string list"
  subscribeSeq :: nat
  msgHandlers :: "(string \<times> nat \<times> handler) list"
  singleShotMsgHandlers :: "(string \<times> handler) list"
  handlers :: "handler list"
  a_queue :: "(handler \<times> string) list"
  strand :: "strand_task list"
  invoked :: "handler_call list"
  writes :: "string list"
  readCalls :: nat

text \<open>An exception of the default error handler leaves the callback.\<close>

datatype async_result =
    Went async_client
  | Threw string async_client
  | AssertFailed

definition RedisAsyncClient :: async_client where
  "RedisAsyncClient =
     \<lparr>a_state = NotConnected, a_parser = RedisParser.RedisParser, a_errorHandler = defaulErrorHandler,
      a_errors = [], subscribeSeq = 0, msgHandlers = [], singleShotMsgHandlers = [], handlers = [],
      a_queue = [], strand = [], invoked = [], writes = [], readCalls = 0\<rparr>"

definition async_installErrorHandler :: "async_client \<Rightarrow> async_client" where
  "async_installErrorHandler c = c\<lparr>a_errorHandler := installedErrorHandler\<rparr>"

definition async_close :: "async_client \<Rightarrow> async_client" where
  "async_close c =
     (if a_state c \<noteq> Closed then c\<lparr>a_errorHandler := ignoreErrorHandler, a_state := Closed\<rparr> else c)"

definition async_error :: "string \<Rightarrow> async_client \<Rightarrow> async_result" where
  "async_error message c =
     (case a_errorHandler c of
        defaulErrorHandler \<Rightarrow> Threw message c
      | ignoreErrorHandler \<Rightarrow> Went c
      | installedErrorHandler \<Rightarrow> Went (c\<lparr>a_errors := a_errors c @ [message]\<rparr>))"

subsection \<open>Replies and messages\<close>

definition processMessage :: "async_client \<Rightarrow> async_client" where
  "processMessage c = c\<lparr>readCalls := readCalls c + 1\<rparr>"

definition call_front :: "RedisValue \<Rightarrow> async_client \<Rightarrow> async_client" where
  "call_front v c = c\<lparr>invoked := invoked c @ [Reply (hd (handlers c)) v], handlers := tl (handlers c)\<rparr>"

text \<open>The handler for a single message is taken out, the first one of the channel.\<close>

fun erase_first :: "string \<Rightarrow> (string \<times> handler) list \<Rightarrow> (string \<times> handler) list" where
  "erase_first k [] = []"
| "erase_first k ((k', h) # xs) = (if k' = k then xs else (k', h) # erase_first k xs)"

definition post_message :: "string \<Rightarrow> string \<Rightarrow> async_client \<Rightarrow> async_client" where
  "post_message channel msg c =
     (let c = (case map_of (singleShotMsgHandlers c) channel of
                 None \<Rightarrow> c
               | Some h \<Rightarrow> c\<lparr>strand := strand c @ [CallMsgHandler h msg],
                             singleShotMsgHandlers := erase_first channel (singleShotMsgHandlers c)\<rparr>)
      in c\<lparr>strand := strand c @
           map (\<lambda>(_, _, h). CallMsgHandler h msg) (filter (\<lambda>(k, _, _). k = channel) (msgHandlers c))\<rparr>)"

definition doProcessMessage :: "RedisValue \<Rightarrow> async_client \<Rightarrow> async_result" where
  "doProcessMessage v c =
     (if a_state c = Subscribed
      then let result = toArray v in
        if length result = 3
        then let cmd = toString (result ! 0); queueName = result ! 1; value = result ! 2 in
          if cmd = ''message'' then Went (post_message (toString queueName) (toByteArray value) c)
          else if cmd = ''subscribe'' \<and> handlers c \<noteq> [] then Went (call_front v c)
          else if cmd = ''unsubscribe'' \<and> handlers c \<noteq> [] then Went (call_front v c)
          else async_error (''[RedisClient] invalid command: '' @ cmd) c
        else async_error ''[RedisClient] Protocol error'' c
      else if handlers c \<noteq> [] then Went (call_front v c)
      else async_error (''[RedisClient] unexpected message: '' @ inspect v) c)"

text \<open>
  The loop over the characters of a read; the exception of a message ends it, and no further read is
  started then.
\<close>

partial_function (option) async_chunk :: "string \<Rightarrow> async_client \<Rightarrow> async_result option" where
  "async_chunk bs c =
     (if bs = [] then Some (Went (processMessage c))
      else case parse bs (a_parser c) of
             Parsed n r p \<Rightarrow>
               (case r of
                  Completed \<Rightarrow>
                    (case parser_result p of
                       None \<Rightarrow> Some AssertFailed
                     | Some (v, q) \<Rightarrow>
                         (case doProcessMessage v (c\<lparr>a_parser := q\<rparr>) of
                            Went c' \<Rightarrow> async_chunk (drop n bs) c'
                          | res \<Rightarrow> Some res))
                | Incompleted \<Rightarrow> Some (Went (processMessage (c\<lparr>a_parser := p\<rparr>)))
                | Error \<Rightarrow> Some (async_error ''[RedisClient] Parser error'' (c\<lparr>a_parser := p\<rparr>)))
           | Assertion \<Rightarrow> Some AssertFailed
           | OutOfFuel \<Rightarrow> None)"

text \<open>\<open>ec\<close> tells whether the operation failed, with the text of the error code.\<close>

definition asyncRead :: "bool \<times> string \<Rightarrow> string \<Rightarrow> async_client \<Rightarrow> async_result option" where
  "asyncRead ec bs c =
     (if fst ec \<or> bs = [] then Some (async_error (snd ec) c) else async_chunk bs c)"

subsection \<open>Writing\<close>

definition asyncWrite :: "bool \<times> string \<Rightarrow> async_client \<Rightarrow> async_result" where
  "asyncWrite ec c =
     (if fst ec then async_error (snd ec) c
      else case a_queue c of
             [] \<Rightarrow> AssertFailed
           | _ # q \<Rightarrow>
               (let c = c\<lparr>a_queue := q\<rparr>
                in Went (if q \<noteq> [] then c\<lparr>writes := writes c @ [snd (hd q)]\<rparr> else c)))"

definition doAsyncCommand :: "string \<Rightarrow> handler \<Rightarrow> async_client \<Rightarrow> async_client" where
  "doAsyncCommand buff h c =
     (let c = c\<lparr>a_queue := a_queue c @ [(h, buff)], handlers := handlers c @ [h]\<rparr>
      in if length (a_queue c) = 1 then c\<lparr>writes := writes c @ [buff]\<rparr> else c)"

definition handleAsyncConnect :: "bool \<times> string \<Rightarrow> handler \<Rightarrow> async_client \<Rightarrow> async_client" where
  "handleAsyncConnect ec h c =
     (if \<not> fst ec
      then processMessage (c\<lparr>a_state := Connected, invoked := invoked c @ [ConnectResult h True []]\<rparr>)
      else c\<lparr>invoked := invoked c @ [ConnectResult h False (snd ec)]\<rparr>)"

text \<open>The strand runs the oldest post.\<close>

definition run_task :: "async_client \<Rightarrow> async_client" where
  "run_task c =
     (case strand c of
        [] \<Rightarrow> c
      | DoAsyncCommand buff h # ts \<Rightarrow> doAsyncCommand buff h (c\<lparr>strand := ts\<rparr>)
      | CallMsgHandler h msg # ts \<Rightarrow> c\<lparr>strand := ts, invoked := invoked c @ [Message h msg]\<rparr>)"

subsection \<open>The interface\<close>

text \<open>Every operation asserts the state before it tests it.\<close>

definition post_command :: "RedisBuffer list \<Rightarrow> handler \<Rightarrow> async_client \<Rightarrow> async_client" where
  "post_command items h c = c\<lparr>strand := strand c @ [DoAsyncCommand (makeCommand items) h]\<rparr>"

definition async_command :: "string \<Rightarrow> RedisBuffer list \<Rightarrow> handler \<Rightarrow> async_client \<Rightarrow> async_result" where
  "async_command cmd args h c =
     (if a_state c = Connected then Went (post_command (RedisBuffer_str cmd # args) h c) else AssertFailed)"

definition subscribe :: "string \<Rightarrow> handler \<Rightarrow> handler \<Rightarrow> async_client \<Rightarrow> async_result" where
  "subscribe channel msgHandler h c =
     (if a_state c = Connected \<or> a_state c = Subscribed
      then let handle_id = subscribeSeq c;
               c = post_command [RedisBuffer_str ''SUBSCRIBE'', RedisBuffer_str channel] h
                     (c\<lparr>subscribeSeq := subscribeSeq c + 1\<rparr>)
           in Went (c\<lparr>msgHandlers := msgHandlers c @ [(channel, handle_id, msgHandler)], a_state := Subscribed\<rparr>)
      else AssertFailed)"

definition unsubscribe :: "nat \<Rightarrow> string \<Rightarrow> async_client \<Rightarrow> async_result" where
  "unsubscribe handle_id channel c =
     (if a_state c = Connected \<or> a_state c = Subscribed
      then Went (post_command [RedisBuffer_str ''UNSUBSCRIBE'', RedisBuffer_str channel] dummyHandler
             (c\<lparr>msgHandlers := filter (\<lambda>(k, i, _). \<not> (k = channel \<and> i = handle_id)) (msgHandlers c)\<rparr>))
      else AssertFailed)"

definition singleShotSubscribe :: "string \<Rightarrow> handler \<Rightarrow> handler \<Rightarrow> async_client \<Rightarrow> async_result" where
  "singleShotSubscribe channel msgHandler h c =
     (if a_state c = Connected \<or> a_state c = Subscribed
      then let c = post_command [RedisBuffer_str ''SUBSCRIBE'', RedisBuffer_str channel] h c
           in Went (c\<lparr>singleShotMsgHandlers := singleShotMsgHandlers c @ [(channel, msgHandler)],
                      a_state := Subscribed\<rparr>)
      else AssertFailed)"

definition publish :: "string \<Rightarrow> RedisBuffer \<Rightarrow> handler \<Rightarrow> async_client \<Rightarrow> async_result" where
  "publish channel msg h c =
     (if a_state c = Connected
      then Went (post_command [RedisBuffer_str ''PUBLISH'', RedisBuffer_str channel, msg] h c)
      else AssertFailed)"

subsection \<open>Events\<close>

text \<open>The calls of the program and the completions of the I/O service, one at a time.\<close>

datatype async_event =
    Connect_done "bool \<times> string" handler
  | Call_command string "RedisBuffer list" handler
  | Call_subscribe string handler handler
  | Call_singleShot string handler handler
  | Call_unsubscribe nat string
  | Call_publish string RedisBuffer handler
  | Strand_task
  | Write_done "bool \<times> string"
  | Read_done "bool \<times> string" string

fun async_step :: "async_event \<Rightarrow> async_client \<Rightarrow> async_result option" where
  "async_step (Connect_done ec h) c = Some (Went (handleAsyncConnect ec h c))"
| "async_step (Call_command cmd args h) c = Some (async_command cmd args h c)"
| "async_step (Call_subscribe ch mh h) c = Some (subscribe ch mh h c)"
| "async_step (Call_singleShot ch mh h) c = Some (singleShotSubscribe ch mh h c)"
| "async_step (Call_unsubscribe i ch) c = Some (unsubscribe i ch c)"
| "async_step (Call_publish ch msg h) c = Some (publish ch msg h c)"
| "async_step Strand_task c = Some (Went (run_task c))"
| "async_step (Write_done ec) c = Some (asyncWrite ec c)"
| "async_step (Read_done ec bs) c = asyncRead ec bs c"

text \<open>A run ends at an exception or a failed assertion.\<close>

fun async_run :: "async_event list \<Rightarrow> async_client \<Rightarrow> async_result option" where
  "async_run [] c = Some (Went c)"
| "async_run (e # es) c =
     Option.bind (async_step e c) (\<lambda>res. case res of Went c' \<Rightarrow> async_run es c' | _ \<Rightarrow> Some res)"

end
