(* ===== verification/AsyncProperties.thy ===== *)
theory AsyncProperties imports RedisAsyncClient begin

text \<open>
  The asynchronous client: every pipelined command is written once, in order, and gets its own reply for
  every cut of the input; subscribing while a command waits gives replies to the wrong handlers.
\<close>

subsection \<open>The values in a stream\<close>

text \<open>The values that are completed in a text, and where the automaton of the parser is then.\<close>

fun feed :: "outcome \<Rightarrow> string \<Rightarrow> RedisValue list \<times> outcome" where
  "feed r [] = ([], r)"
| "feed (More t fs) (ch # cs) =
     (case mstep t fs ch of
        Done v \<Rightarrow> (let (vs, r) = feed (More TStart []) cs in (v # vs, r))
      | r \<Rightarrow> feed r cs)"
| "feed r (ch # cs) = ([], Fail)"

lemma feed_final [simp]: "feed Fail cs = ([], Fail)"
  by (cases cs) simp_all

lemma feed_append:
  "feed r (as @ bs) = (fst (feed r as) @ fst (feed (snd (feed r as)) bs), snd (feed (snd (feed r as)) bs))"
proof (induction r as rule: feed.induct)
  case (2 t fs ch cs)
  then show ?case by (simp add: split_beta Let_def split: outcome.split)
qed (simp_all add: prod_eq_iff)

text \<open>A run to the end of the first value is the first step of the stream.\<close>

lemma feed_run:
  "feed (More t fs) cs =
     (case run (More t fs) cs of
        (n, Done v) \<Rightarrow> (v # fst (feed (More TStart []) (drop n cs)), snd (feed (More TStart []) (drop n cs)))
      | (n, r) \<Rightarrow> ([], r))"
proof (induction cs arbitrary: t fs)
  case (Cons ch cs)
  show ?case
  proof (cases "mstep t fs ch")
    case (More t' fs')
    with Cons.IH [of t' fs'] show ?thesis by (simp add: run.simps split_beta split: outcome.splits)
  qed (simp_all add: run.simps split_beta)
qed simp

lemma feed_cases:
  "run (More t fs) cs = (n, Done v) \<Longrightarrow>
     feed (More t fs) cs = (v # fst (feed (More TStart []) (drop n cs)), snd (feed (More TStart []) (drop n cs)))"
  "run (More t fs) cs = (n, More t' fs') \<Longrightarrow> feed (More t fs) cs = ([], More t' fs')"
  "run (More t fs) cs = (n, Fail) \<Longrightarrow> feed (More t fs) cs = ([], Fail)"
  by (simp_all add: feed_run [of t fs cs])

lemma feed_encode:
  assumes "\<forall>v \<in> set vs. sendable v"
  shows "feed (More TStart []) (concat (map encode vs)) = (vs, More TStart [])"
  using assms
proof (induction vs)
  case (Cons v vs)
  have "run (More TStart []) (encode v @ concat (map encode vs)) = (length (encode v), Done v)"
    using Cons.prems run_encode [of v "[]" "concat (map encode vs)"] by (simp add: ahead_def)
  with Cons show ?case by (simp add: feed_run [of TStart "[]" "encode v @ _"])
qed simp

subsection \<open>Reading replies\<close>

lemma abs_start_clean: "parser_ok p \<Longrightarrow> abs_parser p = More TStart [] \<Longrightarrow> clean p"
  by (auto simp: abs_parser_def abs_token_def abs_frames_def parser_ok_def clean_def split: State.splits)

text \<open>What the values \<open>vs\<close> do at a client that is not subscribed and has a handler for each of them.\<close>

definition answered :: "RedisValue list \<Rightarrow> async_client \<Rightarrow> async_client" where
  "answered vs c = c\<lparr>handlers := drop (length vs) (handlers c),
     invoked := invoked c @ map2 Reply (take (length vs) (handlers c)) vs\<rparr>"

lemma answered_Cons:
  "handlers c = h # hs \<Longrightarrow> answered (v # vs) c = answered vs (call_front v c)"
  by (simp add: answered_def call_front_def)

lemma async_chunk_replies:
  assumes "parser_ok (a_parser c)" and "a_state c \<noteq> Subscribed"
    and "feed (abs_parser (a_parser c)) bs = (vs, More t fs)" and "length vs \<le> length (handlers c)"
  shows "\<exists>p. parser_ok p \<and> abs_parser p = More t fs \<and>
    async_chunk bs c = Some (Went (processMessage ((answered vs c)\<lparr>a_parser := p\<rparr>)))"
  using assms
proof (induction "length bs" arbitrary: bs c vs rule: less_induct)
  case less
  obtain t0 fs0 where abs: "abs_parser (a_parser c) = More t0 fs0" by (simp add: abs_parser_def)
  show ?case
  proof (cases "bs = []")
    case True
    with less.prems(1,3) show ?thesis
      by (intro exI [of _ "a_parser c"]) (simp add: async_chunk.simps [of "[]"] answered_def)
  next
    case False
    from less.prems(1) show ?thesis
    proof (cases rule: parse_cases [of "a_parser c" bs, case_names C I E])
      case (C n p v)
      let ?c = "call_front v (c\<lparr>a_parser := p\<lparr>valueStack := []\<rparr>\<rparr>)"
      have fed: "feed (More TStart []) (drop n bs) = (tl vs, More t fs)" "vs = v # tl vs"
        using less.prems(3) feed_cases(1) [OF C(5) [unfolded abs]] by (auto simp: abs prod_eq_iff)
      then obtain h hs where h: "handlers c = h # hs" using less.prems(4) by (cases "handlers c") auto
      have "0 < n" using C(5) False by (cases n; cases bs) (auto simp: abs run.simps split_beta)
      then have short: "length (drop n bs) < length bs" using False by simp
      have "\<exists>q. parser_ok q \<and> abs_parser q = More t fs \<and>
          async_chunk (drop n bs) ?c = Some (Went (processMessage ((answered (tl vs) ?c)\<lparr>a_parser := q\<rparr>)))"
      proof (rule less.hyps [OF short])
        show "parser_ok (a_parser ?c)" and "feed (abs_parser (a_parser ?c)) (drop n bs) = (tl vs, More t fs)"
          using C(4) fed(1) by (simp_all add: call_front_def clean_ok)
        show "a_state ?c \<noteq> Subscribed" using less.prems(2) by (simp add: call_front_def)
        show "length (tl vs) \<le> length (handlers ?c)" using less.prems(4) h by (simp add: call_front_def)
      qed
      moreover have "async_chunk bs c = async_chunk (drop n bs) ?c"
        using C(1,3) False less.prems(2) h by (subst async_chunk.simps) (simp add: doProcessMessage_def)
      moreover have "(answered (tl vs) ?c)\<lparr>a_parser := q\<rparr> = (answered vs c)\<lparr>a_parser := q\<rparr>" for q
        using h by (subst (2) fed(2)) (simp add: answered_def call_front_def)
      ultimately show ?thesis by simp
    next
      case (I p)
      obtain t1 fs1 where p: "abs_parser p = More t1 fs1" by (simp add: abs_parser_def)
      have "vs = []" "abs_parser p = More t fs"
        using less.prems(3) feed_cases(2) [OF I(3) [unfolded abs p]] p by (simp_all add: abs)
      with I False show ?thesis
        by (intro exI [of _ p]) (simp add: async_chunk.simps [of bs] answered_def)
    next
      case (E n p)
      then show ?thesis using less.prems(3) feed_cases(3) [of t0 fs0 bs] by (simp add: abs)
    qed
  qed
qed

text \<open>The same for the reads of a list.\<close>

abbreviation reads_of :: "string list \<Rightarrow> async_event list" where
  "reads_of bss \<equiv> map (Read_done (False, [])) bss"

lemma answered_append:
  "length vs + length ws \<le> length (handlers c) \<Longrightarrow> answered ws (answered vs c) = answered (vs @ ws) c"
  by (simp add: answered_def take_add add.commute)

lemma async_reads_replies:
  assumes "parser_ok (a_parser c)" and "a_state c \<noteq> Subscribed" and "[] \<notin> set bss"
    and "feed (abs_parser (a_parser c)) (concat bss) = (vs, More t fs)" and "length vs \<le> length (handlers c)"
  shows "\<exists>p. parser_ok p \<and> abs_parser p = More t fs \<and>
    async_run (reads_of bss) c =
      Some (Went ((answered vs c)\<lparr>a_parser := p, readCalls := readCalls c + length bss\<rparr>))"
  using assms
proof (induction bss arbitrary: c vs)
  case Nil
  then show ?case
    by (intro exI [of _ "a_parser c"]) (auto simp: answered_def abs_parser_def)
next
  case (Cons bs bss)
  let ?r = "feed (abs_parser (a_parser c)) bs"
  have split: "fst ?r @ fst (feed (snd ?r) (concat bss)) = vs" "snd (feed (snd ?r) (concat bss)) = More t fs"
    using Cons.prems(4) by (simp_all add: feed_append)
  obtain t1 fs1 where r: "snd ?r = More t1 fs1"
  proof (cases "snd ?r")
    case (Done v)
    moreover have "snd (feed r cs) \<noteq> Done v" if "r \<noteq> Done v" for r cs
      using that by (induction r cs rule: feed.induct) (auto simp: split_beta split: outcome.splits)
    ultimately show thesis by (simp add: abs_parser_def)
  qed (use split(2) in auto)
  then obtain p1 where p1: "parser_ok p1" "abs_parser p1 = More t1 fs1"
    "async_chunk bs c = Some (Went (processMessage ((answered (fst ?r) c)\<lparr>a_parser := p1\<rparr>)))"
    using async_chunk_replies [of c bs "fst ?r" t1 fs1] Cons.prems split(1) by (auto simp: prod_eq_iff)
  let ?c1 = "processMessage ((answered (fst ?r) c)\<lparr>a_parser := p1\<rparr>)"
  have "\<exists>p. parser_ok p \<and> abs_parser p = More t fs \<and> async_run (reads_of bss) ?c1 =
      Some (Went ((answered (fst (feed (snd ?r) (concat bss))) ?c1)\<lparr>a_parser := p, readCalls := readCalls ?c1 + length bss\<rparr>))"
    using p1 r split Cons.prems
    by (intro Cons.IH) (auto simp: processMessage_def answered_def prod_eq_iff)
  then obtain p where p: "parser_ok p" "abs_parser p = More t fs" "async_run (reads_of bss) ?c1 =
      Some (Went ((answered (fst (feed (snd ?r) (concat bss))) ?c1)\<lparr>a_parser := p, readCalls := readCalls ?c1 + length bss\<rparr>))"
    by blast
  have "answered (fst (feed (snd ?r) (concat bss))) (answered (fst ?r) c) = answered vs c"
    using answered_append [of "fst ?r" _ c] split(1) Cons.prems(5) by (metis length_append)
  then have "(answered (fst (feed (snd ?r) (concat bss))) ?c1)\<lparr>a_parser := p, readCalls := readCalls ?c1 + length bss\<rparr> =
      (answered vs c)\<lparr>a_parser := p, readCalls := readCalls c + length (bs # bss)\<rparr>"
    by (simp add: processMessage_def answered_def)
  moreover have "bs \<noteq> []" using Cons.prems(3) by auto
  ultimately show ?case
    using p p1(3) by (intro exI [of _ p]) (simp add: asyncRead_def)
qed

subsection \<open>Writing commands\<close>

lemma async_run_append:
  "async_run (es @ fs) c =
     Option.bind (async_run es c) (\<lambda>res. case res of Went c' \<Rightarrow> async_run fs c' | _ \<Rightarrow> Some res)"
  by (induction es arbitrary: c) (auto split: Option.bind_split async_result.split)

type_synonym request = "string \<times> RedisBuffer list \<times> handler"

abbreviation request_bytes :: "request \<Rightarrow> string" where
  "request_bytes r \<equiv> makeCommand (RedisBuffer_str (fst r) # fst (snd r))"

abbreviation request_handler :: "request \<Rightarrow> handler" where
  "request_handler r \<equiv> snd (snd r)"

lemma post_requests:
  assumes "a_state c = Connected"
  shows "async_run (map (\<lambda>(cmd, args, h). Call_command cmd args h) rs) c =
    Some (Went (c\<lparr>strand := strand c @ map (\<lambda>r. DoAsyncCommand (request_bytes r) (request_handler r)) rs\<rparr>))"
  using assms
  by (induction rs arbitrary: c) (auto simp: async_command_def post_command_def)

lemma run_requests:
  assumes "strand c = map (\<lambda>r. DoAsyncCommand (request_bytes r) (request_handler r)) rs"
  shows "async_run (replicate (length rs) Strand_task) c =
    Some (Went (c\<lparr>strand := [], a_queue := a_queue c @ map (\<lambda>r. (request_handler r, request_bytes r)) rs,
      handlers := handlers c @ map request_handler rs,
      writes := writes c @ (if a_queue c = [] then map request_bytes (take 1 rs) else [])\<rparr>))"
  using assms
  by (induction rs arbitrary: c) (auto simp: run_task_def doAsyncCommand_def)

lemma write_requests:
  assumes "a_queue c = map (\<lambda>r. (request_handler r, request_bytes r)) rs"
  shows "async_run (replicate (length rs) (Write_done (False, []))) c =
    Some (Went (c\<lparr>a_queue := [], writes := writes c @ map request_bytes (drop 1 rs)\<rparr>))"
  using assms
proof (induction rs arbitrary: c)
  case (Cons r rs)
  let ?c = "c\<lparr>a_queue := map (\<lambda>r. (request_handler r, request_bytes r)) rs,
    writes := writes c @ map request_bytes (take 1 rs)\<rparr>"
  have "asyncWrite (False, []) c = Went ?c"
    using Cons.prems by (cases rs) (simp_all add: asyncWrite_def Let_def)
  moreover have "map request_bytes (take 1 rs) @ map request_bytes (drop 1 rs) = map request_bytes rs"
    by (simp flip: map_append)
  ultimately show ?case using Cons.IH [of ?c] by simp
qed simp

text \<open>
  C12. Pipelined commands: commands that are posted, run and written without waiting for a reply are handed
  to the socket once each and in their order, and when the replies come, cut into any reads, the handler of
  every command is called once, with the reply to this command; the parser is left clean and a read is
  pending.
\<close>

theorem pipelined_replies:
  assumes "a_state c = Connected" and "clean (a_parser c)" and "strand c = []" and "a_queue c = []"
    and "handlers c = []" and "length vs = length rs" and "\<forall>v \<in> set vs. sendable v"
    and "[] \<notin> set bss" and "concat bss = concat (map encode vs)"
  shows "\<exists>p. clean p \<and>
    async_run (map (\<lambda>(cmd, args, h). Call_command cmd args h) rs @ replicate (length rs) Strand_task @
        replicate (length rs) (Write_done (False, [])) @ map (Read_done (False, [])) bss) c =
      Some (Went (c\<lparr>a_parser := p, writes := writes c @ map (\<lambda>(cmd, args, h). makeCommand (RedisBuffer_str cmd # args)) rs,
        invoked := invoked c @ map2 (\<lambda>(cmd, args, h) v. Reply h v) rs vs,
        readCalls := readCalls c + length bss\<rparr>))"
proof -
  let ?queue = "map (\<lambda>r. (request_handler r, request_bytes r)) rs"
  let ?c1 = "c\<lparr>strand := map (\<lambda>r. DoAsyncCommand (request_bytes r) (request_handler r)) rs\<rparr>"
  let ?c2 = "c\<lparr>a_queue := ?queue, handlers := map request_handler rs,
    writes := writes c @ map request_bytes (take 1 rs)\<rparr>"
  let ?c3 = "c\<lparr>handlers := map request_handler rs, writes := writes c @ map request_bytes rs\<rparr>"
  have 1: "async_run (map (\<lambda>(cmd, args, h). Call_command cmd args h) rs) c = Some (Went ?c1)"
    using post_requests [OF assms(1)] assms(3) by simp
  have 2: "async_run (replicate (length rs) Strand_task) ?c1 = Some (Went ?c2)"
    using run_requests [of ?c1 rs] assms(3-5) by simp
  have "map request_bytes (take 1 rs) @ map request_bytes (drop 1 rs) = map request_bytes rs"
    by (simp flip: map_append)
  then have 3: "async_run (replicate (length rs) (Write_done (False, []))) ?c2 = Some (Went ?c3)"
    using write_requests [of ?c2 rs] assms(4) by simp
  have "feed (abs_parser (a_parser ?c3)) (concat bss) = (vs, More TStart [])"
    using assms(2,7,9) by (simp add: clean_ok feed_encode)
  then obtain p where p: "parser_ok p" "abs_parser p = More TStart []" "async_run (reads_of bss) ?c3 =
      Some (Went ((answered vs ?c3)\<lparr>a_parser := p, readCalls := readCalls c + length bss\<rparr>))"
    using async_reads_replies [of ?c3 bss vs TStart "[]"] assms(1,2,6,8) by (auto simp: clean_ok)
  have "map2 Reply (map request_handler rs) vs = map2 (\<lambda>(cmd, args, h) v. Reply h v) rs vs"
    by (simp add: map2_map_map split_beta' zip_map1 comp_def)
  then have "(answered vs ?c3)\<lparr>a_parser := p, readCalls := readCalls c + length bss\<rparr> =
      c\<lparr>a_parser := p, writes := writes c @ map (\<lambda>(cmd, args, h). makeCommand (RedisBuffer_str cmd # args)) rs,
        invoked := invoked c @ map2 (\<lambda>(cmd, args, h) v. Reply h v) rs vs, readCalls := readCalls c + length bss\<rparr>"
    using assms(5,6) by (simp add: answered_def split_beta')
  moreover have "clean p" using p(1,2) by (rule abs_start_clean)
  ultimately show ?thesis
    using 1 2 3 p(3) by (intro exI [of _ p]) (simp add: async_run_append)
qed

text \<open>A connected client, with the error handler of the program.\<close>

definition demo_async :: async_client where
  "demo_async = RedisAsyncClient\<lparr>a_state := Connected, a_errorHandler := installedErrorHandler\<rparr>"

theorem pipelined_replies_witness:
  "\<exists>p. async_run ([Call_command ''GET'' [RedisBuffer_str ''a''] (Handler 1), Call_command ''GET'' [RedisBuffer_str ''b''] (Handler 2),
        Strand_task, Strand_task, Write_done (False, []), Write_done (False, []),
        Read_done (False, []) (''$1'' @ crlf @ ''x''), Read_done (False, []) (crlf @ '':5'' @ crlf)]) demo_async =
      Some (Went (demo_async\<lparr>a_parser := p,
        writes := [makeCommand (map RedisBuffer_str [''GET'', ''a'']), makeCommand (map RedisBuffer_str [''GET'', ''b''])],
        invoked := [Reply (Handler 1) (RedisValue_buf ''x''), Reply (Handler 2) (RedisValue_int 5)], readCalls := 2\<rparr>))"
proof -
  have "concat [''$1'' @ crlf @ ''x'', crlf @ '':5'' @ crlf] = concat (map encode [RedisValue_buf ''x'', RedisValue_int 5])"
    by code_simp
  then show ?thesis
    using pipelined_replies [of demo_async "[RedisValue_buf ''x'', RedisValue_int 5]"
        "[(''GET'', [RedisBuffer_str ''a''], Handler 1), (''GET'', [RedisBuffer_str ''b''], Handler 2)]"
        "[''$1'' @ crlf @ ''x'', crlf @ '':5'' @ crlf]"]
    by (auto simp: demo_async_def RedisAsyncClient_def RedisParser_clean RedisValue_buf_def RedisValue_int_def
        LONG_MAX_def simp del: encode.simps)
qed

subsection \<open>Subscribing while a command waits\<close>

definition subscribed_reply :: "string \<Rightarrow> RedisValue" where
  "subscribed_reply channel = RedisValue_array [RedisValue_buf ''subscribe'', RedisValue_buf channel, RedisValue_int 1]"

lemma async_read_value:
  assumes "clean (a_parser c)" and "sendable v"
  obtains q where "clean q" "asyncRead (False, []) (encode v) c =
    (case doProcessMessage v (c\<lparr>a_parser := q\<rparr>) of Went c' \<Rightarrow> Some (Went (processMessage c')) | res \<Rightarrow> Some res)"
proof -
  obtain p q where "parse (encode v @ []) (a_parser c) = Parsed (length (encode v)) Completed p"
    "parser_result p = Some (v, q)" "clean q"
    using parse_encode [OF assms, of "[]"] by blast
  moreover have "encode v \<noteq> []" by (cases v) simp_all
  ultimately show thesis
    by (intro that [of q]) (simp_all add: asyncRead_def async_chunk.simps [of "encode v"] async_chunk.simps [of "[]"]
        split: async_result.split)
qed

text \<open>
  C13. Subscribing while a command waits for its reply gives the replies to the wrong handlers: the reply of
  the command is reported as a protocol error and lost, its handler gets the confirmation of the
  subscription, and the handler of the subscription stays in the queue. The client also never leaves the
  subscribed state, so an ordinary command fails its assertion from then on, even after the last channel
  is unsubscribed.
\<close>

theorem subscribe_takes_reply:
  assumes "a_state c = Connected" and "clean (a_parser c)" and "strand c = []" and "a_queue c = []"
    and "handlers c = []" and "a_errorHandler c = installedErrorHandler"
    and "sendable v" and "length (toArray v) \<noteq> 3" and "int (length channel) \<le> LONG_MAX"
  shows "\<exists>c'. async_run [Call_command cmd args h, Strand_task, Write_done (False, []),
        Call_subscribe channel mh hs, Strand_task, Write_done (False, []),
        Read_done (False, []) (encode v), Read_done (False, []) (encode (subscribed_reply channel))] c = Some (Went c') \<and>
    a_errors c' = a_errors c @ [''[RedisClient] Protocol error''] \<and>
    invoked c' = invoked c @ [Reply h (subscribed_reply channel)] \<and> handlers c' = [hs] \<and>
    (\<forall>cmd' args' h' i. async_run [Call_unsubscribe i channel, Call_command cmd' args' h'] c' = Some AssertFailed)"
proof -
  let ?c = "c\<lparr>handlers := [h, hs], subscribeSeq := subscribeSeq c + 1, a_state := Subscribed,
    msgHandlers := msgHandlers c @ [(channel, subscribeSeq c, mh)],
    writes := writes c @ [makeCommand (RedisBuffer_str cmd # args),
      makeCommand [RedisBuffer_str ''SUBSCRIBE'', RedisBuffer_str channel]]\<rparr>"
  have sent: "async_run [Call_command cmd args h, Strand_task, Write_done (False, []),
      Call_subscribe channel mh hs, Strand_task, Write_done (False, [])] c = Some (Went ?c)"
    using assms(1,3-5) by (simp add: async_command_def post_command_def run_task_def doAsyncCommand_def
        asyncWrite_def subscribe_def)
  obtain q where q: "clean q" "asyncRead (False, []) (encode v) ?c =
      (case doProcessMessage v (?c\<lparr>a_parser := q\<rparr>) of Went c' \<Rightarrow> Some (Went (processMessage c')) | res \<Rightarrow> Some res)"
    using async_read_value [of ?c v] assms(2,7) by auto
  let ?c1 = "processMessage (?c\<lparr>a_parser := q, a_errors := a_errors c @ [''[RedisClient] Protocol error'']\<rparr>)"
  have 1: "asyncRead (False, []) (encode v) ?c = Some (Went ?c1)"
    using q(2) assms(6,8) by (simp add: doProcessMessage_def async_error_def)
  have "sendable (subscribed_reply channel)"
    using assms(9) by (simp add: subscribed_reply_def RedisValue_array_def RedisValue_buf_def RedisValue_int_def LONG_MAX_def)
  then obtain q' where q': "asyncRead (False, []) (encode (subscribed_reply channel)) ?c1 =
      (case doProcessMessage (subscribed_reply channel) (?c1\<lparr>a_parser := q'\<rparr>) of
         Went c' \<Rightarrow> Some (Went (processMessage c')) | res \<Rightarrow> Some res)"
    using async_read_value [of ?c1 "subscribed_reply channel"] q(1) by (auto simp: processMessage_def)
  let ?c2 = "processMessage (call_front (subscribed_reply channel) (?c1\<lparr>a_parser := q'\<rparr>))"
  have 2: "asyncRead (False, []) (encode (subscribed_reply channel)) ?c1 = Some (Went ?c2)"
    using q' by (simp add: doProcessMessage_def processMessage_def subscribed_reply_def RedisValue_array_def
        RedisValue_buf_def toArray_def toString_def toByteArray_def)
  have "async_run [Read_done (False, []) (encode v), Read_done (False, []) (encode (subscribed_reply channel))] ?c =
      Some (Went ?c2)"
    using 1 2 by simp
  then have "async_run ([Call_command cmd args h, Strand_task, Write_done (False, []),
      Call_subscribe channel mh hs, Strand_task, Write_done (False, [])] @
      [Read_done (False, []) (encode v), Read_done (False, []) (encode (subscribed_reply channel))]) c = Some (Went ?c2)"
    unfolding async_run_append sent by simp
  moreover have "a_errors ?c2 = a_errors c @ [''[RedisClient] Protocol error'']"
    "invoked ?c2 = invoked c @ [Reply h (subscribed_reply channel)]" "handlers ?c2 = [hs]"
    "a_state ?c2 = Subscribed"
    by (simp_all add: call_front_def processMessage_def)
  ultimately show ?thesis
    by (intro exI [of _ ?c2])
      (simp only: append_Cons append_Nil, simp add: unsubscribe_def post_command_def async_command_def)
qed

theorem subscribe_takes_reply_witness:
  "\<exists>c'. async_run [Call_command ''GET'' [RedisBuffer_str ''k''] (Handler 1), Strand_task, Write_done (False, []),
        Call_subscribe ''news'' (Handler 2) (Handler 3), Strand_task, Write_done (False, []),
        Read_done (False, []) (encode (RedisValue_buf ''x'')),
        Read_done (False, []) (encode (subscribed_reply ''news''))] demo_async = Some (Went c') \<and>
    invoked c' = [Reply (Handler 1) (subscribed_reply ''news'')] \<and> handlers c' = [Handler 3]"
proof -
  have v: "sendable (RedisValue_buf ''x'')" "length (toArray (RedisValue_buf ''x'')) \<noteq> 3"
    by (simp_all add: RedisValue_buf_def LONG_MAX_def toArray_def)
  have c: "a_state demo_async = Connected" "clean (a_parser demo_async)" "strand demo_async = []"
    "a_queue demo_async = []" "handlers demo_async = []" "a_errorHandler demo_async = installedErrorHandler"
    "invoked demo_async = []"
    by (simp_all add: demo_async_def RedisAsyncClient_def RedisParser_clean)
  have n: "int (length ''news'') \<le> LONG_MAX" by (simp add: LONG_MAX_def)
  obtain c' where "async_run [Call_command ''GET'' [RedisBuffer_str ''k''] (Handler 1), Strand_task, Write_done (False, []),
        Call_subscribe ''news'' (Handler 2) (Handler 3), Strand_task, Write_done (False, []),
        Read_done (False, []) (encode (RedisValue_buf ''x'')),
        Read_done (False, []) (encode (subscribed_reply ''news''))] demo_async = Some (Went c')"
    "invoked c' = invoked demo_async @ [Reply (Handler 1) (subscribed_reply ''news'')]" "handlers c' = [Handler 3]"
    using subscribe_takes_reply [OF c(1-6) v n, of "''GET''" "[RedisBuffer_str ''k'']" "Handler 1" "Handler 2" "Handler 3"]
    by blast
  with c(7) show ?thesis by (metis append_Nil)
qed

end
