(* ===== verification/SessionStore.thy ===== *)
theory SessionStore imports ServerLemmas begin

text \<open>
  What the store gives an agent that registers: the watched processes and counters, whether stored or
  entered from the defaults, with everything else in the store unchanged.
\<close>

subsection \<open>Changes of one list\<close>

definition list_changed :: "('s, 'j) laws \<Rightarrow> string \<Rightarrow> 's manager \<Rightarrow> 's manager \<Rightarrow> bool" where
  "list_changed V k m m' \<longleftrightarrow>
     conn m' = conn m \<and> opened V (store m') = opened V (store m) \<and>
     (\<forall>k'. k' \<noteq> k \<longrightarrow> keys_of V m' k' = keys_of V m k') \<and>
     defaultProcessList m' = defaultProcessList m \<and> defaultCounterList m' = defaultCounterList m \<and>
     defaultMachineCounterList m' = defaultMachineCounterList m"

lemma list_changed_refl [simp]: "list_changed V k m m" "list_changed V k m (insert_name c n m)"
  by (simp_all add: list_changed_def insert_name_def)

lemma list_changed_trans: "list_changed V k a b \<Longrightarrow> list_changed V k b c \<Longrightarrow> list_changed V k a c"
  by (simp add: list_changed_def)

lemma list_changed_idle: "list_changed V k m m' \<Longrightarrow> idle V m \<Longrightarrow> idle V m'"
  by (simp add: list_changed_def idle_def)

lemma list_changed_set_at: "list_changed V k m m' \<Longrightarrow> k' \<noteq> k \<Longrightarrow> set_at (keys_of V m') k' = set_at (keys_of V m) k'"
  by (simp add: list_changed_def set_at_def)

lemma list_changed_kept: "list_changed V k m m' \<Longrightarrow> k \<noteq> ''AgentList'' \<Longrightarrow> kept V m m'"
  by (auto simp: list_changed_def kept_def)

lemma wrote_list_changed: "wrote V m k v m' \<Longrightarrow> list_changed V k m m'"
  by (cases m') (auto simp: wrote_def becomes_def list_changed_def)

lemma reply_simps [simp]: "toString (RedisValue_buf s) = s" "isOk (RedisValue_int n)" 
  by (simp_all add: redis_observers)

lemma added_state:
  assumes "wrote V m k (Some (Set B)) m'" and "idle V m"
  shows "idle V m'" and "set_at (keys_of V m') k = Some B" and "list_changed V k m m'"
  using wrote_idle [OF assms] wrote_keys [OF assms(1)] wrote_list_changed [OF assms(1)] by simp_all

subsection \<open>Processes\<close>

lemma sadd_all_changed:
  assumes "set_laws E V" "idle V m" "set_at (keys_of V m) k = Some A"
  shows "\<exists>m'. sadd_all E k xs acc m = Some (True, acc @ xs, m') \<and> list_changed V k m m'"
  using assms(2,3)
proof (induction xs arbitrary: acc m A)
  case (Cons x xs)
  obtain m1 where m1: "redis_command E [''sadd'', k, x] m =
      Some (RedisValue_int (if x \<in> A then 0 else 1), m1)"
    "wrote V m k (Some (Set (insert x A))) m1"
    using cmd_sadd [OF assms(1) Cons.prems] .
  note c = added_state [OF m1(2) Cons.prems(1)]
  obtain m' where "sadd_all E k xs (acc @ [x]) m1 = Some (True, (acc @ [x]) @ xs, m')" "list_changed V k m1 m'"
    using Cons.IH [OF c(1,2), of "acc @ [x]"] by blast
  with m1(1) c(3) show ?case by (auto intro: list_changed_trans)
qed simp

text \<open>What an agent watches: the stored list, or the defaults where there is none.\<close>

definition watch_set :: "string set \<Rightarrow> string list \<Rightarrow> string set" where
  "watch_set A defaults = (if A = {} then set defaults else A)"

lemma GetProcessList_done:
  assumes "set_laws E V" "idle V m" "set_at (keys_of V m) (process_list n) = Some A"
    and "distinct (defaultProcessList m)"
  obtains xs m' where "GetProcessList E n m = Some (True, xs, m')" "distinct xs"
    "set xs = watch_set A (defaultProcessList m)" "list_changed V (process_list n) m m'"
proof -
  obtain ys where ys: "redis_command E [''smembers'', process_list n] m =
      Some (RedisValue_array (map RedisValue_buf ys), m)" "distinct ys" "set ys = A"
    using cmd_smembers [OF assms(1-3)] .
  show thesis
  proof (cases "A = {}")
    case True
    obtain m' where "sadd_all E (process_list n) (defaultProcessList m) [] m = Some (True, defaultProcessList m, m')"
      "list_changed V (process_list n) m m'"
      using sadd_all_changed [OF assms(1-3), of "defaultProcessList m" "[]"] by auto
    with ys True assms(4) show thesis
      by (intro that [of "defaultProcessList m" m'])
        (simp_all add: GetProcessList_def Let_def redis_observers watch_set_def)
  next
    case False
    with ys show thesis
      by (intro that [of ys m])
        (auto simp: GetProcessList_def Let_def redis_observers watch_set_def o_def map_idI)
  qed
qed

subsection \<open>Counters\<close>

text \<open>A counter is stored as the text of a JSON object with its path and its short name.\<close>

definition counter_text_ok :: "('s, 'j) platform \<Rightarrow> string \<Rightarrow> bool" where
  "counter_text_ok E s \<longleftrightarrow> json_string_at E (StrToJson E s) ''counter'' \<noteq> None \<and>
     json_string_at E (StrToJson E s) ''name'' \<noteq> None"

definition counter_path_of :: "('s, 'j) platform \<Rightarrow> string \<Rightarrow> string" where
  "counter_path_of E s = (case json_string_at E (StrToJson E s) ''counter'' of None \<Rightarrow> [] | Some c \<Rightarrow> c)"

lemma read_counters_done:
  assumes "\<forall>y \<in> set ys. counter_text_ok E y"
  shows "\<exists>m'. read_counters E (map RedisValue_buf ys) acc m = Some (True, acc @ map (counter_path_of E) ys, m') \<and>
    list_changed V k m m'"
  using assms
proof (induction ys arbitrary: acc m)
  case (Cons y ys)
  obtain c nm where y: "json_string_at E (StrToJson E y) ''counter'' = Some c"
    "json_string_at E (StrToJson E y) ''name'' = Some nm"
    using Cons.prems by (auto simp: counter_text_ok_def)
  obtain m' where "read_counters E (map RedisValue_buf ys) (acc @ [c]) (insert_name c nm m) =
      Some (True, (acc @ [c]) @ map (counter_path_of E) ys, m')" "list_changed V k (insert_name c nm m) m'"
    using Cons.IH [of "acc @ [c]" "insert_name c nm m"] Cons.prems by auto
  with y show ?case
    by (auto simp: counter_path_of_def [of E y] intro: list_changed_trans [OF list_changed_refl(2)])
qed simp

lemma sadd_counters_changed:
  assumes "set_laws E V" "idle V m" "set_at (keys_of V m) k = Some A" "\<forall>y \<in> set ys. counter_text_ok E y"
  shows "\<exists>m'. sadd_counters E k ys acc m = Some (True, acc @ map (counter_path_of E) ys, m') \<and> list_changed V k m m'"
  using assms(2-4)
proof (induction ys arbitrary: acc m A)
  case (Cons y ys)
  obtain m1 where m1: "redis_command E [''sadd'', k, y] m =
      Some (RedisValue_int (if y \<in> A then 0 else 1), m1)"
    "wrote V m k (Some (Set (insert y A))) m1"
    using cmd_sadd [OF assms(1) Cons.prems(1,2)] .
  note c = added_state [OF m1(2) Cons.prems(1)]
  obtain p where p: "json_string_at E (StrToJson E y) ''counter'' = Some p" "counter_path_of E y = p"
    using Cons.prems(3) by (auto simp: counter_text_ok_def counter_path_of_def)
  obtain m' where "sadd_counters E k ys (acc @ [p]) m1 = Some (True, (acc @ [p]) @ map (counter_path_of E) ys, m')"
    "list_changed V k m1 m'"
    using Cons.IH [OF c(1,2), of "acc @ [p]"] Cons.prems(3) by auto
  with m1(1) c(3) p show ?case by (auto intro: list_changed_trans)
qed simp

abbreviation default_counters :: "bool \<Rightarrow> 's manager \<Rightarrow> string list" where
  "default_counters b m \<equiv> (if b then defaultMachineCounterList m else defaultCounterList m)"

lemma GetCounterList_done:
  assumes "set_laws E V" "idle V m" "set_at (keys_of V m) (counter_key n b) = Some A"
    and "distinct (default_counters b m)" "\<forall>y \<in> watch_set A (default_counters b m). counter_text_ok E y"
  obtains ys m' where "GetCounterList E n b m = Some (True, map (counter_path_of E) ys, m')" "distinct ys"
    "set ys = watch_set A (default_counters b m)" "list_changed V (counter_key n b) m m'"
proof -
  obtain ys where ys: "redis_command E [''smembers'', counter_key n b] m =
      Some (RedisValue_array (map RedisValue_buf ys), m)" "distinct ys" "set ys = A"
    using cmd_smembers [OF assms(1-3)] .
  show thesis
  proof (cases "A = {}")
    case True
    obtain m' where "sadd_counters E (counter_key n b) (default_counters b m) [] m =
        Some (True, map (counter_path_of E) (default_counters b m), m')"
      "list_changed V (counter_key n b) m m'"
      using sadd_counters_changed [OF assms(1-3), of "default_counters b m" "[]"] assms(5) True
      by (auto simp: watch_set_def)
    with ys True assms(4) show thesis
      by (intro that [of "default_counters b m" m'])
        (simp_all add: GetCounterList_def Let_def redis_observers watch_set_def split: if_splits)
  next
    case False
    obtain m' where "read_counters E (map RedisValue_buf ys) [] m = Some (True, map (counter_path_of E) ys, m')"
      "list_changed V (counter_key n b) m m'"
      using read_counters_done [of ys E "[]" m V "counter_key n b"] assms(5) ys(3) False by (auto simp: watch_set_def)
    with ys False show thesis
      by (intro that [of ys m'])
        (auto simp: GetCounterList_def Let_def redis_observers watch_set_def)
  qed
qed

end
