(* ===== verification/Session.thy ===== *)
theory Session imports SessionStore ClientLemmas begin

text \<open>
  An agent and its server in conversation: what one side sends becomes the packets of the other side. The
  steps of the registration of an agent, one lemma per packet.
\<close>

subsection \<open>From bytes to packets\<close>

text \<open>The packet that a complete run of bytes on the connection is put together to.\<close>

definition packet_of :: "byte list \<Rightarrow> CPacket" where
  "packet_of bs = \<lparr>plength = un_le16 (bs ! 0) (bs ! 1), ptype = un_le16 (bs ! 2) (bs ! 3), pmsg = drop 4 bs,
     powner = 0, pownert = AGENT\<rparr>"

lemma packet_of_wire:
  assumes "length ser \<le> BUFSIZE"
  shows "ptype (packet_of (CPacket.wire (t, ser))) = t" and "payload (packet_of (CPacket.wire (t, ser))) = ser"
proof -
  let ?w = "CPacket.wire (t, ser)"
  have w: "?w = le16 (word_of_nat (length ser)) @ le16 t @ ser" by (simp add: CPacket.wire_def)
  have nths: "?w ! 0 = le16 (word_of_nat (length ser)) ! 0" "?w ! 1 = le16 (word_of_nat (length ser)) ! 1"
    "?w ! 2 = le16 t ! 0" "?w ! 3 = le16 t ! 1" "drop 4 ?w = ser"
    by (simp_all add: w nth_append)
  show "ptype (packet_of ?w) = t" by (simp add: packet_of_def nths)
  have "un_le16 (?w ! 0) (?w ! 1) = word_of_nat (length ser)" unfolding nths by simp
  moreover have "unat (word_of_nat (length ser) :: int16) = length ser"
    using assms by (simp add: unat_of_nat)
  ultimately show "payload (packet_of ?w) = ser"
    using assms by (simp add: packet_of_def payload_def nths sint16_unat)
qed

subsection \<open>The server\<close>

text \<open>What all answers of the server have in common: the sockets, their tokens and numbers stay.\<close>

definition served :: "sid \<Rightarrow> 's server \<Rightarrow> 's server \<Rightarrow> (int16 \<times> byte list) list \<Rightarrow> bool" where
  "served i srv srv' ps \<longleftrightarrow>
     calls srv' = calls srv @ map (\<lambda>(t, ser). to_agent srv i t ser) ps \<and>
     (\<forall>j. socket (agents srv' j) = socket (agents srv j) \<and> token (agents srv' j) = token (agents srv j) \<and>
          agentID (agents srv' j) = agentID (agents srv j))"

lemma served_trans:
  "served i srv srv1 ps \<Longrightarrow> served i srv1 srv2 qs \<Longrightarrow> served i srv srv2 (ps @ qs)"
  by (auto simp: served_def to_agent_def)

lemma served_free: "served i srv srv' ps \<Longrightarrow> served i srv (AgentSocket.free_packet i b srv') ps"
  by (simp add: served_def AgentSocket.free_packet_def agent_update_def)

lemma free_store [simp]: "agent_store (AgentSocket.free_packet i b srv) = agent_store srv"
  by (simp add: AgentSocket.free_packet_def agent_update_def agent_store_def)

lemma agent_send_served:
  assumes "length ser \<le> BUFSIZE"
  obtains srv' where "agent_send i t ser srv = Some srv'" "served i srv srv' [(t, ser)]"
    "agent_store srv' = agent_store srv"
  using agent_send_fits [OF assms, of i t srv]
  by (auto intro!: that simp: served_def agent_store_def)

lemma store_served:
  assumes "f (agent_store srv) = Some (x, m')"
  obtains srv' where "on_agentRedis f srv = Some (x, srv')" "served i srv srv' []" "agent_store srv' = m'"
proof -
  have "on_agentRedis f srv = Some (x, srv\<lparr>agentRedis := m', db := store m'\<rparr>)"
    using assms by (simp add: on_agentRedis_Some)
  then show thesis by (rule that) (simp_all add: served_def agent_store_def)
qed

definition process_list_reply :: "('s, 'j) platform \<Rightarrow> string list \<Rightarrow> byte list" where
  "process_list_reply E xs =
     scProcessListResponse_serialize (RedisManager.wire E) (scProcessListResponse_empty\<lparr>plrsp_processName := xs\<rparr>)"

definition counter_list_reply :: "('s, 'j) platform \<Rightarrow> bool \<Rightarrow> string list \<Rightarrow> byte list" where
  "counter_list_reply E b xs =
     scCounterListResponse_serialize (RedisManager.wire E)
       (scCounterListResponse_empty\<lparr>clrsp_isMachine := Some b, clrsp_counterName := xs\<rparr>)"

definition start_message :: "('s, 'j) platform \<Rightarrow> bool \<Rightarrow> byte list" where
  "start_message E b =
     scStartRecord_serialize (RedisManager.wire E)
       (scStartRecord_empty\<lparr>start_isMachine := Some b, start_totalRecordTime := Some (-1),
          start_interval := Some 1, start_responseTime := Some 10, start_delay := Some 0\<rparr>)"

lemma rep_field_bound:
  "sum_list (map field_bound (rep_field n put_string xs)) = (\<Sum>x \<leftarrow> xs. length x + 11)"
  by (simp add: rep_field_def o_def add.commute)

lemma rep_field_short:
  "(\<Sum>x \<leftarrow> xs. length x + 11) \<le> 8000 \<Longrightarrow> list_all short_field (rep_field n put_string xs)"
  by (induction xs) (auto simp: rep_field_def)

lemma list_replies_fit:
  assumes "platform_laws E V" and "(\<Sum>x \<leftarrow> xs. length x + 11) \<le> 8000"
  shows "length (process_list_reply E xs) \<le> BUFSIZE" and "length (counter_list_reply E b xs) \<le> BUFSIZE"
  using assms rep_field_short [OF assms(2)]
  unfolding process_list_reply_def counter_list_reply_def scProcessListResponse_serialize_def
    scCounterListResponse_serialize_def platform_laws_def
  by (intro wire_smallD; simp add: scProcessListResponse_fields_def scCounterListResponse_fields_def rep_field_bound)+

lemma start_message_fits: "platform_laws E V \<Longrightarrow> length (start_message E b) \<le> BUFSIZE"
  unfolding start_message_def scStartRecord_serialize_def platform_laws_def
  by (intro wire_smallD) (simp_all add: scStartRecord_fields_def)

subsection \<open>The server's steps\<close>

lemma sum_distinct_list: "distinct xs \<Longrightarrow> (\<Sum>x \<leftarrow> map f xs. g x) = (\<Sum>x \<in> set xs. g (f x))"
  by (simp add: o_def sum_list_distinct_conv_sum_set)

lemma answer_sent:
  assumes "f (agent_store srv) = Some (x, m')" and "length ser \<le> BUFSIZE"
  obtains srv1 srv' where "on_agentRedis f srv = Some (x, srv1)" "agent_send i t ser srv1 = Some srv'"
    "served i srv srv' [(t, ser)]" "agent_store srv' = m'"
proof -
  obtain srv1 where 1: "on_agentRedis f srv = Some (x, srv1)" "served i srv srv1 []" "agent_store srv1 = m'"
    using store_served [of f srv x m', OF assms(1)] .
  obtain srv' where "agent_send i t ser srv1 = Some srv'" "served i srv1 srv' [(t, ser)]"
    "agent_store srv' = agent_store srv1"
    using agent_send_served [OF assms(2)] .
  with 1 served_trans [OF 1(2), of srv' "[(t, ser)]"] show thesis by (intro that [of srv1 srv']) simp_all
qed

lemma server_processes:
  assumes "platform_laws E V" and "socket (agents srv i) \<noteq> 0" and "idle V (agent_store srv)"
    and "ptype p = agentType_value ProcessListRequest"
    and "set_at (keys_of V (agent_store srv)) (process_list (agentID (agents srv i))) = Some A"
    and "distinct (defaultProcessList (agent_store srv))"
    and "(\<Sum>x \<in> watch_set A (defaultProcessList (agent_store srv)). length x + 11) \<le> 8000"
  obtains xs srv' where "AgentSocket.PacketHandling E clock i b p srv = Some srv'"
    "served i srv srv' [(agentType_value ProcessListResponse, process_list_reply E xs)]"
    "set xs = watch_set A (defaultProcessList (agent_store srv))"
    "list_changed V (process_list (agentID (agents srv i))) (agent_store srv) (agent_store srv')"
    "length (process_list_reply E xs) \<le> BUFSIZE"
proof -
  let ?n = "agentID (agents srv i)"
  have laws: "set_laws E V" using assms(1) by (simp add: platform_laws_def store_laws_def)
  obtain xs m' where m': "GetProcessList E ?n (agent_store srv) = Some (True, xs, m')" "distinct xs"
    "set xs = watch_set A (defaultProcessList (agent_store srv))"
    "list_changed V (process_list ?n) (agent_store srv) m'"
    using GetProcessList_done [OF laws assms(3,5,6)] .
  have "(\<Sum>x \<leftarrow> xs. length x + 11) \<le> 8000"
    using assms(7) m'(3) sum_distinct_list [OF m'(2), where f = "\<lambda>x. x" and g = "\<lambda>x. length x + 11"] by simp
  note fit = list_replies_fit(1) [OF assms(1) this]
  have out: "with_output (GetProcessList E ?n) (agent_store srv) = Some ((True, xs), m')"
    by (simp add: with_output_def m'(1))
  obtain srv1 srv2 where s: "on_agentRedis (with_output (GetProcessList E ?n)) srv = Some ((True, xs), srv1)"
    "agent_send i (agentType_value ProcessListResponse) (process_list_reply E xs) srv1 = Some srv2"
    "served i srv srv2 [(agentType_value ProcessListResponse, process_list_reply E xs)]" "agent_store srv2 = m'"
    by (rule answer_sent [where f = "with_output (GetProcessList E ?n)", OF out fit])
  then have "AgentSocket.handle_packet E clock i p srv = Some srv2"
    by (simp add: AgentSocket.handle_packet_def assms(4) SendProcessListResponse_def process_list_reply_def)
  with assms(2) s(3,4) m'(3,4) fit served_free show thesis
    by (intro that [of "AgentSocket.free_packet i b srv2" xs]) (simp_all add: AgentSocket.PacketHandling_def)
qed

lemma server_counters:
  assumes "platform_laws E V" and "socket (agents srv i) \<noteq> 0" and "idle V (agent_store srv)"
    and "ptype p = agentType_value CounterListRequest"
    and "csCounterListRequest_parse (RedisManager.wire E) (payload p) = Some \<lparr>clreq_isMachine = Some mach\<rparr>"
    and "set_at (keys_of V (agent_store srv)) (counter_key (agentID (agents srv i)) mach) = Some A"
    and "distinct (default_counters mach (agent_store srv))"
    and "\<forall>y \<in> watch_set A (default_counters mach (agent_store srv)). counter_text_ok E y"
    and "(\<Sum>y \<in> watch_set A (default_counters mach (agent_store srv)). length (counter_path_of E y) + 11) \<le> 8000"
  obtains xs srv' where "AgentSocket.PacketHandling E clock i b p srv = Some srv'"
    "served i srv srv' [(agentType_value CounterListResponse, counter_list_reply E mach xs)]"
    "set xs = counter_path_of E ` watch_set A (default_counters mach (agent_store srv))"
    "list_changed V (counter_key (agentID (agents srv i)) mach) (agent_store srv) (agent_store srv')"
    "length (counter_list_reply E mach xs) \<le> BUFSIZE"
proof -
  let ?n = "agentID (agents srv i)"
  have laws: "set_laws E V" using assms(1) by (simp add: platform_laws_def store_laws_def)
  obtain ys m' where m': "GetCounterList E ?n mach (agent_store srv) = Some (True, map (counter_path_of E) ys, m')"
    "distinct ys" "set ys = watch_set A (default_counters mach (agent_store srv))"
    "list_changed V (counter_key ?n mach) (agent_store srv) m'"
    using GetCounterList_done [OF laws assms(3,6,7,8)] .
  let ?xs = "map (counter_path_of E) ys"
  have "(\<Sum>x \<leftarrow> ?xs. length x + 11) \<le> 8000"
    using assms(9) m'(3) sum_distinct_list [OF m'(2), where f = "counter_path_of E" and g = "\<lambda>x. length x + 11"] by simp
  note fit = list_replies_fit(2) [OF assms(1) this, of mach]
  have out: "with_output (GetCounterList E ?n mach) (agent_store srv) = Some ((True, ?xs), m')"
    by (simp add: with_output_def m'(1))
  obtain srv1 srv2 where s: "on_agentRedis (with_output (GetCounterList E ?n mach)) srv = Some ((True, ?xs), srv1)"
    "agent_send i (agentType_value CounterListResponse) (counter_list_reply E mach ?xs) srv1 = Some srv2"
    "served i srv srv2 [(agentType_value CounterListResponse, counter_list_reply E mach ?xs)]" "agent_store srv2 = m'"
    by (rule answer_sent [where f = "with_output (GetCounterList E ?n mach)", OF out fit])
  then have "AgentSocket.handle_packet E clock i p srv = Some srv2"
    by (simp add: AgentSocket.handle_packet_def handle_CounterListRequest_def assms(4,5)
        SendCounterListResponse_def counter_list_reply_def)
  with assms(2) s(3,4) m'(3,4) fit served_free show thesis
    by (intro that [of "AgentSocket.free_packet i b srv2" ?xs]) (simp_all add: AgentSocket.PacketHandling_def)
qed

lemma server_ready:
  assumes "platform_laws E V" and "socket (agents srv i) \<noteq> 0" and "registry E V h (agent_store srv)"
    and "ptype p = agentType_value AgentReady" and "h (to_string (token (agents srv i))) = Some w"
  obtains v srv' where "AgentSocket.PacketHandling E clock i b p srv = Some srv'"
    "served i srv srv' [(agentType_value agentType.StartRecord, start_message E True),
       (agentType_value agentType.StartRecord, start_message E False)]"
    "entry_number E v = entry_number E w"
    "registry E V (h(to_string (token (agents srv i)) \<mapsto> v)) (agent_store srv')"
proof -
  let ?t = "token (agents srv i)" and ?T = "agentType_value agentType.StartRecord"
  let ?f = "ChangeAgentState_startRecording E clock ?t (-1) 10 1 0"
  have laws: "store_laws E V" using assms(1) by (simp add: platform_laws_def)
  obtain updates where u: "?f = change_agent E updates ?t" "\<forall>kv \<in> set updates. scalar E (snd kv)"
    "''agentNumber'' \<notin> fst ` set updates"
    by (auto simp: ChangeAgentState_startRecording_def Let_def)
  obtain m' v where m': "?f (agent_store srv) = Some (True, m')"
    "registry E V (h(to_string ?t \<mapsto> v)) m'" "entry_number E v = entry_number E w"
    using change_agent_registry(2) [OF laws assms(3) u(2,3) assms(5)] u(1) by auto
  obtain srv1 where s1: "on_agentRedis ?f srv = Some (True, srv1)" "served i srv srv1 []" "agent_store srv1 = m'"
    using store_served [of ?f srv True m', OF m'(1)] .
  obtain srv2 where s2: "agent_send i ?T (start_message E True) srv1 = Some srv2"
    "served i srv1 srv2 [(?T, start_message E True)]" "agent_store srv2 = agent_store srv1"
    using agent_send_served [OF start_message_fits [OF assms(1)]] .
  obtain srv3 where s3: "agent_send i ?T (start_message E False) srv2 = Some srv3"
    "served i srv2 srv3 [(?T, start_message E False)]" "agent_store srv3 = agent_store srv2"
    using agent_send_served [OF start_message_fits [OF assms(1)]] .
  have "AgentSocket.handle_packet E clock i p srv = Some srv3"
    using s1(1) s2(1) s3(1)
    by (simp add: AgentSocket.handle_packet_def handle_AgentReady_def assms(4) SendStartRecord_def start_message_def)
  with assms(2) m' s1(3) s2(3) s3(3) served_free [OF served_trans [OF s1(2) served_trans [OF s2(2) s3(2)]]] show thesis
    by (intro that [of "AgentSocket.free_packet i b srv3" v]) (simp_all add: AgentSocket.PacketHandling_def)
qed

lemma server_record_response:
  assumes "socket (agents srv i) \<noteq> 0" and "ptype p = agentType_value RecordResponse"
  shows "AgentSocket.PacketHandling E clock i b p srv = Some (AgentSocket.free_packet i b srv)"
    and "served i srv (AgentSocket.free_packet i b srv) []"
proof -
  have "served i srv srv []" by (simp add: served_def)
  then show "served i srv (AgentSocket.free_packet i b srv) []" by (rule served_free)
qed (use assms in \<open>simp add: AgentSocket.PacketHandling_def AgentSocket.handle_packet_def\<close>)

end
