(* ===== verification/WatchList.thy ===== *)
theory WatchList imports AgentClientSocket begin

text \<open>
  What an agent watches: its processes, its counters and those of the machine are three lists of names with
  the same operations. The interface, its consequences for whole lists of names, and the three lists.
\<close>

text \<open>
  \<open>get\<close> and \<open>put\<close> are the field of the agent that holds the list. A name is added once, and a removed name
  is gone where it was there once.
\<close>

locale watch_list =
  fixes get :: "'c \<Rightarrow> string list" and put :: "string list \<Rightarrow> 'c \<Rightarrow> 'c"
    and add :: "string \<Rightarrow> 'c \<Rightarrow> bool \<times> 'c" and del :: "string \<Rightarrow> 'c \<Rightarrow> bool \<times> 'c"
  assumes field: "get (put xs c) = xs" "put (get c) c = c" "put ys (put xs c) = put ys c"
    and add_once: "snd (add x c) = put (if x \<in> set (get c) then get c else get c @ [x]) c"
    and del_gone: "\<exists>ys. snd (del x c) = put ys c \<and> (distinct (get c) \<longrightarrow> set ys = set (get c) - {x} \<and> distinct ys)"
begin

lemma set_add: "set (get (snd (add x c))) = insert x (set (get c))"
  by (simp add: add_once field(1) insert_absorb)

lemma del_result:
  assumes "distinct (get c)"
  shows "set (get (snd (del x c))) = set (get c) - {x}" and "distinct (get (snd (del x c)))"
proof -
  obtain ys where "snd (del x c) = put ys c" "set ys = set (get c) - {x} \<and> distinct ys"
    using del_gone [of x c] assms by blast
  then show "set (get (snd (del x c))) = set (get c) - {x}" "distinct (get (snd (del x c)))"
    by (simp_all add: field(1))
qed

lemma distinct_add: "distinct (get c) \<Longrightarrow> distinct (get (snd (add x c)))"
  by (simp add: add_once field(1))

text \<open>A whole list of names is added.\<close>

lemma each_add: "\<exists>L. each add xs c = put L c \<and> set L = set (get c) \<union> set xs"
proof (induction xs arbitrary: c)
  case Nil
  show ?case by (intro exI [of _ "get c"]) (simp add: field(2))
next
  case (Cons x xs)
  obtain L where "each add xs (snd (add x c)) = put L (snd (add x c))" "set L = set (get (snd (add x c))) \<union> set xs"
    using Cons.IH by blast
  then show ?case by (intro exI [of _ L]) (simp add: set_add, simp add: add_once field(3))
qed

end

subsection \<open>The three lists of the agent\<close>

interpretation processes: watch_list checkProcessList "\<lambda>xs c. c\<lparr>checkProcessList := xs\<rparr>" AddProcess DeleteProcess
proof
  fix x and c :: "'o client"
  show "snd (AddProcess x c) = c\<lparr>checkProcessList :=
      if x \<in> set (checkProcessList c) then checkProcessList c else checkProcessList c @ [x]\<rparr>"
    by (simp add: AddProcess_def)
  show "\<exists>ys. snd (DeleteProcess x c) = c\<lparr>checkProcessList := ys\<rparr> \<and>
      (distinct (checkProcessList c) \<longrightarrow> set ys = set (checkProcessList c) - {x} \<and> distinct ys)"
    by (intro exI [of _ "remove1 x (checkProcessList c)"])
      (auto simp: DeleteProcess_def remove1_idem set_remove1_eq distinct_remove1)
qed simp_all

interpretation counters: watch_list counterList "\<lambda>xs c. c\<lparr>counterList := xs\<rparr>"
  "\<lambda>x. AddCounter x False" "\<lambda>x. DeleteCounter x False"
proof
  fix x and c :: "'o client"
  show "snd (AddCounter x False c) = c\<lparr>counterList :=
      if x \<in> set (counterList c) then counterList c else counterList c @ [x]\<rparr>"
    by (simp add: AddCounter_def)
  show "\<exists>ys. snd (DeleteCounter x False c) = c\<lparr>counterList := ys\<rparr> \<and>
      (distinct (counterList c) \<longrightarrow> set ys = set (counterList c) - {x} \<and> distinct ys)"
    by (intro exI [of _ "removeAll x (counterList c)"]) (simp add: DeleteCounter_def distinct_removeAll)
qed simp_all

interpretation machine_counters: watch_list machineCounterList "\<lambda>xs c. c\<lparr>machineCounterList := xs\<rparr>"
  "\<lambda>x. AddCounter x True" "\<lambda>x. DeleteCounter x True"
proof
  fix x and c :: "'o client"
  show "snd (AddCounter x True c) = c\<lparr>machineCounterList :=
      if x \<in> set (machineCounterList c) then machineCounterList c else machineCounterList c @ [x]\<rparr>"
    by (simp add: AddCounter_def)
  show "\<exists>ys. snd (DeleteCounter x True c) = c\<lparr>machineCounterList := ys\<rparr> \<and>
      (distinct (machineCounterList c) \<longrightarrow> set ys = set (machineCounterList c) - {x} \<and> distinct ys)"
    by (intro exI [of _ "removeAll x (machineCounterList c)"]) (simp add: DeleteCounter_def distinct_removeAll)
qed simp_all

end
