(* ===== verification/SessionClient.thy ===== *)
theory SessionClient imports Session WatchList begin

text \<open>
  The agent's side of the conversation: the packet it sends when it is connected, and its answer to each
  packet of the registration.
\<close>

subsection \<open>What the agent sends\<close>

text \<open>All answers of the agent leave everything but the socket alone, apart from what a handler changes.\<close>

definition says :: "'o client \<Rightarrow> 'o client \<Rightarrow> (int16 \<times> byte list) list \<Rightarrow> bool" where
  "says c c' ps \<longleftrightarrow>
     ccalls c' = ccalls c @ map (\<lambda>p. SockCall (WSASend (socket (csocket c)) (CPacket.wire p))) ps \<and>
     socket (csocket c') = socket (csocket c)"

lemma says_fields [simp]:
  "says (c\<lparr>app_agentID := n\<rparr>) c' ps = says c c' ps" "says (c\<lparr>isConnect := b\<rparr>) c' ps = says c c' ps"
  "says (c\<lparr>checkProcessList := xs\<rparr>) c' ps = says c c' ps" "says (c\<lparr>counterList := xs\<rparr>) c' ps = says c c' ps"
  "says (c\<lparr>machineCounterList := xs\<rparr>) c' ps = says c c' ps" "says (c\<lparr>recorders := rs\<rparr>) c' ps = says c c' ps"
  "says (c\<lparr>isMachineRecordEnd := b\<rparr>) c' ps = says c c' ps" "says (c\<lparr>isProcessRecordEnd := b\<rparr>) c' ps = says c c' ps"
  by (simp_all add: says_def)

lemma client_send_done:
  assumes "length ser \<le> BUFSIZE"
  obtains ok c' where "client_send S t ser c = Some (ok, c')" "io_only c c'" "says c c' [(t, ser)]"
proof -
  obtain r os where r: "wsa_send S (sys c) = (r, os)" by fastforce
  have "SendPacket t ser = Sent (CPacket.wire (t, ser))" "CPacket.wire (t, ser) \<noteq> []"
    using assms by (simp_all add: SendPacket_def CPacket.wire_def le16_def)
  with r obtain ok c' where c': "client_send S t ser c = Some (ok, c')" "says c c' [(t, ser)]"
    by (simp add: client_send_def Send_def says_def)
  then show thesis using client_send_io [OF c'(1)] by (intro that)
qed

lemma send_connected_done:
  assumes "isConnect c" and "length ser \<le> BUFSIZE"
  obtains c' where "send_connected S t ser c = Some c'" "io_only c c'" "says c c' [(agentType_value t, ser)]"
proof -
  obtain ok c' where "client_send S (agentType_value t) ser c = Some (ok, c')" "io_only c c'"
    "says c c' [(agentType_value t, ser)]"
    by (rule client_send_done [OF assms(2)])
  then show thesis using assms(1) by (intro that) (simp_all add: send_connected_def)
qed

subsection \<open>The requests of an agent\<close>

definition id_request :: "'o system \<Rightarrow> int32 \<Rightarrow> int64 \<Rightarrow> byte list" where
  "id_request S a ram =
     csAgentIDRequest_serialize (cwire S)
       (csAgentIDRequest_empty\<lparr>idreq_token := Some a, idreq_hostIP := Some a, idreq_ramSize := Some ram\<rparr>)"

definition process_list_request :: "'o system \<Rightarrow> byte list" where
  "process_list_request S = csProcessListRequest_serialize (cwire S) csProcessListRequest"

definition counter_list_request :: "'o system \<Rightarrow> bool \<Rightarrow> byte list" where
  "counter_list_request S b =
     csCounterListRequest_serialize (cwire S) (csCounterListRequest_empty\<lparr>clreq_isMachine := Some b\<rparr>)"

definition ready_message :: "'o system \<Rightarrow> byte list" where
  "ready_message S = csAgentReady_serialize (cwire S) csAgentReady"

definition started_answer :: "'o system \<Rightarrow> bool \<Rightarrow> byte list" where
  "started_answer S b =
     csRecordResponse_serialize (cwire S)
       (csRecordResponse_empty\<lparr>rec_result := Some START_SUCCESS, rec_failReason := None, rec_isMachine := Some b\<rparr>)"

lemma requests_fit:
  assumes "wire_small (cwire S)"
  shows "length (id_request S a ram) \<le> BUFSIZE" and "length (process_list_request S) \<le> BUFSIZE"
    and "length (counter_list_request S b) \<le> BUFSIZE" and "length (ready_message S) \<le> BUFSIZE"
    and "length (started_answer S b) \<le> BUFSIZE"
  using assms
  unfolding id_request_def process_list_request_def counter_list_request_def ready_message_def started_answer_def
    csAgentIDRequest_serialize_def csProcessListRequest_serialize_def csCounterListRequest_serialize_def
    csAgentReady_serialize_def csRecordResponse_serialize_def
  by (intro wire_smallD;
      simp add: csAgentIDRequest_fields_def csProcessListRequest_fields_def csCounterListRequest_fields_def
        csAgentReady_fields_def csRecordResponse_fields_def csAgentIDRequest_empty_def csCounterListRequest_empty_def
        csRecordResponse_empty_def put_enum_defs)+

subsection \<open>The agent's steps\<close>

lemma PacketHandling_says:
  assumes "socket (csocket c) \<noteq> 0" and "handle_packet S p c = Some c1" and "io_only c0 c1" and "says c c1 ps"
  obtains c' where "PacketHandling S b p c = Some c'" "io_only c0 c'" "says c c' ps"
proof -
  have "io_only c1 (free_packet b c1)"
    unfolding io_only_def free_packet_def
    by (intro exI [of _ "(csocket c1)\<lparr>packetPoolManager := snd (Free b (packetPoolManager (csocket c1)))\<rparr>"]
        exI [of _ "sys c1"] exI [of _ "ccalls c1"]) simp
  then have "io_only c0 (free_packet b c1)" using assms(3) by (rule io_only_trans [rotated])
  moreover have "says c (free_packet b c1) ps" using assms(4) by (simp add: says_def free_packet_def)
  moreover have "PacketHandling S b p c = Some (free_packet b c1)"
    using assms(1,2) by (simp add: PacketHandling_def)
  ultimately show thesis by (intro that)
qed

lemma client_connects:
  assumes "host_address S (sys c) = Some a" and "wire_small (cwire S)"
  obtains c' where "ConnProcess S False c = Some c'" "io_only (c\<lparr>isConnect := True\<rparr>) c'"
    "ccalls c' = ccalls c @ [SockCall (WSASend (socket (csocket c))
       (CPacket.wire (agentType_value AgentIDRequest, id_request S a (app_ramSize c)))),
       SockCall (WSARecv (socket (csocket c)) 0 (int HEADER_SIZE))]"
    "socket (csocket c') = socket (csocket c)"
proof -
  let ?c = "c\<lparr>isConnect := True\<rparr>" and ?ser = "id_request S a (app_ramSize c)"
  obtain ok c1 where c1: "client_send S (agentType_value AgentIDRequest) ?ser ?c = Some (ok, c1)"
    "io_only ?c c1" "says ?c c1 [(agentType_value AgentIDRequest, ?ser)]"
    by (rule client_send_done [OF requests_fit(1) [OF assms(2)]])
  let ?c' = "c1\<lparr>csocket := (csocket c1)\<lparr>wsaRecvBuf := (0, int HEADER_SIZE)\<rparr>,
      ccalls := ccalls c1 @ [SockCall (WSARecv (socket (csocket c1)) 0 (int HEADER_SIZE))]\<rparr>"
  have "ConnProcess S False c = Some ?c'"
    using c1(1) assms(1)
    by (simp add: ConnProcess_def SendAgentIDRequest_def id_request_def TcpSocket.Recv_def)
  moreover have "io_only c1 ?c'"
    unfolding io_only_def by (intro exI [of _ "csocket ?c'"] exI [of _ "sys c1"] exI [of _ "ccalls ?c'"]) simp
  ultimately show thesis
    using c1(2,3) by (intro that [of ?c']) (simp_all add: says_def io_only_trans [OF c1(2)])
qed

lemma client_numbered:
  assumes "socket (csocket c) \<noteq> 0" "isConnect c" "wire_ok (cwire S)" "wire_small (cwire S)"
    and "ptype p = agentType_value AgentIDResponse" "cwire S = RedisManager.wire E" "payload p = id_reply E n False"
  obtains c' where "PacketHandling S b p c = Some c'" "io_only (c\<lparr>app_agentID := n\<rparr>) c'"
    "says c c' [(agentType_value ProcessListRequest, process_list_request S)]"
proof -
  let ?c = "c\<lparr>app_agentID := n\<rparr>"
  have parse: "scAgentIDResponse_parse (cwire S) (payload p) =
      Some \<lparr>idrsp_agentID = Some n, idrsp_alreadyRunning = Some False\<rparr>"
    using assms(3,6,7)
    by (simp add: id_reply_def scAgentIDResponse_roundtrip scAgentIDResponse_initialized_def)
  have on: "isConnect ?c" using assms(2) by simp
  obtain c1 where c1: "send_connected S ProcessListRequest (process_list_request S) ?c = Some c1" "io_only ?c c1"
    "says ?c c1 [(agentType_value ProcessListRequest, process_list_request S)]"
    by (rule send_connected_done [OF on requests_fit(2) [OF assms(4)]])
  have "handle_packet S p c = Some c1"
    using c1(1) assms(5) parse
    by (simp add: handle_packet_def handle_AgentIDResponse_def SendProcessListRequest_def process_list_request_def)
  then show thesis by (rule PacketHandling_says [OF assms(1) _ c1(2)]) (use c1(3) that in auto)
qed

lemma client_processes:
  assumes "socket (csocket c) \<noteq> 0" "isConnect c" "wire_ok (cwire S)" "wire_small (cwire S)"
    and "ptype p = agentType_value ProcessListResponse" "cwire S = RedisManager.wire E"
    and "payload p = process_list_reply E xs"
  obtains c' L where "PacketHandling S b p c = Some c'" "io_only (c\<lparr>checkProcessList := L\<rparr>) c'"
    "set L = set (checkProcessList c) \<union> set xs"
    "says c c' [(agentType_value CounterListRequest, counter_list_request S False)]"
proof -
  obtain L where L: "each AddProcess xs c = c\<lparr>checkProcessList := L\<rparr>" "set L = set (checkProcessList c) \<union> set xs"
    using processes.each_add [of xs c] by blast
  let ?c = "c\<lparr>checkProcessList := L\<rparr>"
  have parse: "scProcessListResponse_parse (cwire S) (payload p) = Some (scProcessListResponse_empty\<lparr>plrsp_processName := xs\<rparr>)"
    using assms(3,6,7)
    by (simp add: process_list_reply_def scProcessListResponse_roundtrip scProcessListResponse_initialized_def)
  have on: "isConnect ?c" using assms(2) by simp
  obtain c1 where c1: "send_connected S CounterListRequest (counter_list_request S False) ?c = Some c1" "io_only ?c c1"
    "says ?c c1 [(agentType_value CounterListRequest, counter_list_request S False)]"
    by (rule send_connected_done [OF on requests_fit(3) [OF assms(4)]])
  have "handle_packet S p c = Some c1"
    using c1(1) assms(5) parse L(1)
    by (simp add: handle_packet_def handle_ProcessListResponse_def SendCounterListRequest_def counter_list_request_def)
  then show thesis by (rule PacketHandling_says [OF assms(1) _ c1(2)]) (use c1(3) L(2) that in auto)
qed

lemma parse_counter_list:
  assumes "wire_ok (cwire S)" "cwire S = RedisManager.wire E" "payload p = counter_list_reply E mach xs"
  shows "scCounterListResponse_parse (cwire S) (payload p) =
    Some (scCounterListResponse_empty\<lparr>clrsp_isMachine := Some mach, clrsp_counterName := xs\<rparr>)"
  using assms
  by (simp add: counter_list_reply_def scCounterListResponse_roundtrip scCounterListResponse_initialized_def)

lemma client_counters:
  assumes "socket (csocket c) \<noteq> 0" "isConnect c" "wire_ok (cwire S)" "wire_small (cwire S)"
    and "ptype p = agentType_value CounterListResponse" "cwire S = RedisManager.wire E"
    and "payload p = counter_list_reply E False xs"
  obtains c' L where "PacketHandling S b p c = Some c'" "io_only (c\<lparr>counterList := L\<rparr>) c'"
    "set L = set (counterList c) \<union> set xs"
    "says c c' [(agentType_value CounterListRequest, counter_list_request S True)]"
proof -
  obtain L where L: "each (\<lambda>n. AddCounter n False) xs c = c\<lparr>counterList := L\<rparr>" "set L = set (counterList c) \<union> set xs"
    using counters.each_add [of xs c] by blast
  let ?c = "c\<lparr>counterList := L\<rparr>"
  have on: "isConnect ?c" using assms(2) by simp
  obtain c1 where c1: "send_connected S CounterListRequest (counter_list_request S True) ?c = Some c1" "io_only ?c c1"
    "says ?c c1 [(agentType_value CounterListRequest, counter_list_request S True)]"
    by (rule send_connected_done [OF on requests_fit(3) [OF assms(4)]])
  have "handle_packet S p c = Some c1"
    using c1(1) assms(5) parse_counter_list [OF assms(3,6,7)] L(1)
    by (simp add: handle_packet_def handle_CounterListResponse_def SendCounterListRequest_def counter_list_request_def)
  then show thesis by (rule PacketHandling_says [OF assms(1) _ c1(2)]) (use c1(3) L(2) that in auto)
qed

lemma client_machine_counters:
  assumes "socket (csocket c) \<noteq> 0" "isConnect c" "wire_ok (cwire S)" "wire_small (cwire S)"
    and "ptype p = agentType_value CounterListResponse" "cwire S = RedisManager.wire E"
    and "payload p = counter_list_reply E True xs"
  obtains c' L where "PacketHandling S b p c = Some c'" "io_only (c\<lparr>machineCounterList := L\<rparr>) c'"
    "set L = set (machineCounterList c) \<union> set xs" "says c c' [(agentType_value AgentReady, ready_message S)]"
proof -
  obtain L where L: "each (\<lambda>n. AddCounter n True) xs c = c\<lparr>machineCounterList := L\<rparr>"
    "set L = set (machineCounterList c) \<union> set xs"
    using machine_counters.each_add [of xs c] by blast
  let ?c = "c\<lparr>machineCounterList := L\<rparr>"
  have on: "isConnect ?c" using assms(2) by simp
  obtain c1 where c1: "send_connected S AgentReady (ready_message S) ?c = Some c1" "io_only ?c c1"
    "says ?c c1 [(agentType_value AgentReady, ready_message S)]"
    by (rule send_connected_done [OF on requests_fit(4) [OF assms(4)]])
  have "handle_packet S p c = Some c1"
    using c1(1) assms(5) parse_counter_list [OF assms(3,6,7)] L(1)
    by (simp add: handle_packet_def handle_CounterListResponse_def SendAgentReady_def ready_message_def)
  then show thesis by (rule PacketHandling_says [OF assms(1) _ c1(2)]) (use c1(3) L(2) that in auto)
qed

text \<open>The arguments of the recorders that the server starts when the agent is ready.\<close>

definition ready_args :: record_args where
  "ready_args = \<lparr>ra_totalTime = -1, ra_recordTime = 10, ra_interval = 1, ra_delay = 0\<rparr>"

definition with_recorder :: "bool \<Rightarrow> 'o client \<Rightarrow> 'o client" where
  "with_recorder mach c =
     (if mach then c\<lparr>isMachineRecordEnd := False, recorders := recorders c @ [(True, Delayed ready_args)]\<rparr>
      else c\<lparr>isProcessRecordEnd := False, recorders := recorders c @ [(False, Delayed ready_args)]\<rparr>)"

lemma client_starts:
  assumes "socket (csocket c) \<noteq> 0" "isConnect c" "wire_ok (cwire S)" "wire_small (cwire S)"
    and "ptype p = agentType_value agentType.StartRecord" "cwire S = RedisManager.wire E"
    and "payload p = start_message E mach" "record_end mach c"
  obtains c' where "PacketHandling S b p c = Some c'" "io_only (with_recorder mach c) c'"
    "says c c' [(agentType_value RecordResponse, started_answer S mach)]"
proof -
  let ?c = "with_recorder mach c"
  have started: "StartRecord mach (-1) 10 1 0 c = (True, ?c)"
    using assms(8) by (cases mach) (simp_all add: StartRecord_def with_recorder_def ready_args_def record_end_def)
  have parse: "scStartRecord_parse (cwire S) (payload p) =
      Some (scStartRecord_empty\<lparr>start_isMachine := Some mach, start_totalRecordTime := Some (-1),
        start_interval := Some 1, start_responseTime := Some 10, start_delay := Some 0\<rparr>)"
    using assms(3,6,7)
    by (simp add: start_message_def scStartRecord_roundtrip scStartRecord_initialized_def)
  have on: "isConnect ?c" using assms(2) by (simp add: with_recorder_def)
  obtain c1 where c1: "send_connected S RecordResponse (started_answer S mach) ?c = Some c1" "io_only ?c c1"
    "says ?c c1 [(agentType_value RecordResponse, started_answer S mach)]"
    by (rule send_connected_done [OF on requests_fit(5) [OF assms(4)]])
  have "handle_packet S p c = Some c1"
    using c1(1) assms(5) parse started
    by (simp add: handle_packet_def handle_StartRecord_def SendRecordResponse_def started_answer_def)
  moreover have "says c c1 [(agentType_value RecordResponse, started_answer S mach)]"
    using c1(3) by (cases mach) (simp_all add: with_recorder_def)
  ultimately obtain c' where "PacketHandling S b p c = Some c'" "io_only ?c c'"
    "says c c' [(agentType_value RecordResponse, started_answer S mach)]"
    by (rule PacketHandling_says [OF assms(1) _ c1(2)])
  then show thesis by (rule that)
qed

end
