(* ===== verification/SessionTalk.thy ===== *)
theory SessionTalk imports SessionClient begin

text \<open>
  The registration as a conversation: a server and an agent on one connection, each handling the packets
  of the other in their order, and the proof that from the connection on the two agree on a number and
  on what is watched, and that the agent records in the end.
\<close>

subsection \<open>The conversation\<close>

definition sent_to_agent :: "sid \<Rightarrow> 's server \<Rightarrow> 's server \<Rightarrow> byte list list" where
  "sent_to_agent i srv srv' =
     concat (map (\<lambda>call. case call of ToAgent j (WSASend _ bs) \<Rightarrow> if j = i then [bs] else [] | _ \<Rightarrow> [])
       (drop (length (calls srv)) (calls srv')))"

definition sent_to_server :: "'o client \<Rightarrow> 'o client \<Rightarrow> byte list list" where
  "sent_to_server c c' =
     concat (map (\<lambda>call. case call of SockCall (WSASend _ bs) \<Rightarrow> [bs] | _ \<Rightarrow> [])
       (drop (length (ccalls c)) (ccalls c')))"

text \<open>
  \<open>up\<close> and \<open>down\<close> are the packets under way. Where both sides have a packet, \<open>first\<close> decides whether the
  server comes first. \<open>block\<close> gives the block of the pool that a packet lies in. The fuel bounds the
  number of packets.
\<close>

fun talk ::
  "('s, 'j) platform \<Rightarrow> 'o system \<Rightarrow> int64 \<Rightarrow> sid \<Rightarrow> (nat \<Rightarrow> addr) \<Rightarrow> (nat \<Rightarrow> bool) \<Rightarrow> nat \<Rightarrow>
   's server \<Rightarrow> 'o client \<Rightarrow> byte list list \<Rightarrow> byte list list \<Rightarrow> ('s server \<times> 'o client) option" where
  "talk E S clock i block first 0 srv c up down = None"
| "talk E S clock i block first (Suc k) srv c up down =
     (if up = [] \<and> down = [] then Some (srv, c)
      else if up \<noteq> [] \<and> (down = [] \<or> first k)
      then do {
        srv' \<leftarrow> AgentSocket.PacketHandling E clock i (block k) (packet_of (hd up)) srv;
        talk E S clock i block first k srv' c (tl up) (down @ sent_to_agent i srv srv')
      }
      else do {
        c' \<leftarrow> AgentClientSocket.PacketHandling S (block k) (packet_of (hd down)) c;
        talk E S clock i block first k srv c' (up @ sent_to_server c c') (tl down)
      })"

definition session ::
  "('s, 'j) platform \<Rightarrow> 'o system \<Rightarrow> int64 \<Rightarrow> sid \<Rightarrow> (nat \<Rightarrow> addr) \<Rightarrow> (nat \<Rightarrow> bool) \<Rightarrow> nat \<Rightarrow>
   's server \<Rightarrow> 'o client \<Rightarrow> ('s server \<times> 'o client) option" where
  "session E S clock i block first k srv c =
     do {
       c' \<leftarrow> ConnProcess S False c;
       talk E S clock i block first k srv c' (sent_to_server c c') []
     }"

lemma served_sent: "served i srv srv' ps \<Longrightarrow> sent_to_agent i srv srv' = map CPacket.wire ps"
  by (auto simp: served_def sent_to_agent_def to_agent_def o_def split_beta concat_map_singleton)

lemma says_sent: "says c c' ps \<Longrightarrow> sent_to_server c c' = map CPacket.wire ps"
  by (simp add: says_def sent_to_server_def o_def concat_map_singleton)

text \<open>The number an agent has, or gets when it registers.\<close>

definition agent_number :: "('s, 'j) platform \<Rightarrow> (string \<Rightarrow> string option) \<Rightarrow> int32 \<Rightarrow> int32 option" where
  "agent_number E h a =
     (case h (to_string a) of None \<Rightarrow> Some (word_of_nat (card (dom h))) | Some v \<Rightarrow> entry_number E v)"

text \<open>
  What the store and the defaults of the manager hold for the agent: sets at its three keys, defaults
  without duplicates, counters that can be read, and lists that fit in a packet.
\<close>

definition counters_ready :: "('s, 'j) platform \<Rightarrow> ('s, 'j) laws \<Rightarrow> 's manager \<Rightarrow> int32 \<Rightarrow> bool \<Rightarrow> string set \<Rightarrow> bool" where
  "counters_ready E V m n b A \<longleftrightarrow>
     set_at (keys_of V m) (counter_key n b) = Some A \<and> distinct (default_counters b m) \<and>
     (\<forall>y \<in> watch_set A (default_counters b m). counter_text_ok E y) \<and>
     (\<Sum>y \<in> watch_set A (default_counters b m). length (counter_path_of E y) + 11) \<le> 8000"

definition lists_ready ::
  "('s, 'j) platform \<Rightarrow> ('s, 'j) laws \<Rightarrow> 's manager \<Rightarrow> int32 \<Rightarrow> string set \<Rightarrow> (bool \<Rightarrow> string set) \<Rightarrow> bool" where
  "lists_ready E V m n P C \<longleftrightarrow>
     set_at (keys_of V m) (process_list n) = Some P \<and> distinct (defaultProcessList m) \<and>
     (\<Sum>x \<in> watch_set P (defaultProcessList m). length x + 11) \<le> 8000 \<and>
     counters_ready E V m n False (C False) \<and> counters_ready E V m n True (C True)"

lemma registry_kept: "registry E V h m \<Longrightarrow> kept V m m' \<Longrightarrow> registry E V h m'"
  by (auto simp: registry_def kept_def idle_def hash_at_def)

lemma list_changed_defaults:
  assumes "list_changed V k m m'"
  shows "defaultProcessList m' = defaultProcessList m" "default_counters b m' = default_counters b m"
    "k' \<noteq> k \<Longrightarrow> set_at (keys_of V m') k' = set_at (keys_of V m) k'"
  using assms list_changed_set_at [OF assms] by (auto simp: list_changed_def)

lemma list_keys_differ [simp]:
  "process_list n \<noteq> ''AgentList''" "process_list n \<noteq> counter_key n b" "counter_key n b \<noteq> process_list n"
  "counter_key n b = counter_key n b' \<longleftrightarrow> b = b'"
  by (auto simp: counter_key_def)

subsection \<open>The server's side\<close>

abbreviation received :: "agentType \<Rightarrow> byte list \<Rightarrow> CPacket" where
  "received t ser \<equiv> packet_of (CPacket.wire (agentType_value t, ser))"

lemma requests_received:
  assumes "wire_small (cwire S)"
  shows "ptype (received t (id_request S a ram)) = agentType_value t" "payload (received t (id_request S a ram)) = id_request S a ram"
    "ptype (received t (process_list_request S)) = agentType_value t"
    "ptype (received t (counter_list_request S b)) = agentType_value t"
    "payload (received t (counter_list_request S b)) = counter_list_request S b"
    "ptype (received t (ready_message S)) = agentType_value t" "ptype (received t (started_answer S b)) = agentType_value t"
  by (simp_all add: packet_of_wire requests_fit [OF assms])

lemma requests_parsed:
  assumes "wire_ok (cwire S)"
  shows "csAgentIDRequest_parse (cwire S) (id_request S a ram) =
      Some \<lparr>idreq_token = Some a, idreq_hostIP = Some a, idreq_ramSize = Some ram\<rparr>"
    and "csCounterListRequest_parse (cwire S) (counter_list_request S b) = Some \<lparr>clreq_isMachine = Some b\<rparr>"
  using assms
  by (simp_all add: id_request_def counter_list_request_def csAgentIDRequest_roundtrip csCounterListRequest_roundtrip
      csAgentIDRequest_initialized_def csCounterListRequest_initialized_def csAgentIDRequest_empty_def
      csCounterListRequest_empty_def)

text \<open>The socket of a registered agent.\<close>

definition at_server ::
  "('s, 'j) platform \<Rightarrow> ('s, 'j) laws \<Rightarrow> (string \<Rightarrow> string option) \<Rightarrow> sid \<Rightarrow> int32 \<Rightarrow> int32 \<Rightarrow> 's server \<Rightarrow> bool" where
  "at_server E V h i a n srv \<longleftrightarrow>
     socket (agents srv i) \<noteq> 0 \<and> token (agents srv i) = a \<and> agentID (agents srv i) = n \<and>
     registry E V h (agent_store srv) \<and> (\<exists>v. h (to_string a) = Some v \<and> entry_number E v = Some n)"

lemma at_server_idle: "at_server E V h i a n srv \<Longrightarrow> idle V (agent_store srv)"
  by (simp add: at_server_def registry_def)

lemma at_server_served:
  assumes "at_server E V h i a n srv" "served i srv srv' ps" "list_changed V k (agent_store srv) (agent_store srv')"
    and "k \<noteq> ''AgentList''"
  shows "at_server E V h i a n srv'"
  using assms registry_kept [OF _ list_changed_kept [OF assms(3,4)]] by (simp add: at_server_def served_def)

lemma at_server_known:
  assumes "store_laws E V" "at_server E V h i a n srv"
  shows "GetAgentID E a (agent_store srv) = Some (n, agent_store srv)"
  using assms(2) by (auto simp: at_server_def intro: GetAgentID_known [OF assms(1)])

lemma server_identifies:
  assumes "platform_laws E V" "registry E V h (agent_store srv)" "card (dom h) < 2 ^ 31" "socket (agents srv i) \<noteq> 0"
    and "cwire S = RedisManager.wire E" "GetAgentSocketByToken a srv = None" "agent_number E h a = Some n"
  obtains h' srv' where
    "AgentSocket.PacketHandling E clock i b (received AgentIDRequest (id_request S a ram)) srv = Some srv'"
    "sent_to_agent i srv srv' = [CPacket.wire (agentType_value AgentIDResponse, id_reply E n False)]"
    "at_server E V h' i a n srv'" "list_changed V ''AgentList'' (agent_store srv) (agent_store srv')"
proof -
  let ?p = "received AgentIDRequest (id_request S a ram)"
  have wires: "wire_ok (cwire S)" "wire_small (cwire S)" using assms(1,5) by (simp_all add: platform_laws_def)
  have parse: "csAgentIDRequest_parse (RedisManager.wire E) (payload ?p) =
      Some \<lparr>idreq_token = Some a, idreq_hostIP = Some a, idreq_ramSize = Some ram\<rparr>"
    using requests_parsed(1) [OF wires(1)] assms(5) by (simp add: requests_received(2) [OF wires(2)])
  obtain n' v srv1 where s: "handle_AgentIDRequest E i ?p srv = Some srv1"
    "calls srv1 = calls srv @ [to_agent srv i (agentType_value AgentIDResponse) (id_reply E n' False)]"
    "token (agents srv1 i) = a" "agentID (agents srv1 i) = n'"
    "\<And>j. socket (agents srv1 j) = socket (agents srv j)" "entry_number E v = Some n'"
    "h (to_string a) = None \<Longrightarrow> n' = word_of_nat (card (dom h))"
    "\<And>w. h (to_string a) = Some w \<Longrightarrow> entry_number E w = Some n'"
    "registry E V (h(to_string a \<mapsto> v)) (agent_store srv1)"
    "wrote V (agent_store srv) ''AgentList'' (Some (Hash (h(to_string a \<mapsto> v)))) (agent_store srv1)"
    "webs srv1 = webs srv"
    by (rule id_request_done [OF assms(1-3) parse _ assms(6), of i]) (simp, rule that)
  have n: "n' = n" using assms(7) s(7,8) by (auto simp: agent_number_def split: option.splits)
  let ?srv = "AgentSocket.free_packet i b srv1"
  have "AgentSocket.PacketHandling E clock i b ?p srv = Some ?srv"
    using assms(4) s(1) by (simp add: AgentSocket.PacketHandling_def AgentSocket.handle_packet_def requests_received(1) [OF wires(2)])
  moreover have "sent_to_agent i srv ?srv = [CPacket.wire (agentType_value AgentIDResponse, id_reply E n False)]"
    using s(2) n by (simp add: sent_to_agent_def to_agent_def AgentSocket.free_packet_def agent_update_def)
  moreover have "at_server E V (h(to_string a \<mapsto> v)) i a n ?srv"
    using s(3-6,9) n assms(4) by (auto simp: at_server_def AgentSocket.free_packet_def agent_update_def agent_store_def)
  moreover have "list_changed V ''AgentList'' (agent_store srv) (agent_store ?srv)"
    using wrote_list_changed [OF s(10)] by simp
  ultimately show thesis by (rule that)
qed

text \<open>The answers to the three requests for a list.\<close>

lemma server_process_list:
  assumes "platform_laws E V" "at_server E V h i a n srv" "cwire S = RedisManager.wire E"
    and "lists_ready E V (agent_store srv) n P C"
  obtains xs srv' where
    "AgentSocket.PacketHandling E clock i b (received ProcessListRequest (process_list_request S)) srv = Some srv'"
    "sent_to_agent i srv srv' = [CPacket.wire (agentType_value ProcessListResponse, process_list_reply E xs)]"
    "set xs = watch_set P (defaultProcessList (agent_store srv))"
    "list_changed V (process_list n) (agent_store srv) (agent_store srv')" "at_server E V h i a n srv'"
    "length (process_list_reply E xs) \<le> BUFSIZE"
proof -
  have rec: "ptype (received ProcessListRequest (process_list_request S)) = agentType_value ProcessListRequest"
    using assms(1,3) by (simp add: requests_received platform_laws_def)
  have id: "socket (agents srv i) \<noteq> 0" "agentID (agents srv i) = n" using assms(2) by (simp_all add: at_server_def)
  note step = server_processes [OF assms(1) id(1) at_server_idle [OF assms(2)] rec, unfolded id(2)]
  obtain xs srv' where s: "AgentSocket.PacketHandling E clock i b (received ProcessListRequest (process_list_request S)) srv = Some srv'"
    "served i srv srv' [(agentType_value ProcessListResponse, process_list_reply E xs)]"
    "set xs = watch_set P (defaultProcessList (agent_store srv))"
    "list_changed V (process_list n) (agent_store srv) (agent_store srv')"
    "length (process_list_reply E xs) \<le> BUFSIZE"
    by (rule step) (use assms(4) in \<open>auto simp: lists_ready_def\<close>)
  show thesis
    by (rule that [OF s(1) _ s(3,4) at_server_served [OF assms(2) s(2,4)] s(5)]) (simp_all add: served_sent [OF s(2)])
qed

lemma server_counter_list:
  assumes "platform_laws E V" "at_server E V h i a n srv" "cwire S = RedisManager.wire E"
    and "counters_ready E V (agent_store srv) n mach A"
  obtains xs srv' where
    "AgentSocket.PacketHandling E clock i b (received CounterListRequest (counter_list_request S mach)) srv = Some srv'"
    "sent_to_agent i srv srv' = [CPacket.wire (agentType_value CounterListResponse, counter_list_reply E mach xs)]"
    "set xs = counter_path_of E ` watch_set A (default_counters mach (agent_store srv))"
    "list_changed V (counter_key n mach) (agent_store srv) (agent_store srv')" "at_server E V h i a n srv'"
    "length (counter_list_reply E mach xs) \<le> BUFSIZE"
proof -
  have wires: "wire_ok (cwire S)" "wire_small (cwire S)" using assms(1,3) by (simp_all add: platform_laws_def)
  note rec = requests_received(4,5) [OF wires(2)]
  have id: "socket (agents srv i) \<noteq> 0" "agentID (agents srv i) = n" using assms(2) by (simp_all add: at_server_def)
  note step = server_counters [OF assms(1) id(1) at_server_idle [OF assms(2)] rec(1), unfolded id(2) rec(2),
    OF requests_parsed(2) [OF wires(1), unfolded assms(3)]]
  obtain xs srv' where s: "AgentSocket.PacketHandling E clock i b (received CounterListRequest (counter_list_request S mach)) srv = Some srv'"
    "served i srv srv' [(agentType_value CounterListResponse, counter_list_reply E mach xs)]"
    "set xs = counter_path_of E ` watch_set A (default_counters mach (agent_store srv))"
    "list_changed V (counter_key n mach) (agent_store srv) (agent_store srv')"
    "length (counter_list_reply E mach xs) \<le> BUFSIZE"
    by (rule step) (use assms(4) in \<open>unfold counters_ready_def, blast+\<close>)
  show thesis
    by (rule that [OF s(1) _ s(3,4) at_server_served [OF assms(2) s(2,4)] s(5)]) (simp_all add: served_sent [OF s(2)])
qed

text \<open>Answering one request leaves the other lists ready.\<close>

lemma ready_changed:
  assumes "list_changed V k m m'"
  shows "k \<noteq> counter_key n b \<Longrightarrow> counters_ready E V m n b A \<Longrightarrow> counters_ready E V m' n b A"
    and "k = ''AgentList'' \<Longrightarrow> lists_ready E V m n P C \<Longrightarrow> lists_ready E V m' n P C"
proof -
  have counters: "counters_ready E V m' n b A" if "k \<noteq> counter_key n b" "counters_ready E V m n b A" for b A
    using that(2) unfolding counters_ready_def
    by (metis list_changed_defaults(2) [OF assms] list_changed_defaults(3) [OF assms that(1) [symmetric]])
  then show "k \<noteq> counter_key n b \<Longrightarrow> counters_ready E V m n b A \<Longrightarrow> counters_ready E V m' n b A" .
  assume "k = ''AgentList''" "lists_ready E V m n P C"
  with counters list_changed_defaults(1) [OF assms] list_changed_defaults(3) [OF assms, of "process_list n"]
  show "lists_ready E V m' n P C" by (simp add: lists_ready_def counter_key_other [symmetric] list_keys_differ(1) [symmetric])
qed

lemma server_lists:
  assumes "platform_laws E V" "at_server E V h i a n srv1" "cwire S = RedisManager.wire E"
    and "lists_ready E V (agent_store srv1) n P C"
  obtains srv2 srv3 srv4 xs ys zs where
    "AgentSocket.PacketHandling E clock i b2 (received ProcessListRequest (process_list_request S)) srv1 = Some srv2"
    "sent_to_agent i srv1 srv2 = [CPacket.wire (agentType_value ProcessListResponse, process_list_reply E xs)]"
    "set xs = watch_set P (defaultProcessList (agent_store srv1))"
    "AgentSocket.PacketHandling E clock i b3 (received CounterListRequest (counter_list_request S False)) srv2 = Some srv3"
    "sent_to_agent i srv2 srv3 = [CPacket.wire (agentType_value CounterListResponse, counter_list_reply E False ys)]"
    "set ys = counter_path_of E ` watch_set (C False) (default_counters False (agent_store srv1))"
    "AgentSocket.PacketHandling E clock i b4 (received CounterListRequest (counter_list_request S True)) srv3 = Some srv4"
    "sent_to_agent i srv3 srv4 = [CPacket.wire (agentType_value CounterListResponse, counter_list_reply E True zs)]"
    "set zs = counter_path_of E ` watch_set (C True) (default_counters True (agent_store srv1))"
    "at_server E V h i a n srv4" "length (process_list_reply E xs) \<le> BUFSIZE"
    "length (counter_list_reply E False ys) \<le> BUFSIZE" "length (counter_list_reply E True zs) \<le> BUFSIZE"
proof -
  obtain xs srv2 where s2: "AgentSocket.PacketHandling E clock i b2 (received ProcessListRequest (process_list_request S)) srv1 = Some srv2"
    "sent_to_agent i srv1 srv2 = [CPacket.wire (agentType_value ProcessListResponse, process_list_reply E xs)]"
    "set xs = watch_set P (defaultProcessList (agent_store srv1))"
    "list_changed V (process_list n) (agent_store srv1) (agent_store srv2)" "at_server E V h i a n srv2"
    "length (process_list_reply E xs) \<le> BUFSIZE"
    by (rule server_process_list [OF assms(1-4)])
  have r2: "counters_ready E V (agent_store srv2) n False (C False)" "counters_ready E V (agent_store srv2) n True (C True)"
    using assms(4) ready_changed(1) [OF s2(4) list_keys_differ(2)] by (simp_all add: lists_ready_def)
  note d2 = list_changed_defaults(2) [OF s2(4)]
  obtain ys srv3 where s3: "AgentSocket.PacketHandling E clock i b3 (received CounterListRequest (counter_list_request S False)) srv2 = Some srv3"
    "sent_to_agent i srv2 srv3 = [CPacket.wire (agentType_value CounterListResponse, counter_list_reply E False ys)]"
    "set ys = counter_path_of E ` watch_set (C False) (default_counters False (agent_store srv1))"
    "list_changed V (counter_key n False) (agent_store srv2) (agent_store srv3)" "at_server E V h i a n srv3"
    "length (counter_list_reply E False ys) \<le> BUFSIZE"
    by (rule server_counter_list [OF assms(1) s2(5) assms(3) r2(1), unfolded d2])
  have r3: "counters_ready E V (agent_store srv3) n True (C True)"
    by (rule ready_changed(1) [OF s3(4) _ r2(2)]) simp
  note d3 = list_changed_defaults(2) [OF s3(4)]
  obtain zs srv4 where s4: "AgentSocket.PacketHandling E clock i b4 (received CounterListRequest (counter_list_request S True)) srv3 = Some srv4"
    "sent_to_agent i srv3 srv4 = [CPacket.wire (agentType_value CounterListResponse, counter_list_reply E True zs)]"
    "set zs = counter_path_of E ` watch_set (C True) (default_counters True (agent_store srv1))"
    "list_changed V (counter_key n True) (agent_store srv3) (agent_store srv4)" "at_server E V h i a n srv4"
    "length (counter_list_reply E True zs) \<le> BUFSIZE"
    by (rule server_counter_list [OF assms(1) s3(5) assms(3) r3, unfolded d3 d2])
  show thesis
    by (rule that [OF s2(1-3) s3(1-3) s4(1-3,5) s2(6) s3(6) s4(6)])
qed

text \<open>The ready agent is told to start both records; its answers are only taken note of.\<close>

lemma server_starts:
  assumes "platform_laws E V" "at_server E V h i a n srv" "cwire S = RedisManager.wire E"
  obtains h' srv' where "AgentSocket.PacketHandling E clock i b (received AgentReady (ready_message S)) srv = Some srv'"
    "sent_to_agent i srv srv' = [CPacket.wire (agentType_value agentType.StartRecord, start_message E True),
       CPacket.wire (agentType_value agentType.StartRecord, start_message E False)]"
    "at_server E V h' i a n srv'"
proof -
  have rec: "ptype (received AgentReady (ready_message S)) = agentType_value AgentReady"
    using assms(1,3) by (simp add: requests_received platform_laws_def)
  obtain w where w: "h (to_string a) = Some w" "entry_number E w = Some n"
    using assms(2) by (auto simp: at_server_def)
  have id: "socket (agents srv i) \<noteq> 0" "registry E V h (agent_store srv)" "token (agents srv i) = a"
    using assms(2) by (simp_all add: at_server_def)
  obtain v srv' where s: "AgentSocket.PacketHandling E clock i b (received AgentReady (ready_message S)) srv = Some srv'"
    "served i srv srv' [(agentType_value agentType.StartRecord, start_message E True),
       (agentType_value agentType.StartRecord, start_message E False)]"
    "entry_number E v = entry_number E w" "registry E V (h(to_string a \<mapsto> v)) (agent_store srv')"
    by (rule server_ready [OF assms(1) id(1,2) rec, unfolded id(3), OF w(1)])
  have at: "at_server E V (h(to_string a \<mapsto> v)) i a n srv'"
    using assms(2) s(2-4) w(2) by (simp add: at_server_def served_def)
  show thesis by (rule that [OF s(1) _ at]) (simp_all add: served_sent [OF s(2)])
qed

lemma server_notes:
  assumes "wire_small (cwire S)" "at_server E V h i a n srv"
  obtains srv' where "AgentSocket.PacketHandling E clock i b (received RecordResponse (started_answer S mach)) srv = Some srv'"
    "sent_to_agent i srv srv' = []" "at_server E V h i a n srv'"
proof -
  have soc: "socket (agents srv i) \<noteq> 0" using assms(2) by (simp add: at_server_def)
  note r = server_record_response [OF soc requests_received(7) [OF assms(1)]]
  have at: "at_server E V h i a n (AgentSocket.free_packet i b srv)"
    by (rule at_server_served [OF assms(2) r(2), where k = "[]"]) simp_all
  show thesis by (rule that [OF r(1) _ at]) (simp add: served_sent [OF r(2)])
qed

subsection \<open>The agent's side\<close>

definition online :: "'o client \<Rightarrow> bool" where
  "online c \<longleftrightarrow> socket (csocket c) \<noteq> 0 \<and> isConnect c"

lemma online_next: "online c \<Longrightarrow> io_only c0 c' \<Longrightarrow> isConnect c0 \<Longrightarrow> says c c' ps \<Longrightarrow> online c'"
  by (simp add: online_def io_only_fields says_def)

lemma replies_received:
  assumes "platform_laws E V"
  shows "ptype (received t (id_reply E n b)) = agentType_value t" "payload (received t (id_reply E n b)) = id_reply E n b"
    "ptype (received t (start_message E mach)) = agentType_value t" "payload (received t (start_message E mach)) = start_message E mach"
proof -
  have "length (id_reply E n b) \<le> BUFSIZE"
    using assms unfolding id_reply_def scAgentIDResponse_serialize_def platform_laws_def
    by (intro wire_smallD) (simp_all add: scAgentIDResponse_fields_def)
  then show "ptype (received t (id_reply E n b)) = agentType_value t" "payload (received t (id_reply E n b)) = id_reply E n b"
    by (simp_all add: packet_of_wire)
qed (simp_all add: packet_of_wire start_message_fits [OF assms])

text \<open>The agent takes the number and the three lists.\<close>

lemma client_registers:
  assumes "platform_laws E V" "cwire S = RedisManager.wire E" "online c1"
    and "length (process_list_reply E xs) \<le> BUFSIZE" "length (counter_list_reply E False ys) \<le> BUFSIZE"
    "length (counter_list_reply E True zs) \<le> BUFSIZE"
  obtains c2 c3 c4 c5 where
    "PacketHandling S b1 (received AgentIDResponse (id_reply E n False)) c1 = Some c2"
    "sent_to_server c1 c2 = [CPacket.wire (agentType_value ProcessListRequest, process_list_request S)]"
    "PacketHandling S b2 (received ProcessListResponse (process_list_reply E xs)) c2 = Some c3"
    "sent_to_server c2 c3 = [CPacket.wire (agentType_value CounterListRequest, counter_list_request S False)]"
    "PacketHandling S b3 (received CounterListResponse (counter_list_reply E False ys)) c3 = Some c4"
    "sent_to_server c3 c4 = [CPacket.wire (agentType_value CounterListRequest, counter_list_request S True)]"
    "PacketHandling S b4 (received CounterListResponse (counter_list_reply E True zs)) c4 = Some c5"
    "sent_to_server c4 c5 = [CPacket.wire (agentType_value AgentReady, ready_message S)]"
    "online c5" "app_agentID c5 = n" "set (checkProcessList c5) = set (checkProcessList c1) \<union> set xs"
    "set (counterList c5) = set (counterList c1) \<union> set ys"
    "set (machineCounterList c5) = set (machineCounterList c1) \<union> set zs"
    "isMachineRecordEnd c5 = isMachineRecordEnd c1" "isProcessRecordEnd c5 = isProcessRecordEnd c1"
    "recorders c5 = recorders c1"
proof -
  have wires: "wire_ok (cwire S)" "wire_small (cwire S)" using assms(1,2) by (simp_all add: platform_laws_def)
  have on: "socket (csocket c) \<noteq> 0" "isConnect c" if "online c" for c using that by (simp_all add: online_def)
  obtain c2 where c2: "PacketHandling S b1 (received AgentIDResponse (id_reply E n False)) c1 = Some c2"
    "io_only (c1\<lparr>app_agentID := n\<rparr>) c2" "says c1 c2 [(agentType_value ProcessListRequest, process_list_request S)]"
    by (rule client_numbered [OF on [OF assms(3)] wires replies_received(1) [OF assms(1)] assms(2) replies_received(2) [OF assms(1)]])
  have o2: "online c2" by (rule online_next [OF assms(3) c2(2) _ c2(3)]) (simp add: on [OF assms(3)])
  obtain c3 xs' where c3: "PacketHandling S b2 (received ProcessListResponse (process_list_reply E xs)) c2 = Some c3"
    "io_only (c2\<lparr>checkProcessList := xs'\<rparr>) c3" "set xs' = set (checkProcessList c2) \<union> set xs"
    "says c2 c3 [(agentType_value CounterListRequest, counter_list_request S False)]"
    by (rule client_processes [OF on [OF o2] wires packet_of_wire(1) [OF assms(4)] assms(2) packet_of_wire(2) [OF assms(4)]])
  have o3: "online c3" by (rule online_next [OF o2 c3(2) _ c3(4)]) (simp add: on [OF o2])
  obtain c4 ys' where c4: "PacketHandling S b3 (received CounterListResponse (counter_list_reply E False ys)) c3 = Some c4"
    "io_only (c3\<lparr>counterList := ys'\<rparr>) c4" "set ys' = set (counterList c3) \<union> set ys"
    "says c3 c4 [(agentType_value CounterListRequest, counter_list_request S True)]"
    by (rule client_counters [OF on [OF o3] wires packet_of_wire(1) [OF assms(5)] assms(2) packet_of_wire(2) [OF assms(5)]])
  have o4: "online c4" by (rule online_next [OF o3 c4(2) _ c4(4)]) (simp add: on [OF o3])
  obtain c5 zs' where c5: "PacketHandling S b4 (received CounterListResponse (counter_list_reply E True zs)) c4 = Some c5"
    "io_only (c4\<lparr>machineCounterList := zs'\<rparr>) c5" "set zs' = set (machineCounterList c4) \<union> set zs"
    "says c4 c5 [(agentType_value AgentReady, ready_message S)]"
    by (rule client_machine_counters [OF on [OF o4] wires packet_of_wire(1) [OF assms(6)] assms(2) packet_of_wire(2) [OF assms(6)]])
  have o5: "online c5" by (rule online_next [OF o4 c5(2) _ c5(4)]) (simp add: on [OF o4])
  note fields = io_only_fields [OF c2(2)] io_only_fields [OF c3(2)] io_only_fields [OF c4(2)] io_only_fields [OF c5(2)]
  note sent = says_sent [OF c2(3)] says_sent [OF c3(4)] says_sent [OF c4(4)] says_sent [OF c5(4)]
  show thesis
    by (rule that [OF c2(1) _ c3(1) _ c4(1) _ c5(1) _ o5]) (simp_all add: fields sent c3(3) c4(3) c5(3))
qed

lemma client_records:
  assumes "platform_laws E V" "cwire S = RedisManager.wire E" "online c" "record_end mach c"
  obtains c' where "PacketHandling S b (received agentType.StartRecord (start_message E mach)) c = Some c'"
    "sent_to_server c c' = [CPacket.wire (agentType_value RecordResponse, started_answer S mach)]"
    "online c'" "io_only (with_recorder mach c) c'"
proof -
  have wires: "wire_ok (cwire S)" "wire_small (cwire S)" using assms(1,2) by (simp_all add: platform_laws_def)
  have on: "socket (csocket c) \<noteq> 0" "isConnect c" using assms(3) by (simp_all add: online_def)
  obtain c' where c': "PacketHandling S b (received agentType.StartRecord (start_message E mach)) c = Some c'"
    "io_only (with_recorder mach c) c'" "says c c' [(agentType_value RecordResponse, started_answer S mach)]"
    by (rule client_starts [OF on wires replies_received(3) [OF assms(1)] assms(2) replies_received(4) [OF assms(1)] assms(4)])
  have "online c'" by (rule online_next [OF assms(3) c'(2) _ c'(3)]) (simp add: on with_recorder_def)
  with c' show thesis by (intro that) (simp_all add: says_sent [OF c'(3)])
qed

text \<open>Both records start, whichever side is faster in the end.\<close>

definition recording :: "'o client \<Rightarrow> 'o client \<Rightarrow> bool" where
  "recording c c' \<longleftrightarrow>
     \<not> isMachineRecordEnd c' \<and> \<not> isProcessRecordEnd c' \<and>
     recorders c' = recorders c @ [(True, Delayed ready_args), (False, Delayed ready_args)] \<and>
     app_agentID c' = app_agentID c \<and> checkProcessList c' = checkProcessList c \<and>
     counterList c' = counterList c \<and> machineCounterList c' = machineCounterList c"

lemma both_recorders:
  assumes "io_only (with_recorder True c) c1" "io_only (with_recorder False c1) c2"
  shows "recording c c2"
  using io_only_fields [OF assms(1)] io_only_fields [OF assms(2)]
  by (simp add: recording_def with_recorder_def)

lemma recording_starts:
  assumes "platform_laws E V" "at_server E V h i a n srv" "cwire S = RedisManager.wire E" "online c"
    and "isMachineRecordEnd c" "isProcessRecordEnd c"
  obtains srv' c' where
    "talk E S clock i block first 5 srv c [] [CPacket.wire (agentType_value agentType.StartRecord, start_message E True),
       CPacket.wire (agentType_value agentType.StartRecord, start_message E False)] = Some (srv', c')"
    "at_server E V h i a n srv'" "recording c c'"
proof -
  have small: "wire_small (cwire S)" using assms(1,3) by (simp add: platform_laws_def)
  have end1: "record_end True c" using assms(5) by (simp add: record_end_def)
  obtain c1 where c1: "PacketHandling S (block 4) (received agentType.StartRecord (start_message E True)) c = Some c1"
    "sent_to_server c c1 = [CPacket.wire (agentType_value RecordResponse, started_answer S True)]"
    "online c1" "io_only (with_recorder True c) c1"
    by (rule client_records [OF assms(1,3,4) end1])
  have end2: "record_end False c1"
    using io_only_fields [OF c1(4)] assms(6) by (simp add: record_end_def with_recorder_def)
  define k :: nat where "k = (if first 3 then 2 else 3)"
  obtain c2 where c2: "PacketHandling S (block k) (received agentType.StartRecord (start_message E False)) c1 = Some c2"
    "sent_to_server c1 c2 = [CPacket.wire (agentType_value RecordResponse, started_answer S False)]"
    "online c2" "io_only (with_recorder False c1) c2"
    by (rule client_records [OF assms(1,3) c1(3) end2])
  obtain srv1 where s1: "AgentSocket.PacketHandling E clock i (block (5 - k)) (received RecordResponse (started_answer S True)) srv = Some srv1"
    "sent_to_agent i srv srv1 = []" "at_server E V h i a n srv1"
    by (rule server_notes [OF small assms(2)])
  obtain srv2 where s2: "AgentSocket.PacketHandling E clock i (block 1) (received RecordResponse (started_answer S False)) srv1 = Some srv2"
    "sent_to_agent i srv1 srv2 = []" "at_server E V h i a n srv2"
    by (rule server_notes [OF small s1(3)])
  have "talk E S clock i block first 5 srv c [] [CPacket.wire (agentType_value agentType.StartRecord, start_message E True),
       CPacket.wire (agentType_value agentType.StartRecord, start_message E False)] = Some (srv2, c2)"
    using c1(1,2) c2(1,2) s1(1,2) s2(1,2) by (simp add: k_def eval_nat_numeral split: if_splits)
  then show thesis by (rule that [OF _ s2(3) both_recorders [OF c1(4) c2(4)]])
qed

end
