(* ===== verification/SessionProperties.thy ===== *)
theory SessionProperties imports SessionTalk DemoClient DemoServer begin

text \<open>
  The two programs together: from the connection of an agent to the start of its recorders.
\<close>

lemma talk_up:
  assumes "AgentSocket.PacketHandling E clock i (block k) (packet_of u) srv = Some srv'" "sent_to_agent i srv srv' = ds"
    and "fuel = Suc k"
  shows "talk E S clock i block first fuel srv c [u] [] = talk E S clock i block first k srv' c [] ds"
  using assms by simp

lemma talk_down:
  assumes "AgentClientSocket.PacketHandling S (block k) (packet_of d) c = Some c'" "sent_to_server c c' = us"
    and "fuel = Suc k"
  shows "talk E S clock i block first fuel srv c [] [d] = talk E S clock i block first k srv c' us []"
  using assms by simp

lemma session_connects:
  assumes "host_address S (sys c) = Some a" "wire_small (cwire S)" "socket (csocket c) \<noteq> 0"
  obtains c' where "session E S clock i block first fuel srv c =
      talk E S clock i block first fuel srv c' [CPacket.wire (agentType_value AgentIDRequest, id_request S a (app_ramSize c))] []"
    "io_only (c\<lparr>isConnect := True\<rparr>) c'" "online c'"
proof -
  obtain c' where c': "ConnProcess S False c = Some c'" "io_only (c\<lparr>isConnect := True\<rparr>) c'"
    "ccalls c' = ccalls c @ [SockCall (WSASend (socket (csocket c))
       (CPacket.wire (agentType_value AgentIDRequest, id_request S a (app_ramSize c)))),
       SockCall (WSARecv (socket (csocket c)) 0 (int HEADER_SIZE))]"
    "socket (csocket c') = socket (csocket c)"
    by (rule client_connects [OF assms(1,2)])
  show thesis
    by (rule that [OF _ c'(2)])
      (use c' assms(3) in \<open>simp_all add: session_def sent_to_server_def online_def io_only_fields\<close>)
qed

text \<open>From the number to the start of the records.\<close>

lemma lists_exchanged:
  assumes "platform_laws E V" "cwire S = RedisManager.wire E" "at_server E V h i a n srv1"
    and "lists_ready E V (agent_store srv1) n P C" "online c1"
  obtains h' srv5 c5 where
    "talk E S clock i block first 13 srv1 c1 [] [CPacket.wire (agentType_value AgentIDResponse, id_reply E n False)] =
     talk E S clock i block first 5 srv5 c5 [] [CPacket.wire (agentType_value agentType.StartRecord, start_message E True),
       CPacket.wire (agentType_value agentType.StartRecord, start_message E False)]"
    "at_server E V h' i a n srv5" "online c5" "app_agentID c5 = n"
    "set (checkProcessList c5) = set (checkProcessList c1) \<union> watch_set P (defaultProcessList (agent_store srv1))"
    "set (counterList c5) = set (counterList c1) \<union> counter_path_of E ` watch_set (C False) (default_counters False (agent_store srv1))"
    "set (machineCounterList c5) = set (machineCounterList c1) \<union>
       counter_path_of E ` watch_set (C True) (default_counters True (agent_store srv1))"
    "isMachineRecordEnd c5 = isMachineRecordEnd c1" "isProcessRecordEnd c5 = isProcessRecordEnd c1" "recorders c5 = recorders c1"
proof (rule server_lists [OF assms(1,3,2,4), of clock "block 11" "block 9" "block 7"])
  let ?talk = "talk E S clock i block first"
  let ?starts = "[CPacket.wire (agentType_value agentType.StartRecord, start_message E True),
       CPacket.wire (agentType_value agentType.StartRecord, start_message E False)]"
  fix srv2 srv3 srv4 xs ys zs
  assume s: "AgentSocket.PacketHandling E clock i (block 11) (received ProcessListRequest (process_list_request S)) srv1 = Some srv2"
    "sent_to_agent i srv1 srv2 = [CPacket.wire (agentType_value ProcessListResponse, process_list_reply E xs)]"
    "AgentSocket.PacketHandling E clock i (block 9) (received CounterListRequest (counter_list_request S False)) srv2 = Some srv3"
    "sent_to_agent i srv2 srv3 = [CPacket.wire (agentType_value CounterListResponse, counter_list_reply E False ys)]"
    "AgentSocket.PacketHandling E clock i (block 7) (received CounterListRequest (counter_list_request S True)) srv3 = Some srv4"
    "sent_to_agent i srv3 srv4 = [CPacket.wire (agentType_value CounterListResponse, counter_list_reply E True zs)]"
    and at: "at_server E V h i a n srv4"
    and fit: "length (process_list_reply E xs) \<le> BUFSIZE" "length (counter_list_reply E False ys) \<le> BUFSIZE"
      "length (counter_list_reply E True zs) \<le> BUFSIZE"
    and sets: "set xs = watch_set P (defaultProcessList (agent_store srv1))"
      "set ys = counter_path_of E ` watch_set (C False) (default_counters False (agent_store srv1))"
      "set zs = counter_path_of E ` watch_set (C True) (default_counters True (agent_store srv1))"
  obtain h' srv5 where s5: "AgentSocket.PacketHandling E clock i (block 5) (received AgentReady (ready_message S)) srv4 = Some srv5"
    "sent_to_agent i srv4 srv5 = ?starts" "at_server E V h' i a n srv5"
    by (rule server_starts [OF assms(1) at assms(2)])
  show thesis
  proof (rule client_registers [OF assms(1,2,5) fit, of "block 12" n "block 10" "block 8" "block 6"])
    fix c2 c3 c4 c5
    assume c: "PacketHandling S (block 12) (received AgentIDResponse (id_reply E n False)) c1 = Some c2"
      "sent_to_server c1 c2 = [CPacket.wire (agentType_value ProcessListRequest, process_list_request S)]"
      "PacketHandling S (block 10) (received ProcessListResponse (process_list_reply E xs)) c2 = Some c3"
      "sent_to_server c2 c3 = [CPacket.wire (agentType_value CounterListRequest, counter_list_request S False)]"
      "PacketHandling S (block 8) (received CounterListResponse (counter_list_reply E False ys)) c3 = Some c4"
      "sent_to_server c3 c4 = [CPacket.wire (agentType_value CounterListRequest, counter_list_request S True)]"
      "PacketHandling S (block 6) (received CounterListResponse (counter_list_reply E True zs)) c4 = Some c5"
      "sent_to_server c4 c5 = [CPacket.wire (agentType_value AgentReady, ready_message S)]"
      and c5: "online c5" "app_agentID c5 = n" "set (checkProcessList c5) = set (checkProcessList c1) \<union> set xs"
        "set (counterList c5) = set (counterList c1) \<union> set ys"
        "set (machineCounterList c5) = set (machineCounterList c1) \<union> set zs"
        "isMachineRecordEnd c5 = isMachineRecordEnd c1" "isProcessRecordEnd c5 = isProcessRecordEnd c1"
        "recorders c5 = recorders c1"
    have "?talk 13 srv1 c1 [] [CPacket.wire (agentType_value AgentIDResponse, id_reply E n False)] = ?talk 5 srv5 c5 [] ?starts"
      by (simp add: talk_down [where k = 12 and block = block, OF c(1,2)] talk_up [where k = 11 and block = block, OF s(1,2)] talk_down [where k = 10 and block = block, OF c(3,4)] talk_up [where k = 9 and block = block, OF s(3,4)]
          talk_down [where k = 8 and block = block, OF c(5,6)] talk_up [where k = 7 and block = block, OF s(5,6)] talk_down [where k = 6 and block = block, OF c(7,8)] talk_up [where k = 5 and block = block, OF s5(1,2)])
    then show thesis by (rule that [OF _ s5(3) c5(1,2)]) (simp_all only: c5 sets)
  qed
qed

text \<open>
  C5. A connecting agent and the server agree: on a connection that delivers the packets of each side in
  order, whichever side is faster, the agent registers within thirteen packets. The number it was told is
  the one its socket and the store have for its token; it watches, besides what it watched before, exactly
  the processes and the counters of the machine and of the processes that the store has for that number, or
  the defaults where the store has none; and its two recorders are started once.
\<close>

theorem session_established:
  assumes "platform_laws E V" and "server_inv E V h srv" and "card (dom h) < 2 ^ 31"
    and "socket (agents srv i) \<noteq> 0" and "\<forall>j \<in> set (agentList srv). token (agents srv j) \<noteq> a"
    and "agent_number E h a = Some n" and "lists_ready E V (agent_store srv) n P C"
    and "cwire S = RedisManager.wire E" and "host_address S (sys c) = Some a" and "socket (csocket c) \<noteq> 0"
    and "isMachineRecordEnd c" and "isProcessRecordEnd c"
  shows "\<exists>srv' c'. session E S clock i block first 14 srv c = Some (srv', c') \<and>
    token (agents srv' i) = a \<and> agentID (agents srv' i) = n \<and> app_agentID c' = n \<and>
    GetAgentID E a (agent_store srv') = Some (n, agent_store srv') \<and>
    set (checkProcessList c') = set (checkProcessList c) \<union> watch_set P (defaultProcessList (agentRedis srv)) \<and>
    set (counterList c') = set (counterList c) \<union>
      counter_path_of E ` watch_set (C False) (defaultCounterList (agentRedis srv)) \<and>
    set (machineCounterList c') = set (machineCounterList c) \<union>
      counter_path_of E ` watch_set (C True) (defaultMachineCounterList (agentRedis srv)) \<and>
    recorders c' = recorders c @ [(True, Delayed ready_args), (False, Delayed ready_args)] \<and>
    \<not> isMachineRecordEnd c' \<and> \<not> isProcessRecordEnd c'"
proof -
  let ?talk = "talk E S clock i block first"
  have small: "wire_small (cwire S)" and laws: "store_laws E V" using assms(1,8) by (simp_all add: platform_laws_def)
  have reg: "registry E V h (agent_store srv)" using assms(2) by (simp add: server_inv_def)
  have new: "GetAgentSocketByToken a srv = None" using assms(5) by (simp add: by_token_None)
  obtain c1 where c1: "session E S clock i block first 14 srv c =
      ?talk 14 srv c1 [CPacket.wire (agentType_value AgentIDRequest, id_request S a (app_ramSize c))] []"
    "io_only (c\<lparr>isConnect := True\<rparr>) c1" "online c1"
    by (rule session_connects [OF assms(9) small assms(10)])
  obtain h1 srv1 where s1: "AgentSocket.PacketHandling E clock i (block 13) (received AgentIDRequest (id_request S a (app_ramSize c))) srv = Some srv1"
    "sent_to_agent i srv srv1 = [CPacket.wire (agentType_value AgentIDResponse, id_reply E n False)]"
    "at_server E V h1 i a n srv1" "list_changed V ''AgentList'' (agent_store srv) (agent_store srv1)"
    by (rule server_identifies [OF assms(1) reg assms(3,4,8) new assms(6)])
  note defaults = list_changed_defaults(1,2) [OF s1(4)]
  obtain h5 srv5 c5 where five: "?talk 13 srv1 c1 [] [CPacket.wire (agentType_value AgentIDResponse, id_reply E n False)] =
      ?talk 5 srv5 c5 [] [CPacket.wire (agentType_value agentType.StartRecord, start_message E True),
        CPacket.wire (agentType_value agentType.StartRecord, start_message E False)]"
    "at_server E V h5 i a n srv5" "online c5" "app_agentID c5 = n"
    and sets: "set (checkProcessList c5) = set (checkProcessList c1) \<union> watch_set P (defaultProcessList (agent_store srv))"
      "set (counterList c5) = set (counterList c1) \<union> counter_path_of E ` watch_set (C False) (default_counters False (agent_store srv))"
      "set (machineCounterList c5) = set (machineCounterList c1) \<union>
         counter_path_of E ` watch_set (C True) (default_counters True (agent_store srv))"
    and same: "isMachineRecordEnd c5 = isMachineRecordEnd c1" "isProcessRecordEnd c5 = isProcessRecordEnd c1" "recorders c5 = recorders c1"
    by (rule lists_exchanged [OF assms(1,8) s1(3) ready_changed(2) [OF s1(4) refl assms(7)] c1(3), unfolded defaults])
  note old = io_only_fields [OF c1(2)]
  have ends: "isMachineRecordEnd c5" "isProcessRecordEnd c5" using same old assms(11,12) by simp_all
  obtain srv' c' where fin: "?talk 5 srv5 c5 [] [CPacket.wire (agentType_value agentType.StartRecord, start_message E True),
      CPacket.wire (agentType_value agentType.StartRecord, start_message E False)] = Some (srv', c')"
    "at_server E V h5 i a n srv'" "recording c5 c'"
    by (rule recording_starts [OF assms(1) five(2) assms(8) five(3) ends])
  have "session E S clock i block first 14 srv c = Some (srv', c')"
    by (simp add: c1(1) talk_up [where k = 13 and block = block, OF s1(1,2)] five(1) fin(1))
  with at_server_known [OF laws fin(2)] fin(2,3) show ?thesis
    by (intro exI [of _ srv'] exI [of _ c'])
      (simp add: at_server_def recording_def five(4) sets same old agent_store_def)
qed

text \<open>The agent and the server of the demos, with one default of each kind.\<close>

definition demo_counter :: string where
  "demo_counter = members_text [(''counter'', ''s% Processor Time''), (''name'', ''sCPUTime'')]"

lemma demo_text_parse:
  "StrToJson demo_E demo_counter = JObj [(''counter'', ''s% Processor Time''), (''name'', ''sCPUTime'')]"
  by (simp add: StrToJson_def demo_E_def demo_counter_def members_parse_text del: members_text.simps)

lemma demo_counter_ok: "counter_text_ok demo_E demo_counter" "counter_path_of demo_E demo_counter = ''% Processor Time''"
  by (simp_all add: counter_text_ok_def counter_path_of_def demo_text_parse)
    (simp_all add: json_string_at_def demo_E_def demo_at_def scalar_parse_def)

definition with_defaults :: "demo server \<Rightarrow> demo server" where
  "with_defaults srv = srv\<lparr>agentRedis := (agentRedis srv)\<lparr>defaultProcessList := [''a.exe''],
     defaultCounterList := [demo_counter], defaultMachineCounterList := [demo_counter]\<rparr>\<rparr>"

lemma with_defaults_inv: "server_inv E V h srv \<Longrightarrow> server_inv E V h (with_defaults srv)"
  by (simp add: server_inv_def with_defaults_def agrees_def registry_def idle_def agent_store_def web_store_def)

theorem session_established_witness:
  "\<exists>srv srv' c'. session demo_E demo_S 0 0 (\<lambda>_. (0, 0)) even 14 (with_defaults srv) (demo_client True) = Some (srv', c') \<and>
     agentList srv = [0] \<and> agentID (agents srv' 0) = 0 \<and> app_agentID c' = 0 \<and>
     set (checkProcessList c') = {''a.exe''} \<and> set (machineCounterList c') = {''% Processor Time''} \<and>
     recorders c' = [(True, Delayed ready_args), (False, Delayed ready_args)]"
proof -
  obtain srv0 srv where s: "server_inv demo_E demo_V Map.empty srv" "agentList srv = [0]"
    "token (agents srv 0) = -1" "socket (agents srv 0) = 1" "db srv = demo_empty"
    by (rule demo_accepted) (blast intro: that)
  let ?srv = "with_defaults srv"
  have none: "set_at (keys_of demo_V (agent_store ?srv)) k = Some {}" for k
    using s(5) by (simp add: with_defaults_def agent_store_def demo_V_def demo_empty_def set_at_def demo_view_def)
  have ready: "lists_ready demo_E demo_V (agent_store ?srv) 0 {} (\<lambda>_. {})"
    unfolding lists_ready_def counters_ready_def none
    by (simp add: watch_set_def agent_store_def with_defaults_def demo_counter_ok)
  have num: "agent_number demo_E Map.empty 7 = Some 0" by (simp add: agent_number_def)
  have host: "host_address demo_S (sys (demo_client True)) = Some 7" by (simp add: demo_S_def)
  have soc: "\<forall>j \<in> set (agentList ?srv). token (agents ?srv j) \<noteq> 7" "socket (agents ?srv 0) \<noteq> 0"
    using s by (simp_all add: with_defaults_def)
  have wires: "cwire demo_S = RedisManager.wire demo_E" by simp
  obtain srv' c' where "session demo_E demo_S 0 0 (\<lambda>_. (0, 0)) even 14 ?srv (demo_client True) = Some (srv', c')"
    "agentID (agents srv' 0) = 0" "app_agentID c' = 0"
    "set (checkProcessList c') = {''a.exe''}" "set (machineCounterList c') = {''% Processor Time''}"
    "recorders c' = [(True, Delayed ready_args), (False, Delayed ready_args)]"
    using session_established [OF demo_platform with_defaults_inv [OF s(1)] _ soc(2,1) num ready wires host,
      of 0 "\<lambda>_. (0, 0)" even]
    by (auto simp: watch_set_def with_defaults_def demo_counter_ok)
  with s(2) show ?thesis by blast
qed

end
