(* ===== verification/CounterCommands.thy ===== *)
theory CounterCommands imports SessionTalk AgentClientApp begin

text \<open>
  The counters that the web front end adds and removes: what the store makes of a request, which packets
  go to the agent, and what the agent makes of them.
\<close>

subsection \<open>The store\<close>

definition counter_name_of :: "('s, 'j) platform \<Rightarrow> string \<Rightarrow> string" where
  "counter_name_of E s = (case json_string_at E (StrToJson E s) ''name'' of None \<Rightarrow> [] | Some c \<Rightarrow> c)"

lemma counter_text_parts:
  assumes "counter_text_ok E s"
  shows "json_string_at E (StrToJson E s) ''counter'' = Some (counter_path_of E s)"
    and "json_string_at E (StrToJson E s) ''name'' = Some (counter_name_of E s)"
  using assms by (auto simp: counter_text_ok_def counter_path_of_def counter_name_of_def)

text \<open>
  An added counter is given as its text, one to be removed by its short name. \<open>told\<close> is the path that the
  agent is told, where the set changes.
\<close>

definition next_set :: "('s, 'j) platform \<Rightarrow> bool \<Rightarrow> string \<Rightarrow> string set \<Rightarrow> string set" where
  "next_set E add s A = (if add then insert s A else {y \<in> A. counter_name_of E y \<noteq> s})"

definition changed_by :: "('s, 'j) platform \<Rightarrow> bool \<Rightarrow> string set \<Rightarrow> string set \<Rightarrow> string set" where
  "changed_by E add A B = counter_path_of E ` (if add then B - A else A - B)"

lemma SetCounterName_done:
  assumes "set_laws E V" "idle V m" "set_at (keys_of V m) (counter_key n mach) = Some A"
    and "counter_text_ok E s" "StrToJson E s \<noteq> json_NULL E"
  obtains m' where "SetCounterName E n s mach m = Some (if s \<in> A then None else Some (counter_path_of E s), m')"
    "idle V m'" "set_at (keys_of V m') (counter_key n mach) = Some (insert s A)"
proof -
  let ?m = "insert_name (counter_path_of E s) (counter_name_of E s) m"
  have m: "idle V ?m" "set_at (keys_of V ?m) (counter_key n mach) = Some A"
    using assms(2,3) by (simp_all add: insert_name_def idle_def)
  obtain m' where m': "redis_command E [''sadd'', counter_key n mach, s] ?m =
      Some (RedisValue_int (if s \<in> A then 0 else 1), m')"
    "wrote V ?m (counter_key n mach) (Some (Set (insert s A))) m'"
    using cmd_sadd [OF assms(1) m] .
  show thesis
    by (rule that [of m'])
      (use m' assms(5) counter_text_parts [OF assms(4)] added_state [OF m'(2) m(1)] in
        \<open>simp_all add: SetCounterName_def Let_def changes_set_def redis_observers\<close>)
qed

text \<open>The first counter of that name goes.\<close>

lemma rem_counter_find:
  assumes "\<forall>y \<in> set ys. counter_text_ok E y"
  shows "rem_counter E k s (map RedisValue_buf ys) m =
    (case find (\<lambda>y. counter_name_of E y = s) ys of
       None \<Rightarrow> Some (None, m)
     | Some y \<Rightarrow> map_option (\<lambda>(changed, m'). (if changed then Some (counter_path_of E y) else None, m'))
                  (changes_set E [''srem'', k, y] m))"
  using assms
proof (induction ys)
  case (Cons y ys)
  then have "counter_text_ok E y" by simp
  note p = counter_text_parts [OF this]
  from Cons p show ?case
    by (cases "changes_set E [''srem'', k, y] m") (auto simp: split_beta)
qed simp

lemma srem_done:
  assumes "set_laws E V" "idle V m" "set_at (keys_of V m) k = Some A" "y \<in> A"
  obtains m' where "changes_set E [''srem'', k, y] m = Some (True, m')" "idle V m'"
    "set_at (keys_of V m') k = Some (A - {y})"
proof -
  obtain m' where m': "redis_command E [''srem'', k, y] m = Some (RedisValue_int (if y \<in> A then 1 else 0), m')"
    "wrote V m k (if A - {y} = {} then None else Some (Set (A - {y}))) m'"
    using cmd_srem [OF assms(1-3)] .
  have "set_at (keys_of V m') k = Some (A - {y})"
    by (simp add: wrote_keys [OF m'(2)] set_at_def)
  with m' assms(4) wrote_idle [OF m'(2) assms(2)] show thesis
    by (intro that) (simp_all add: changes_set_def redis_observers)
qed

lemma RemCounterName_done:
  assumes "set_laws E V" "idle V m" "set_at (keys_of V m) (counter_key n mach) = Some A"
    and "\<forall>y \<in> A. counter_text_ok E y" "inj_on (counter_name_of E) A"
  obtains r m' where "RemCounterName E n s mach m = Some (r, m')" "idle V m'"
    "set_at (keys_of V m') (counter_key n mach) = Some {y \<in> A. counter_name_of E y \<noteq> s}"
    "set_option r = counter_path_of E ` {y \<in> A. counter_name_of E y = s}"
proof -
  obtain ys where ys: "redis_command E [''smembers'', counter_key n mach] m =
      Some (RedisValue_array (map RedisValue_buf ys), m)" "distinct ys" "set ys = A"
    using cmd_smembers [OF assms(1-3)] .
  have rem: "RemCounterName E n s mach m = rem_counter E (counter_key n mach) s (map RedisValue_buf ys) m"
    using ys(1) by (simp add: RemCounterName_def redis_observers)
  have ok: "\<forall>y \<in> set ys. counter_text_ok E y" using assms(4) ys(3) by simp
  note rem = rem [unfolded rem_counter_find [OF ok]]
  show thesis
  proof (cases "find (\<lambda>y. counter_name_of E y = s) ys")
    case None
    then have "{z \<in> A. counter_name_of E z = s} = {}" "{z \<in> A. counter_name_of E z \<noteq> s} = A"
      using ys(3) by (auto simp: find_None_iff)
    with None rem assms(2,3) show thesis by (intro that [of None m]) simp_all
  next
    case (Some y)
    then have y: "y \<in> A" "counter_name_of E y = s"
      using ys(3) by (auto simp: find_Some_iff)
    obtain m' where m': "changes_set E [''srem'', counter_key n mach, y] m = Some (True, m')" "idle V m'"
      "set_at (keys_of V m') (counter_key n mach) = Some (A - {y})"
      using srem_done [OF assms(1-3) y(1)] .
    have "{z \<in> A. counter_name_of E z = s} = {y}" "{z \<in> A. counter_name_of E z \<noteq> s} = A - {y}"
      using y assms(5) by (auto dest: inj_onD)
    with Some m' rem show thesis by (intro that [of "Some (counter_path_of E y)" m']) simp_all
  qed
qed

text \<open>What a request needs to be carried out: an added text that can be read, or names that tell the stored counters apart.\<close>

definition commandable :: "('s, 'j) platform \<Rightarrow> bool \<Rightarrow> string set \<Rightarrow> string \<Rightarrow> bool" where
  "commandable E add A s \<longleftrightarrow>
     (if add then counter_text_ok E s \<and> StrToJson E s \<noteq> json_NULL E
      else (\<forall>y \<in> A. counter_text_ok E y) \<and> inj_on (counter_name_of E) A)"

lemma counter_changed:
  assumes "set_laws E V" "idle V m" "set_at (keys_of V m) (counter_key n mach) = Some A" "commandable E add A s"
  obtains r m' where "(if add then SetCounterName E n s mach else RemCounterName E n s mach) m = Some (r, m')" "idle V m'"
    "set_at (keys_of V m') (counter_key n mach) = Some (next_set E add s A)"
    "set_option r = changed_by E add A (next_set E add s A)"
proof (cases add)
  case True
  then obtain m' where "SetCounterName E n s mach m = Some (if s \<in> A then None else Some (counter_path_of E s), m')"
    "idle V m'" "set_at (keys_of V m') (counter_key n mach) = Some (insert s A)"
    using SetCounterName_done [OF assms(1-3), of s] assms(4) by (auto simp: commandable_def)
  with True show thesis
    by (intro that [of "if s \<in> A then None else Some (counter_path_of E s)" m'])
      (auto simp: next_set_def changed_by_def)
next
  case False
  then have ok: "\<forall>y \<in> A. counter_text_ok E y" "inj_on (counter_name_of E) A"
    using assms(4) by (simp_all add: commandable_def)
  obtain r m' where "RemCounterName E n s mach m = Some (r, m')" "idle V m'"
    "set_at (keys_of V m') (counter_key n mach) = Some {y \<in> A. counter_name_of E y \<noteq> s}"
    "set_option r = counter_path_of E ` {y \<in> A. counter_name_of E y = s}"
    using RemCounterName_done [OF assms(1-3) ok] .
  moreover have "A - {y \<in> A. counter_name_of E y \<noteq> s} = {y \<in> A. counter_name_of E y = s}" by auto
  ultimately show thesis using False by (intro that [of r m']) (simp_all add: next_set_def changed_by_def)
qed

subsection \<open>The server\<close>

definition counter_message :: "('s, 'j) platform \<Rightarrow> bool \<Rightarrow> bool \<Rightarrow> string \<Rightarrow> byte list" where
  "counter_message E add mach p =
     scCounterCommandRequest_serialize (RedisManager.wire E)
       \<lparr>ccmd_type = Some (if add then AgentProtocol.CADDLIST else AgentProtocol.CDELETELIST),
        ccmd_counterName = Some p, ccmd_isMachine = Some mach\<rparr>"

definition counter_answer :: "('s, 'j) platform \<Rightarrow> int32 \<Rightarrow> bool \<Rightarrow> bool \<Rightarrow> byte list" where
  "counter_answer E t add success =
     swCounterCommandResponse_serialize (RedisManager.wire E)
       \<lparr>wcrsp_token = Some t, wcrsp_type = Some (if add then WebProtocol.CADDLIST else WebProtocol.CDELETELIST),
        wcrsp_result = Some (success_result success), wcrsp_failReason = None\<rparr>"

lemma counter_message_fits:
  assumes "platform_laws E V" "length p \<le> 8000"
  shows "length (counter_message E add mach p) \<le> BUFSIZE"
  using assms unfolding counter_message_def scCounterCommandRequest_serialize_def platform_laws_def
  by (intro wire_smallD) (simp_all add: scCounterCommandRequest_fields_def put_enum_defs)

lemma counter_answer_fits:
  assumes "platform_laws E V"
  shows "length (counter_answer E t add success) \<le> BUFSIZE"
  using assms unfolding counter_answer_def swCounterCommandResponse_serialize_def platform_laws_def
  by (intro wire_smallD) (simp_all add: swCounterCommandResponse_fields_def
      WebProtocol.put_CounterCommandType_def put_Result_def)

lemma counter_message_send:
  "(if add then AddCounterName E j p mach else DeleteCounterName E j p mach) =
     agent_send j (agentType_value agentType.CounterCommandRequest) (counter_message E add mach p)"
  by (simp add: AddCounterName_def DeleteCounterName_def SendCounterCommand_def counter_message_def
      scCounterCommandRequest_empty_def fun_eq_iff)

text \<open>What the commands leave alone, and the packets they send to the agent \<open>j\<close>.\<close>

definition commanded ::
  "('s, 'j) platform \<Rightarrow> bool \<Rightarrow> bool \<Rightarrow> sid \<Rightarrow> 's server \<Rightarrow> 's server \<Rightarrow> string list \<Rightarrow> bool" where
  "commanded E add mach j srv srv' told \<longleftrightarrow>
     calls srv' = calls srv @ map (\<lambda>p. to_agent srv j (agentType_value agentType.CounterCommandRequest)
       (counter_message E add mach p)) told \<and>
     (\<forall>k. socket (agents srv' k) = socket (agents srv k)) \<and> webs srv' = webs srv"

lemma commanded_trans:
  "commanded E add mach j srv srv1 xs \<Longrightarrow> commanded E add mach j srv1 srv2 ys \<Longrightarrow> commanded E add mach j srv srv2 (xs @ ys)"
  by (simp add: commanded_def to_agent_def)

lemma counter_command_done:
  assumes "platform_laws E V" "idle V (web_store srv)" "set_at (keys V (db srv)) (counter_key n mach) = Some A"
    and "commandable E add A s" "\<forall>p \<in> changed_by E add A (next_set E add s A). length p \<le> 8000"
  obtains told srv' where
    "counter_command E n (if add then WebProtocol.CADDLIST else WebProtocol.CDELETELIST) mach (Some j) s srv = Some (told \<noteq> [], srv')"
    "set told = changed_by E add A (next_set E add s A)" "commanded E add mach j srv srv' told" "idle V (web_store srv')"
    "set_at (keys V (db srv')) (counter_key n mach) = Some (next_set E add s A)"
proof -
  let ?T = "if add then WebProtocol.CADDLIST else WebProtocol.CDELETELIST"
  have laws: "set_laws E V" using assms(1) by (simp add: platform_laws_def store_laws_def)
  have at: "set_at (keys_of V (web_store srv)) (counter_key n mach) = Some A" using assms(3) by simp
  obtain r m' where m': "(if add then SetCounterName E n s mach else RemCounterName E n s mach) (web_store srv) = Some (r, m')"
    "idle V m'" "set_at (keys_of V m') (counter_key n mach) = Some (next_set E add s A)"
    "set_option r = changed_by E add A (next_set E add s A)"
    by (rule counter_changed [OF laws assms(2) at assms(4)])
  let ?srv = "srv\<lparr>webRedis := m', db := store m'\<rparr>"
  have on: "on_webRedis (if add then SetCounterName E n s mach else RemCounterName E n s mach) srv = Some (r, ?srv)"
    using m'(1) by (simp only: on_webRedis_Some) blast
  have step: "counter_command E n ?T mach (Some j) s srv =
    (case r of None \<Rightarrow> Some (False, ?srv)
     | Some p \<Rightarrow> map_option (Pair True) ((if add then AddCounterName E j p mach else DeleteCounterName E j p mach) ?srv))"
    using on by (cases add; cases r) (simp_all add: counter_command_def tell_agent_def)
  have store: "web_store ?srv = m'" by (simp add: web_store_def)
  show thesis
  proof (cases r)
    case None
    with step m'(2-4) store show thesis by (intro that [of "[]" ?srv]) (simp_all add: commanded_def)
  next
    case (Some p)
    then have "length p \<le> 8000" using assms(5) m'(4) by auto
    note fit = counter_message_fits [OF assms(1) this, of add mach]
    note sent = agent_send_fits [OF fit, of j "agentType_value agentType.CounterCommandRequest" ?srv, folded counter_message_send]
    let ?srv' = "?srv\<lparr>agents := (agents ?srv)(j := (agents ?srv j)\<lparr>wsaSendBuf :=
          CPacket.wire (agentType_value agentType.CounterCommandRequest, counter_message E add mach p)\<rparr>),
        calls := calls ?srv @ [to_agent ?srv j (agentType_value agentType.CounterCommandRequest) (counter_message E add mach p)]\<rparr>"
    have "counter_command E n ?T mach (Some j) s srv = Some ([p] \<noteq> [], ?srv')"
      using step Some sent by simp
    moreover have "commanded E add mach j srv ?srv' [p]" by (simp add: commanded_def to_agent_def)
    moreover have "idle V (web_store ?srv')" using m'(2) store by (simp add: web_store_def)
    ultimately show thesis using Some m'(3,4) by (intro that [of "[p]" ?srv']) simp_all
  qed
qed

definition next_sets :: "('s, 'j) platform \<Rightarrow> bool \<Rightarrow> string list \<Rightarrow> string set \<Rightarrow> string set" where
  "next_sets E add names A = (if add then A \<union> set names else {y \<in> A. counter_name_of E y \<notin> set names})"

lemma next_sets_Cons:
  "next_sets E add (s # ss) A = next_sets E add ss (next_set E add s A)"
  "changed_by E add A (next_sets E add (s # ss) A) =
     changed_by E add A (next_set E add s A) \<union>
     changed_by E add (next_set E add s A) (next_sets E add ss (next_set E add s A))"
  by (auto simp: next_sets_def next_set_def changed_by_def)

lemma commandable_next: "commandable E add A s \<Longrightarrow> commandable E add (next_set E add s' A) s"
  by (auto simp: commandable_def next_set_def intro: inj_on_subset split: if_splits)

lemma counter_commands_done:
  assumes "platform_laws E V" "idle V (web_store srv)" "set_at (keys V (db srv)) (counter_key n mach) = Some A"
    and "\<forall>s \<in> set names. commandable E add A s" "\<forall>p \<in> changed_by E add A (next_sets E add names A). length p \<le> 8000"
  shows "\<exists>told srv'. counter_commands E n (if add then WebProtocol.CADDLIST else WebProtocol.CDELETELIST) mach (Some j) names r srv =
      Some (r \<or> told \<noteq> [], srv') \<and> set told = changed_by E add A (next_sets E add names A) \<and>
    commanded E add mach j srv srv' told \<and> set_at (keys V (db srv')) (counter_key n mach) = Some (next_sets E add names A)"
  using assms(2-5)
proof (induction names arbitrary: r srv A)
  case Nil
  then show ?case
    by (intro exI [of _ "[]"] exI [of _ srv]) (simp add: commanded_def next_sets_def changed_by_def)
next
  case (Cons s ss)
  let ?A = "next_set E add s A"
  have one: "commandable E add A s" "\<forall>p \<in> changed_by E add A ?A. length p \<le> 8000"
    and rest: "\<forall>s \<in> set ss. commandable E add ?A s" "\<forall>p \<in> changed_by E add ?A (next_sets E add ss ?A). length p \<le> 8000"
    using Cons.prems(3,4) by (simp_all add: next_sets_Cons(2) commandable_next)
  obtain told srv1 where 1: "counter_command E n (if add then WebProtocol.CADDLIST else WebProtocol.CDELETELIST) mach (Some j) s srv = Some (told \<noteq> [], srv1)"
    "set told = changed_by E add A ?A" "commanded E add mach j srv srv1 told" "idle V (web_store srv1)"
    "set_at (keys V (db srv1)) (counter_key n mach) = Some ?A"
    by (rule counter_command_done [OF assms(1) Cons.prems(1,2) one])
  obtain more srv' where 2: "counter_commands E n (if add then WebProtocol.CADDLIST else WebProtocol.CDELETELIST) mach (Some j) ss (r \<or> told \<noteq> []) srv1 =
      Some ((r \<or> told \<noteq> []) \<or> more \<noteq> [], srv')" "set more = changed_by E add ?A (next_sets E add ss ?A)"
    "commanded E add mach j srv1 srv' more" "set_at (keys V (db srv')) (counter_key n mach) = Some (next_sets E add ss ?A)"
    using Cons.IH [OF 1(4,5) rest] by blast
  have "counter_commands E n (if add then WebProtocol.CADDLIST else WebProtocol.CDELETELIST) mach (Some j) (s # ss) r srv =
      Some (r \<or> told @ more \<noteq> [], srv')"
    using 1(1) 2(1) by simp
  moreover have "set (told @ more) = changed_by E add A (next_sets E add (s # ss) A)"
    using 1(2) 2(2) by (simp only: next_sets_Cons(2) set_append)
  ultimately show ?case
    using commanded_trans [OF 1(3) 2(3)] 2(4) next_sets_Cons(1) by metis
qed

subsection \<open>The agent\<close>

definition counters_of :: "bool \<Rightarrow> 'o client \<Rightarrow> string set" where
  "counters_of mach c = set (if mach then machineCounterList c else counterList c)"

lemma counter_message_parsed:
  assumes "platform_laws E V" "length p \<le> 8000"
  shows "ptype (received t (counter_message E add mach p)) = agentType_value t"
    and "scCounterCommandRequest_parse (RedisManager.wire E) (payload (received t (counter_message E add mach p))) =
      Some \<lparr>ccmd_type = Some (if add then AgentProtocol.CADDLIST else AgentProtocol.CDELETELIST),
        ccmd_counterName = Some p, ccmd_isMachine = Some mach\<rparr>"
proof -
  note fit = packet_of_wire [OF counter_message_fits [OF assms]]
  show "ptype (received t (counter_message E add mach p)) = agentType_value t" by (rule fit(1))
  have "wire_ok (RedisManager.wire E)" using assms(1) by (simp add: platform_laws_def)
  then show "scCounterCommandRequest_parse (RedisManager.wire E) (payload (received t (counter_message E add mach p))) =
      Some \<lparr>ccmd_type = Some (if add then AgentProtocol.CADDLIST else AgentProtocol.CDELETELIST),
        ccmd_counterName = Some p, ccmd_isMachine = Some mach\<rparr>"
    unfolding fit(2) unfolding counter_message_def by (simp add: scCounterCommandRequest_roundtrip scCounterCommandRequest_initialized_def)
qed

lemma counter_message_heard:
  assumes "platform_laws E V" "length p \<le> 8000" "cwire S = RedisManager.wire E" "socket (csocket c) \<noteq> 0"
  obtains c' where "PacketHandling S b (received agentType.CounterCommandRequest (counter_message E add mach p)) c = Some c'"
    "counters_of mach c' = (if add then insert p (counters_of mach c) else counters_of mach c - {p})"
    "socket (csocket c') = socket (csocket c)"
proof -
  note msg = counter_message_parsed [OF assms(1,2), of agentType.CounterCommandRequest]
  let ?c = "snd (if add then AddCounter p mach c else DeleteCounter p mach c)"
  have "handle_packet S (received agentType.CounterCommandRequest (counter_message E add mach p)) c = Some ?c"
    by (cases add) (simp_all add: handle_packet_def handle_CounterCommandRequest_def assms(3) msg)
  moreover have "counters_of mach ?c = (if add then insert p (counters_of mach c) else counters_of mach c - {p})"
    by (cases add; cases mach) (auto simp: counters_of_def AddCounter_def DeleteCounter_def)
  moreover have "socket (csocket ?c) = socket (csocket c)"
    by (cases add; cases mach) (auto simp: AddCounter_def DeleteCounter_def)
  ultimately show thesis
    using assms(4) by (intro that [of "free_packet b ?c"])
      (auto simp: PacketHandling_def free_packet_def counters_of_def)
qed

lemma counter_messages_heard:
  assumes "platform_laws E V" "cwire S = RedisManager.wire E" "socket (csocket c) \<noteq> 0" "\<forall>p \<in> set told. length p \<le> 8000"
  shows "\<exists>c'. client_run S (map (\<lambda>p. ServerPacket (block p)
      (received agentType.CounterCommandRequest (counter_message E add mach p))) told) c = Some c' \<and>
    counters_of mach c' = (if add then counters_of mach c \<union> set told else counters_of mach c - set told)"
  using assms(3,4)
proof (induction told arbitrary: c)
  case (Cons p told)
  have fit: "length p \<le> 8000" using Cons.prems(2) by simp
  obtain c1 where c1: "PacketHandling S (block p) (received agentType.CounterCommandRequest (counter_message E add mach p)) c = Some c1"
    "counters_of mach c1 = (if add then insert p (counters_of mach c) else counters_of mach c - {p})"
    "socket (csocket c1) = socket (csocket c)"
    by (rule counter_message_heard [OF assms(1) fit assms(2) Cons.prems(1)])
  obtain c' where "client_run S (map (\<lambda>p. ServerPacket (block p)
      (received agentType.CounterCommandRequest (counter_message E add mach p))) told) c1 = Some c'"
    "counters_of mach c' = (if add then counters_of mach c1 \<union> set told else counters_of mach c1 - set told)"
    using Cons.IH [of c1] Cons.prems c1(3) by auto
  with c1(1,2) show ?case by (cases add) auto
qed simp

end
