(* ===== verification/CommandProperties.thy ===== *)
theory CommandProperties imports CounterCommands SessionProperties begin

text \<open>
  The web front end, the server and an agent together: the counters in the store and those the agent
  watches stay in step.
\<close>

lemma web_counter_request:
  assumes "platform_laws E V" "server_inv E V h srv" "socket (webs srv i) \<noteq> 0"
    and "ptype packet = psmType_value psmType.CounterCommandRequest"
    and "wsCounterCommandRequest_parse (RedisManager.wire E) (payload packet) = Some
      \<lparr>wccmd_token = Some t, wccmd_type = Some (if add then WebProtocol.CADDLIST else WebProtocol.CDELETELIST),
       wccmd_countername = names, wccmd_ismachine = Some mach\<rparr>"
    and "GetAgentSocketByToken t srv = Some j"
    and "set_at (keys V (db srv)) (counter_key (command_number E h t) mach) = Some A"
    and "\<forall>s \<in> set names. commandable E add A s" "\<forall>p \<in> changed_by E add A (next_sets E add names A). length p \<le> 8000"
  obtains told srv' where "WebCommandSocket.PacketHandling E i b packet srv = Some srv'"
    "set told = changed_by E add A (next_sets E add names A)"
    "set_at (keys V (db srv')) (counter_key (command_number E h t) mach) = Some (next_sets E add names A)"
    "calls srv' = calls srv @
       map (\<lambda>p. to_agent srv j (agentType_value agentType.CounterCommandRequest) (counter_message E add mach p)) told @
       [to_web srv i (psmType_value CounterCommandResponse) (counter_answer E t add (told \<noteq> []))]"
proof -
  let ?n = "command_number E h t" and ?T = "if add then WebProtocol.CADDLIST else WebProtocol.CDELETELIST"
  let ?srv = "srv\<lparr>agentRedis := agent_store srv, db := db srv\<rparr>"
  have laws: "store_laws E V" and reg: "registry E V h (agent_store srv)"
    using assms(1,2) by (simp_all add: platform_laws_def server_inv_def)
  have g: "on_agentRedis (GetAgentID E t) srv = Some (?n, ?srv)"
    using GetAgentID_number [OF laws reg, of t] by (simp add: on_agentRedis_Some)
  have "idle V (web_store ?srv)" "set_at (keys V (db ?srv)) (counter_key ?n mach) = Some A"
    using assms(2,7) by (simp_all add: server_inv_def web_store_def idle_def)
  then obtain told srv1 where c: "counter_commands E ?n ?T mach (Some j) names False ?srv = Some (False \<or> told \<noteq> [], srv1)"
    "set told = changed_by E add A (next_sets E add names A)" "commanded E add mach j ?srv srv1 told"
    "set_at (keys V (db srv1)) (counter_key ?n mach) = Some (next_sets E add names A)"
    using counter_commands_done [OF assms(1) _ _ assms(8,9), of ?srv _ mach j False] by blast
  have j: "GetAgentSocketByToken t ?srv = Some j" using assms(6) by (simp add: GetAgentSocketByToken_def)
  let ?answer = "counter_answer E t add (told \<noteq> [])"
  have "SendCounterCommandResponse E i t ?T (told \<noteq> []) [] srv1 =
      web_send i (psmType_value CounterCommandResponse) ?answer srv1"
    by (simp add: SendCounterCommandResponse_def counter_answer_def swCounterCommandResponse_empty_def)
  note sent = this [unfolded web_send_fits [OF counter_answer_fits [OF assms(1)]]]
  have "WebCommandSocket.handle_CounterCommandRequest E i packet srv = SendCounterCommandResponse E i t ?T (told \<noteq> []) [] srv1"
    using assms(5) g j c(1) by (simp add: WebCommandSocket.handle_CounterCommandRequest_def Let_def)
  with sent assms(3,4) c show thesis
    by (intro that [of "WebCommandSocket.free_packet i b (the (SendCounterCommandResponse E i t ?T (told \<noteq> []) [] srv1))" told])
      (simp_all add: WebCommandSocket.PacketHandling_def WebCommandSocket.handle_packet_def commanded_def
        WebCommandSocket.free_packet_def web_update_def to_web_def to_agent_def)
qed

text \<open>
  C8. The counters of an agent in the store and at the agent stay in step: where the agent watches
  exactly the paths of the stored counters, a request of the front end to add counters, given as texts, or
  to remove counters, given by their names, changes the stored set accordingly and is answered with
  \<open>SUCCESS\<close> exactly when the set changed; and when the agent has handled the packets sent to it, it watches
  exactly the paths of the stored counters again.
\<close>

theorem counters_in_step:
  assumes "platform_laws E V" and "server_inv E V h srv" and "socket (webs srv i) \<noteq> 0"
    and "ptype packet = psmType_value psmType.CounterCommandRequest"
    and "wsCounterCommandRequest_parse (RedisManager.wire E) (payload packet) = Some
      \<lparr>wccmd_token = Some t, wccmd_type = Some (if add then WebProtocol.CADDLIST else WebProtocol.CDELETELIST),
       wccmd_countername = names, wccmd_ismachine = Some mach\<rparr>"
    and "GetAgentSocketByToken t srv = Some j"
    and "set_at (keys V (db srv)) (counter_key (command_number E h t) mach) = Some A"
    and "\<forall>s \<in> set names. commandable E add A s"
    and "\<forall>p \<in> changed_by E add A (next_sets E add names A). length p \<le> 8000"
    and "cwire S = RedisManager.wire E" and "socket (csocket c) \<noteq> 0"
    and "counters_of mach c = counter_path_of E ` A" and "add \<or> inj_on (counter_path_of E) A"
  shows "\<exists>srv' c'. WebCommandSocket.PacketHandling E i b packet srv = Some srv' \<and>
    set_at (keys V (db srv')) (counter_key (command_number E h t) mach) = Some (next_sets E add names A) \<and>
    last (calls srv') = to_web srv i (psmType_value CounterCommandResponse)
      (counter_answer E t add (next_sets E add names A \<noteq> A)) \<and>
    client_run S (map (\<lambda>bs. ServerPacket (block bs) (packet_of bs)) (sent_to_agent j srv srv')) c = Some c' \<and>
    counters_of mach c' = counter_path_of E ` next_sets E add names A"
proof -
  let ?B = "next_sets E add names A"
  let ?bytes = "\<lambda>p. CPacket.wire (agentType_value agentType.CounterCommandRequest, counter_message E add mach p)"
  obtain told srv' where s: "WebCommandSocket.PacketHandling E i b packet srv = Some srv'" "set told = changed_by E add A ?B"
    "set_at (keys V (db srv')) (counter_key (command_number E h t) mach) = Some ?B"
    "calls srv' = calls srv @
       map (\<lambda>p. to_agent srv j (agentType_value agentType.CounterCommandRequest) (counter_message E add mach p)) told @
       [to_web srv i (psmType_value CounterCommandResponse) (counter_answer E t add (told \<noteq> []))]"
    by (rule web_counter_request [OF assms(1-9)])
  have some: "told \<noteq> [] \<longleftrightarrow> ?B \<noteq> A"
    using s(2) by (cases told; cases add) (auto simp: changed_by_def next_sets_def)
  have sent: "sent_to_agent j srv srv' = map ?bytes told"
    by (simp add: s(4) sent_to_agent_def to_agent_def to_web_def o_def concat_map_singleton)
  have fit: "\<forall>p \<in> set told. length p \<le> 8000" using assms(9) s(2) by simp
  obtain c' where c': "client_run S (map (\<lambda>p. ServerPacket (block (?bytes p)) (packet_of (?bytes p))) told) c = Some c'"
    "counters_of mach c' = (if add then counters_of mach c \<union> set told else counters_of mach c - set told)"
    using counter_messages_heard [OF assms(1,10,11) fit, of "\<lambda>p. block (?bytes p)" add mach] by blast
  have "counters_of mach c' = counter_path_of E ` ?B"
    using c'(2) assms(12,13) s(2) inj_on_image_set_diff [of "counter_path_of E" A A "A - ?B"]
    by (cases add) (auto simp: changed_by_def next_sets_def inj_on_def)
  with s c'(1) sent some show ?thesis
    by (intro exI [of _ srv'] exI [of _ c']) (simp add: o_def)
qed

text \<open>The server of the demos with an agent that has the token 7.\<close>

lemma demo_connected:
  obtains h srv where "server_inv demo_E demo_V h srv" "agentList srv = [0]" "token (agents srv 0) = 7"
    "socket (webs srv 0) = 1" "\<And>n b. set_at (keys demo_V (db srv)) (counter_key n b) = Some {}"
proof -
  obtain srv0 where s: "server_inv demo_E demo_V Map.empty srv0" "agentList srv0 = [0]"
    "token (agents srv0 0) = -1" "socket (webs srv0 0) = 1" "db srv0 = demo_empty"
    by (rule demo_accepted) (blast intro: that)
  have reg: "registry demo_E demo_V Map.empty (agent_store srv0)" using s(1) by (simp add: server_inv_def)
  have none: "GetAgentSocketByToken 7 srv0 = None" using s(2,3) by (simp add: by_token_None)
  obtain v srv where r: "handle_AgentIDRequest demo_E 0 demo_id_packet srv0 = Some srv" "token (agents srv 0) = 7"
    "agentList srv = agentList srv0" "webs srv = webs srv0"
    "wrote demo_V (agent_store srv0) ''AgentList'' (Some (Hash [to_string 7 \<mapsto> v])) (agent_store srv)"
    by (rule id_request_done [OF demo_platform reg _ _ _ none, of demo_id_packet demo_id_msg 0])
      (use demo_id_parse in \<open>simp_all add: demo_id_msg_def\<close>)
  have "set_at (keys_of demo_V (agent_store srv)) (counter_key n b) = Some {}" for n b
    using list_changed_defaults(3) [OF wrote_list_changed [OF r(5)], of "counter_key n b"] s(5)
    by (simp add: demo_V_def demo_empty_def set_at_def demo_view_def)
  moreover obtain h where "server_inv demo_E demo_V h srv"
    using agent_id_inv [OF demo_laws s(1) _ r(1)] by (auto simp: keeps_inv_def)
  ultimately show thesis using s r by (intro that [of h srv]) simp_all
qed

definition demo_web_counter_msg :: wsCounterCommandRequest where
  "demo_web_counter_msg = \<lparr>wccmd_token = Some 7, wccmd_type = Some WebProtocol.CADDLIST,
     wccmd_countername = [demo_counter], wccmd_ismachine = Some True\<rparr>"

definition demo_web_counter_packet :: CPacket where
  "demo_web_counter_packet = (demo_packet (wsCounterCommandRequest_serialize proto_wire demo_web_counter_msg))
     \<lparr>ptype := psmType_value psmType.CounterCommandRequest\<rparr>"

lemma demo_web_counter_parse:
  "wsCounterCommandRequest_parse proto_wire (payload demo_web_counter_packet) = Some demo_web_counter_msg"
proof -
  have "length demo_counter \<le> 200"
    unfolding demo_counter_def by (simp add: prefixed_def)
  then have "length (wsCounterCommandRequest_serialize proto_wire demo_web_counter_msg) \<le> 1000"
    unfolding wsCounterCommandRequest_serialize_def
    by (intro wire_smallD [OF proto_wire_small])
      (simp_all add: wsCounterCommandRequest_fields_def demo_web_counter_msg_def WebProtocol.put_CounterCommandType_def
        rep_field_bound rep_field_def)
  then show ?thesis
    unfolding demo_web_counter_packet_def payload_ptype
    by (subst demo_packet_payload)
      (simp_all add: wsCounterCommandRequest_roundtrip proto_wire_ok wsCounterCommandRequest_initialized_def
        demo_web_counter_msg_def)
qed

theorem counters_in_step_witness:
  "\<exists>srv srv' c' n. WebCommandSocket.PacketHandling demo_E 0 (0, 0) demo_web_counter_packet srv = Some srv' \<and>
     agentList srv = [0] \<and> set_at (keys demo_V (db srv')) (counter_key n True) = Some {demo_counter} \<and>
     client_run demo_S (map (\<lambda>bs. ServerPacket (0, 0) (packet_of bs)) (sent_to_agent 0 srv srv')) (demo_client True) = Some c' \<and>
     counters_of True c' = {''% Processor Time''}"
proof -
  obtain h srv where s: "server_inv demo_E demo_V h srv" "agentList srv = [0]" "token (agents srv 0) = 7"
    "socket (webs srv 0) = 1" "\<And>n b. set_at (keys demo_V (db srv)) (counter_key n b) = Some {}"
    using demo_connected by blast
  have parse: "wsCounterCommandRequest_parse (RedisManager.wire demo_E) (payload demo_web_counter_packet) = Some
      \<lparr>wccmd_token = Some 7, wccmd_type = Some (if True then WebProtocol.CADDLIST else WebProtocol.CDELETELIST),
       wccmd_countername = [demo_counter], wccmd_ismachine = Some True\<rparr>"
    using demo_web_counter_parse by (simp add: demo_web_counter_msg_def)
  have type: "ptype demo_web_counter_packet = psmType_value psmType.CounterCommandRequest"
    by (simp add: demo_web_counter_packet_def)
  have agent: "GetAgentSocketByToken 7 srv = Some 0"
    using s(2,3) by (simp add: GetAgentSocketByToken_def)
  have readable: "\<forall>s \<in> set [demo_counter]. commandable demo_E True {} s"
    by (simp add: commandable_def demo_counter_ok demo_text_parse json_NULL_def) (simp add: demo_E_def)
  have after: "next_sets demo_E True [demo_counter] {} = {demo_counter}" by (simp add: next_sets_def)
  have fits: "\<forall>p \<in> changed_by demo_E True {} (next_sets demo_E True [demo_counter] {}). length p \<le> 8000"
    by (simp add: after changed_by_def demo_counter_ok)
  have wires: "cwire demo_S = RedisManager.wire demo_E" by simp
  have soc: "socket (webs srv 0) \<noteq> 0" "socket (csocket (demo_client True)) \<noteq> 0" using s(4) by simp_all
  have same: "counters_of True (demo_client True) = counter_path_of demo_E ` {}" by (simp add: counters_of_def)
  obtain srv' c' where r: "WebCommandSocket.PacketHandling demo_E 0 (0, 0) demo_web_counter_packet srv = Some srv'"
    "set_at (keys demo_V (db srv')) (counter_key (command_number demo_E h 7) True) = Some {demo_counter}"
    "client_run demo_S (map (\<lambda>bs. ServerPacket (0, 0) (packet_of bs)) (sent_to_agent 0 srv srv')) (demo_client True) = Some c'"
    "counters_of True c' = counter_path_of demo_E ` {demo_counter}"
    using counters_in_step [OF demo_platform s(1) soc(1) type parse agent s(5) readable fits wires soc(2) same disjI1 [OF TrueI],
      of "(0, 0)" "\<lambda>_. (0, 0)"] unfolding after by (elim exE conjE) (rule that)
  have "counters_of True c' = {''% Processor Time''}" by (simp only: r(4) demo_counter_ok(2) image_insert image_empty)
  with r(1-3) s(2) show ?thesis by (intro exI conjI) assumption+
qed

end
