(* ===== verification/Spec2Isabelle.thy ===== *)
theory Spec2Isabelle imports Pipeline StoreProperties ProtocolProperties ServerProperties ClientProperties ProcessListProperties RecordProperties AsyncProperties SessionProperties CommandProperties begin

text \<open>
  Process system monitoring: the verified model of the C++ part of the repository.

  The program. Agents (\<open>src/AgentClient/AgentClient\<close>) run on the watched machines, sample performance
  counters and report to one server (\<open>src/AgentServer/AgentServer\<close>). The server keeps everything in
  Redis (client library \<open>src/redisLib/lib\<close>) and takes commands from a web front end on a second port.
  Both programs use the socket layer \<open>src/iocpLib\<close> over I/O completion ports and exchange the Protocol
  Buffers messages of \<open>src/lib\<close>. The bytes of a connection are put together to packets in a block of a
  pool, the blocks go through a queue to the one logic thread, and the handler of a packet changes the
  socket objects, talks to Redis and sends packets.

  Conventions. A class becomes a record, an object pointer a number, a method a function on the state that
  returns the new state; the calls to the system are recorded in the state in their order, and what the
  system answers is an argument or a parameter. \<open>None\<close> is a failed assertion, an access behind the end of
  an array or a buffer, a missing member of a JSON value, or a division by zero; returned errors are
  values. The integers of the code are words of their width. A handler, a timer run or the part of a
  thread between two waits is one step; the locks of the code make smaller parts atomic, and where the
  code has none (\<open>LogicHandle\<close>, two recorders on one list) the steps are cut finer or the interleaving
  is stated.

  The theories, in the order of the layers, and what is proved in them:

  \<^item> \<open>PSM_Prelude\<close>, \<open>Decimal\<close>: integer types, header fields, decimal texts.

  \<^item> \<open>MemPooler\<close> (\<open>MemPooler.h\<close>): the block pool, and the interface \<open>block_pool\<close> of a pool, which it
    provides; its clients are the receive pipeline and the log entries of the agent.

  \<^item> \<open>CPacket\<close> (\<open>CPacket.h\<close>), \<open>TcpSocket\<close> (\<open>TcpSocket.cpp\<close>, the actors, \<open>Proactor.cpp\<close>), \<open>RecvFraming\<close>
    (the three \<open>RecvProcess\<close>), \<open>LogicHandle\<close> (both \<open>LogicHandle.cpp\<close>), \<open>Pipeline\<close> (their composition):
    packets are delivered per socket in order, once and unchanged for every cut of the stream and every
    interleaving (C1, C2); the receive path faults exactly when ten packets of a socket are queued and one
    more completes (C3); the window bound; the queue is first-in first-out, but a wake-up can be lost and
    leaves a packet behind.

  \<^item> \<open>RedisValue\<close>, \<open>RedisParser\<close>: reply values and the incremental parser. \<open>RespMachine\<close> is its
    specification, an automaton over characters; \<open>ParserRefinement\<close> proves that the parser computes it
    for every cut into chunks. The recursion of the parser has fuel \<open>length bs + 2\<close>, which \<open>parse_runs\<close>
    shows to be enough for every input, so \<open>OutOfFuel\<close> is never a result. \<open>RedisClientImpl\<close>: the blocking
    client; \<open>RedisAsyncClient\<close>, \<open>AsyncProperties\<close>: the asynchronous client, as events of the I/O service
    and of its strand.

  \<^item> \<open>Wire\<close>, \<open>AgentProtocol\<close>, \<open>WebProtocol\<close>: the generated messages, as functions between messages and
    lists of numbered fields; the encoding of such lists is that of the Protocol Buffers library, the
    parameter \<open>wire_lib\<close> with the law \<open>wire_ok\<close>. \<open>ProtoWire\<close> gives the documented encoding and
    proves the law for it. \<open>ProtocolProperties\<close>: round trips, and the message that the agent reads as
    another one.

  \<^item> \<open>RedisManager\<close> (\<open>RedisManager.cpp\<close>): the store. The Redis server, JSON library and local time are the
    parameter \<open>platform\<close>; \<open>RedisLaws\<close> states the documented behaviour that the proofs use, \<open>DemoPlatform\<close>
    has a server and JSON values that obey all of it. \<open>Registry\<close>, \<open>StoreFrame\<close>, \<open>StoreProperties\<close>: agent
    numbers are unique and never change, lists and logs are stored as told.

  \<^item> \<open>ServerState\<close>, \<open>AgentSocket\<close>, \<open>WebCommandSocket\<close>, \<open>Server\<close>: the socket objects, the handlers of both
    ports, start, heartbeats, console, and the events of the server process. \<open>ServerInvariant\<close>, \<open>ServerRun\<close>,
    \<open>ServerFrame\<close>, \<open>ServerLemmas\<close>, \<open>DemoServer\<close>, \<open>ServerProperties\<close>: what holds along every run.

  \<^item> \<open>ClientState\<close>, \<open>Query\<close>, \<open>AgentClientSocket\<close>, \<open>Recorder\<close>, \<open>AgentClientApp\<close>: the agent. The performance
    counter library, the process snapshot, \<open>std::sort\<close> and the arithmetic of doubles are the parameter
    \<open>system\<close>. \<open>ClientLemmas\<close>, \<open>DemoClient\<close>, \<open>ClientProperties\<close>, \<open>ProcessListProperties\<close>,
    \<open>RecordProperties\<close>: invariants of its runs, what it sends, and its recorders.

  \<^item> \<open>WatchList\<close>: the interface \<open>watch_list\<close> of a list of watched names, which the processes, the counters
    and the counters of the machine provide, and from which the handlers of whole lists are followed.

  \<^item> \<open>SessionStore\<close>, \<open>Session\<close>, \<open>SessionClient\<close>, \<open>SessionTalk\<close>, \<open>SessionProperties\<close>: both programs on one
    connection. What one side sends is put together to the packets of the other, each side answers in its
    turn, and the registration of an agent is followed from the connection to the start of its recorders.
    \<open>talk\<close> has fuel for the packets; fourteen are shown to be enough, since thirteen are sent.

  \<^item> \<open>CounterCommands\<close>, \<open>CommandProperties\<close>: a request of the web front end to add or remove counters, from
    the packet to the server through the store to the list of the agent; store and agent stay in step. Names
    that stand for several stored counters, and texts that cannot be read, are excluded there.

  Not modelled. The Django front end and its scripts (another language). The C++ library, Boost, JsonCpp and
  the Protocol Buffers runtime are parameters or the standard types of the logic. Console output, the
  measurement of the memory size, \<open>GetCurTime\<close> (used for printing only) and the creation of threads and
  completion ports have no effect on the state that is modelled. The \<open>ByteSize\<close> methods of the
  messages are represented by the length of the encoding. Handlers of the asynchronous Redis client that call
  the client back, and signed overflow of the seconds of a recorder (they wrap here), are not covered.
\<close>

end
